theory Spec2Isabelle
  imports Main
begin

section \<open>Data model\<close>

text \<open>
  Values the server only passes through (the Nintendo Account token response, the flapg
  result, the account login, announcements, web services, the active event, a presence):
  their declarations live in \<^verbatim>\<open>api/*.ts\<close>, and no code below looks inside them.
\<close>

datatype json = JSON string

text \<open>\<^verbatim>\<open>AccountLogin['webApiServerCredential']\<close>: the two fields the code reads.\<close>

record WebApiServerCredential =
  accessToken :: string
  expiresIn :: int

text \<open>\<^verbatim>\<open>NintendoAccountUser\<close>: the field \<^verbatim>\<open>id\<close> is named \<open>na_id\<close> here.\<close>

record NintendoAccountUser =
  na_id :: string

text \<open>
  \<^verbatim>\<open>interface SavedToken\<close>. A value of \<^verbatim>\<open>Omit<SavedToken, 'expires_at'>\<close> (what
  \<^verbatim>\<open>createWithSessionToken\<close> returns as \<^verbatim>\<open>data\<close>) is the same record, its
  \<open>expires_at\<close> being overwritten by the spread \<^verbatim>\<open>{...data, expires_at: ...}\<close>.
\<close>

record SavedToken =
  uuid :: string
  timestamp :: string
  nintendoAccountToken :: json
  user :: NintendoAccountUser
  flapg :: json
  nsoAccount :: json
  credential :: WebApiServerCredential
  expires_at :: int
  proxy_url :: "string option"

text \<open>
  \<^verbatim>\<open>interface AuthPolicy\<close>: every field is optional; \<open>None\<close> is \<^verbatim>\<open>undefined\<close>.
\<close>

record AuthPolicy =
  announcements :: "bool option"
  list_friends :: "bool option"
  list_friends_presence :: "bool option"
  friend :: "bool option"
  friend_presence :: "bool option"
  webservices :: "bool option"
  activeevent :: "bool option"
  current_user :: "bool option"
  current_user_presence :: "bool option"
  friends :: "string list option"
  friends_presence :: "string list option"

text \<open>\<^verbatim>\<open>interface AuthToken\<close>; its field \<^verbatim>\<open>user\<close> is named \<open>auth_user\<close> here.\<close>

record AuthToken =
  auth_user :: string
  policy :: "AuthPolicy option"
  created_at :: int

text \<open>
  The claims of a decoded session token that \<^verbatim>\<open>getToken\<close> reads; the field
  \<^verbatim>\<open>typ\<close> is named \<open>jwt_typ\<close> here. The token comes from the caller and its
  signature is not verified, so the payload is whatever JSON the token carries,
  whatever the TypeScript type says. For \<^verbatim>\<open>iss\<close>, \<^verbatim>\<open>typ\<close> and \<^verbatim>\<open>aud\<close>, which the
  code compares with \<^verbatim>\<open>!==\<close> to a string, \<open>None\<close> is a claim that is absent or not a
  string. For \<^verbatim>\<open>exp\<close>, which the code compares with \<^verbatim>\<open><=\<close> to a number, \<open>Some n\<close>
  is the number \<open>n\<close> of seconds the claim is or converts to in that comparison, and
  \<open>None\<close> is a claim that is absent or converts to no number, with which every
  comparison is false.
\<close>

record JwtPayload =
  iss :: "string option"
  jwt_typ :: "string option"
  aud :: "string option"
  exp :: "int option"

text \<open>
  The API client object handed back as \<^verbatim>\<open>nso\<close>: \<^verbatim>\<open>new ZncApi(accessToken)\<close>
  or \<^verbatim>\<open>new ZncProxyApi(proxy_url, token)\<close>.
\<close>

datatype Nso = ZncApi string | ZncProxyApi string string

text \<open>
  The persisted store (node-persist \<^verbatim>\<open>LocalStorage\<close>). Every access of the code
  modelled here builds its key from one of four literal prefixes, or uses the literal
  key \<^verbatim>\<open>NintendoAccountIds\<close>, and reads the value at the type its annotation
  declares, so the store is one map per prefix, indexed by what follows the prefix:
  \<^verbatim>\<open>storage.getItem('NsoToken.' + token)\<close> is \<open>NsoToken s token\<close>. No two keys of
  different families are equal (the prefixes differ before either ends), so a write
  to one family leaves the others as they are. \<open>None\<close> is \<^verbatim>\<open>undefined\<close>.
\<close>

record Storage =
  NsoToken :: "string \<rightharpoonup> SavedToken"
  NintendoAccountToken :: "string \<rightharpoonup> string"
  NintendoAccountIds :: "string list option"
  ZncProxyAuthPolicy :: "string \<rightharpoonup> AuthToken"
  ZncProxyAuthPolicies :: "string \<rightharpoonup> string list"

text \<open>
  A network call made by the process: the static method called with its arguments, or
  the method called with the API object it is called on and its argument.
\<close>

datatype net_call =
    Net_ZncApi_createWithSessionToken string
  | Net_ZncProxyApi_createWithSessionToken string string
  | Net_getAnnouncements Nso
  | Net_getFriendList Nso
  | Net_getWebServices Nso
  | Net_getActiveEvent Nso
  | Net_getWebServiceToken Nso string
  | Net_getCurrentUser Nso

text \<open>
  Every \<^verbatim>\<open>throw\<close> of the source is a value. \<open>Thrown msg\<close> is an error raised by a
  collaborator (\<^verbatim>\<open>ZncApi\<close>, \<^verbatim>\<open>ZncProxyApi\<close>); \<open>Jwt_decode_failed\<close> is
  \<^verbatim>\<open>Jwt.decode\<close> throwing.
\<close>

datatype Error =
    Invalid_token
  | Jwt_decode_failed
  | Invalid_issuer
  | Invalid_type
  | Invalid_audience
  | Token_expired
  | Must_reauthenticate
  | Requires_authentication
  | Thrown string

record Friend =
  nsaId :: string
  presence :: json

text \<open>\<^verbatim>\<open>CurrentUser\<close>: the field \<^verbatim>\<open>presence\<close> the code reads, and an id.\<close>

record CurrentUser =
  user_nsaId :: string
  user_presence :: json

text \<open>
  The state of one server process: the persisted store, the closure variables
  \<^verbatim>\<open>cached_announcements\<close>, \<^verbatim>\<open>cached_appdata\<close> and \<^verbatim>\<open>cached_userdata\<close> of
  \<^verbatim>\<open>handler\<close>, the log of network calls made so far, in the order made, and how many
  times \<^verbatim>\<open>Date.now()\<close> and \<^verbatim>\<open>uuidgen()\<close> have been called.
\<close>

record World =
  storage :: Storage
  cached_announcements :: "json list option"
  cached_appdata :: "string \<rightharpoonup> (Friend list \<times> json list \<times> json \<times> int)"
  cached_userdata :: "string \<rightharpoonup> (CurrentUser \<times> int)"
  net :: "net_call list"
  ticks :: nat
  uuids :: nat

text \<open>
  The command line options the server reads (\<^verbatim>\<open>argv\<close>); \<open>updateInterval\<close> is in
  seconds.
\<close>

record Argv =
  requireToken :: bool
  zncProxyUrl :: "string option"
  updateInterval :: int

text \<open>
  What the program does not decide: the options, the client id constant of \<^verbatim>\<open>api/znc.ts\<close>,
  \<^verbatim>\<open>Jwt.decode\<close> of \<^verbatim>\<open>api/util.ts\<close> (\<open>None\<close> when it throws), the value of the
  \<open>n\<close>-th \<^verbatim>\<open>Date.now()\<close> (milliseconds) and of the \<open>n\<close>-th \<^verbatim>\<open>uuidgen()\<close>, and
  the answer of each network call, which may depend on how many calls came before it
  (\<open>Inl msg\<close> when the call throws).
\<close>

record Env =
  argv :: Argv
  ZNCA_CLIENT_ID :: string
  Jwt_decode :: "string \<Rightarrow> JwtPayload option"
  clock :: "nat \<Rightarrow> int"
  uuidgen :: "nat \<Rightarrow> string"
  ZncApi_createWithSessionToken :: "nat \<Rightarrow> string \<Rightarrow> string + (Nso \<times> SavedToken)"
  ZncProxyApi_createWithSessionToken ::
    "nat \<Rightarrow> string \<Rightarrow> string \<Rightarrow> string + (Nso \<times> SavedToken)"
  getAnnouncements :: "nat \<Rightarrow> Nso \<Rightarrow> string + json list"
  getFriendList :: "nat \<Rightarrow> Nso \<Rightarrow> string + Friend list"
  getWebServices :: "nat \<Rightarrow> Nso \<Rightarrow> string + json list"
  getActiveEvent :: "nat \<Rightarrow> Nso \<Rightarrow> string + json"
  getWebServiceToken :: "nat \<Rightarrow> Nso \<Rightarrow> string \<Rightarrow> string + json"
  getCurrentUser :: "nat \<Rightarrow> Nso \<Rightarrow> string + CurrentUser"


section \<open>The store, the clock, the network log\<close>

definition Date_now :: "Env \<Rightarrow> World \<Rightarrow> int \<times> World" where
  "Date_now env w = (clock env (ticks w), w\<lparr>ticks := Suc (ticks w)\<rparr>)"

definition call :: "net_call \<Rightarrow> World \<Rightarrow> World" where
  "call c w = w\<lparr>net := net w @ [c]\<rparr>"

definition setItem_NsoToken :: "string \<Rightarrow> SavedToken \<Rightarrow> World \<Rightarrow> World" where
  "setItem_NsoToken k v w =
     w\<lparr>storage := (storage w)\<lparr>NsoToken := (NsoToken (storage w))(k \<mapsto> v)\<rparr>\<rparr>"

definition setItem_NintendoAccountToken :: "string \<Rightarrow> string \<Rightarrow> World \<Rightarrow> World" where
  "setItem_NintendoAccountToken k v w =
     w\<lparr>storage := (storage w)\<lparr>NintendoAccountToken :=
       (NintendoAccountToken (storage w))(k \<mapsto> v)\<rparr>\<rparr>"

definition setItem_NintendoAccountIds :: "string list \<Rightarrow> World \<Rightarrow> World" where
  "setItem_NintendoAccountIds v w =
     w\<lparr>storage := (storage w)\<lparr>NintendoAccountIds := Some v\<rparr>\<rparr>"

definition setItem_ZncProxyAuthPolicy :: "string \<Rightarrow> AuthToken \<Rightarrow> World \<Rightarrow> World" where
  "setItem_ZncProxyAuthPolicy k v w =
     w\<lparr>storage := (storage w)\<lparr>ZncProxyAuthPolicy :=
       (ZncProxyAuthPolicy (storage w))(k \<mapsto> v)\<rparr>\<rparr>"

definition removeItem_ZncProxyAuthPolicy :: "string \<Rightarrow> World \<Rightarrow> World" where
  "removeItem_ZncProxyAuthPolicy k w =
     w\<lparr>storage := (storage w)\<lparr>ZncProxyAuthPolicy :=
       (ZncProxyAuthPolicy (storage w))(k := None)\<rparr>\<rparr>"

definition setItem_ZncProxyAuthPolicies :: "string \<Rightarrow> string list \<Rightarrow> World \<Rightarrow> World" where
  "setItem_ZncProxyAuthPolicies k v w =
     w\<lparr>storage := (storage w)\<lparr>ZncProxyAuthPolicies :=
       (ZncProxyAuthPolicies (storage w))(k \<mapsto> v)\<rparr>\<rparr>"

text \<open>JavaScript truthiness of an optional string: \<^verbatim>\<open>undefined\<close> and the empty string are falsy.\<close>

fun truthy_str :: "string option \<Rightarrow> bool" where
  "truthy_str None = False"
| "truthy_str (Some s) = (s \<noteq> [])"

text \<open>Of an optional boolean: only \<^verbatim>\<open>true\<close> is truthy.\<close>

fun truthy_flag :: "bool option \<Rightarrow> bool" where
  "truthy_flag (Some True) = True"
| "truthy_flag _ = False"

text \<open>
  A JavaScript \<^verbatim>\<open>Set\<close> of strings, as the list of its members in insertion order:
  \<^verbatim>\<open>new Set(xs)\<close>, \<^verbatim>\<open>s.add(x)\<close>, \<^verbatim>\<open>s.delete(x)\<close>; \<^verbatim>\<open>[...s]\<close> is the list itself.
\<close>

definition Set_add :: "'a \<Rightarrow> 'a list \<Rightarrow> 'a list" where
  "Set_add x s = (if x \<in> set s then s else s @ [x])"

definition new_Set :: "'a list \<Rightarrow> 'a list" where
  "new_Set xs = fold Set_add xs []"

definition Set_delete :: "'a \<Rightarrow> 'a list \<Rightarrow> 'a list" where
  "Set_delete x s = filter (\<lambda>y. y \<noteq> x) s"

text \<open>\<^verbatim>\<open>v ?? []\<close>\<close>

definition or_empty :: "'a list option \<Rightarrow> 'a list" where
  "or_empty v = (case v of None \<Rightarrow> [] | Some xs \<Rightarrow> xs)"

text \<open>\<^verbatim>\<open>s.startsWith(p)\<close>; \<^verbatim>\<open>s.substr(n)\<close> is \<open>drop n s\<close>.\<close>

definition startsWith :: "string \<Rightarrow> string \<Rightarrow> bool" where
  "startsWith s p = (take (length p) s = p)"

section \<open>getToken (util.ts)\<close>

record TokenResult =
  nso :: Nso
  data :: SavedToken

text \<open>
  \<^verbatim>\<open>proxy_url ? ZncProxyApi.createWithSessionToken(proxy_url, token) :
  ZncApi.createWithSessionToken(token)\<close>: which call goes out, and what the \<open>n\<close>-th
  call of the process answers.
\<close>

definition createWithSessionToken_call :: "string option \<Rightarrow> string \<Rightarrow> net_call" where
  "createWithSessionToken_call purl token =
     (case purl of
        None \<Rightarrow> Net_ZncApi_createWithSessionToken token
      | Some url \<Rightarrow>
          if url \<noteq> [] then Net_ZncProxyApi_createWithSessionToken url token
          else Net_ZncApi_createWithSessionToken token)"

definition createWithSessionToken ::
  "Env \<Rightarrow> nat \<Rightarrow> string option \<Rightarrow> string \<Rightarrow> string + (Nso \<times> SavedToken)" where
  "createWithSessionToken env n purl token =
     (case purl of
        None \<Rightarrow> ZncApi_createWithSessionToken env n token
      | Some url \<Rightarrow>
          if url \<noteq> [] then ZncProxyApi_createWithSessionToken env n url token
          else ZncApi_createWithSessionToken env n token)"

text \<open>
  The miss branch, lines 147 to 162: the exchange, then \<^verbatim>\<open>Date.now()\<close>, then the two
  writes. The spread \<^verbatim>\<open>{...data, expires_at: ...}\<close> builds a new object from
  \<^verbatim>\<open>data\<close> alone.
\<close>

definition authenticate ::
  "Env \<Rightarrow> World \<Rightarrow> string \<Rightarrow> string option \<Rightarrow> (Error + TokenResult) \<times> World" where
  "authenticate env w token purl =
     (let w1 = call (createWithSessionToken_call purl token) w in
      case createWithSessionToken env (length (net w)) purl token of
        Inl msg \<Rightarrow> (Inl (Thrown msg), w1)
      | Inr (api, d) \<Rightarrow>
          (let (now, w2) = Date_now env w1;
               existingToken = d\<lparr>expires_at := now + expiresIn (credential d) * 1000\<rparr>;
               w3 = setItem_NsoToken token existingToken w2;
               w4 = setItem_NintendoAccountToken (na_id (user d)) token w3
           in (Inr \<lparr>nso = api, data = existingToken\<rparr>, w4)))"

text \<open>
  \<^verbatim>\<open>proxy_url ? new ZncProxyApi(proxy_url, token) :
  new ZncApi(existingToken.credential.accessToken)\<close>
\<close>

definition new_api :: "string option \<Rightarrow> string \<Rightarrow> SavedToken \<Rightarrow> Nso" where
  "new_api purl token existingToken =
     (case purl of
        None \<Rightarrow> ZncApi (accessToken (credential existingToken))
      | Some url \<Rightarrow>
          if url \<noteq> [] then ZncProxyApi url token
          else ZncApi (accessToken (credential existingToken)))"

text \<open>
  \<^verbatim>\<open>getToken(storage, token, proxy_url)\<close>. The test
  \<^verbatim>\<open>jwt.payload.exp <= (Date.now() / 1000)\<close> compares seconds with milliseconds
  over 1000; on integers that is \<open>exp * 1000 \<le> now\<close>, and it is false when \<^verbatim>\<open>exp\<close>
  is no number. In
  \<^verbatim>\<open>!existingToken || existingToken.expires_at <= Date.now()\<close> the clock is read only
  when an entry exists.
\<close>

definition getToken ::
  "Env \<Rightarrow> World \<Rightarrow> string \<Rightarrow> string option \<Rightarrow> (Error + TokenResult) \<times> World" where
  "getToken env w token purl =
     (if token = [] then (Inl Invalid_token, w)
      else case Jwt_decode env token of
        None \<Rightarrow> (Inl Jwt_decode_failed, w)
      | Some jwt \<Rightarrow>
          if iss jwt \<noteq> Some ''https://accounts.nintendo.com'' then (Inl Invalid_issuer, w)
          else if jwt_typ jwt \<noteq> Some ''session_token'' then (Inl Invalid_type, w)
          else if aud jwt \<noteq> Some (ZNCA_CLIENT_ID env) then (Inl Invalid_audience, w)
          else
            (let (now1, w1) = Date_now env w in
             if (case exp jwt of None \<Rightarrow> False | Some e \<Rightarrow> e * 1000 \<le> now1)
             then (Inl Token_expired, w1)
             else case NsoToken (storage w1) token of
               None \<Rightarrow> authenticate env w1 token purl
             | Some existingToken \<Rightarrow>
                 (let (now2, w2) = Date_now env w1 in
                  if expires_at existingToken \<le> now2 then authenticate env w2 token purl
                  else
                    (let w3 = setItem_NintendoAccountToken (na_id (user existingToken)) token w2
                     in (Inr \<lparr>nso = new_api purl token existingToken,
                              data = existingToken\<rparr>, w3)))))"

section \<open>The HTTP server (cli/nso/http-server.ts)\<close>

text \<open>
  What the handlers read of the message a client sent: the \<^verbatim>\<open>authorization\<close> header,
  the query parameters \<^verbatim>\<open>user\<close> and \<^verbatim>\<open>token\<close>, the route parameters \<^verbatim>\<open>nsaid\<close> and
  \<^verbatim>\<open>id\<close>, and the parsed body's \<^verbatim>\<open>policy\<close>.
\<close>

record IncomingMessage =
  authorization :: "string option"
  query_user :: "string option"
  query_token :: "string option"
  params_nsaid :: string
  params_id :: string
  body_policy :: "AuthPolicy option"

text \<open>
  The Express request object: the message and the three fields \<^verbatim>\<open>authToken\<close> sets
  (\<^verbatim>\<open>declare global\<close>, lines 13 to 24), \<^verbatim>\<open>undefined\<close> on the object Express hands
  to the first handler of a route. The fields \<^verbatim>\<open>znc\<close> and \<^verbatim>\<open>zncAuth\<close> that
  \<^verbatim>\<open>nsoAuth\<close> sets are the \<open>TokenResult\<close> it hands to the handlers after it.
\<close>

record Request = IncomingMessage +
  zncAuthPolicy :: "AuthPolicy option"
  zncAuthPolicyUser :: "string option"
  zncAuthPolicyToken :: "string option"

definition new_request :: "IncomingMessage \<Rightarrow> Request" where
  "new_request msg =
     \<lparr>authorization = authorization msg, query_user = query_user msg,
      query_token = query_token msg, params_nsaid = params_nsaid msg,
      params_id = params_id msg, body_policy = body_policy msg, zncAuthPolicy = None,
      zncAuthPolicyUser = None, zncAuthPolicyToken = None\<rparr>"

text \<open>
  The JSON bodies the handlers send. \<open>Body_error code message\<close> is
  \<^verbatim>\<open>{error: code, error_message: message}\<close> with a literal code; \<open>Body_thrown err\<close> is
  \<^verbatim>\<open>{error: err, error_message: err.message}\<close>, the caught error object itself.
\<close>

datatype Body =
    Body_none
  | Body_error string "string option"
  | Body_thrown Error
  | Body_auth SavedToken
  | Body_policy "AuthPolicy option"
  | Body_tokens "(string \<times> AuthToken) list"
  | Body_token string AuthToken
  | Body_announcements "json list"
  | Body_friends "Friend list" int
  | Body_presence "string \<rightharpoonup> json"
  | Body_friend Friend int
  | Body_friend_presence json
  | Body_webservices "json list" int
  | Body_webservice_token json
  | Body_activeevent json int
  | Body_user CurrentUser int
  | Body_user_presence json

record Response =
  statusCode :: nat
  body :: Body

definition ok :: "Body \<Rightarrow> Response" where
  "ok b = \<lparr>statusCode = 200, body = b\<rparr>"

definition tokenUnauthorised :: Response where
  "tokenUnauthorised = \<lparr>statusCode = 403, body = Body_error ''token_unauthorised'' None\<rparr>"

definition no_policy :: Response where
  "no_policy = \<lparr>statusCode = 403, body = Body_error ''no_policy'' None\<rparr>"

text \<open>The \<^verbatim>\<open>catch (err)\<close> blocks.\<close>

definition caught :: "Error \<Rightarrow> Response" where
  "caught err = \<lparr>statusCode = 500, body = Body_thrown err\<rparr>"

definition not_found :: Response where
  "not_found = \<lparr>statusCode = 404, body = Body_error ''not_found''
     (Some ''The user is not friends with the authenticated user.'')\<rparr>"

subsection \<open>Asynchronous functions\<close>

text \<open>
  The handlers, and \<^verbatim>\<open>getToken\<close>, are \<^verbatim>\<open>async\<close> functions: one runs until it
  reaches an \<^verbatim>\<open>await\<close> and is suspended there, the handlers of other requests may
  run meanwhile, and it goes on from there when it is resumed. A request being served
  is a task: it has been answered (\<open>Done\<close>), or it is suspended (\<open>Await\<close>) and holds
  what it will do to the world when it is resumed, up to its next \<^verbatim>\<open>await\<close> or to
  its answer. A step is code that runs without suspension from the world it is given.
\<close>

datatype Task = Done Response | Await "World \<Rightarrow> Task \<times> World"

type_synonym Step = "World \<Rightarrow> Task \<times> World"

text \<open>\<^verbatim>\<open>res.end(...)\<close>, after which the handlers of this file do nothing more.\<close>

definition respond :: "Response \<Rightarrow> Step" where
  "respond res w = (Done res, w)"

text \<open>
  \<^verbatim>\<open>const x = await op; k\<close>. The operation awaited (a read or a write of the store,
  a network call) takes effect when the task is resumed from it, and the code after
  it runs from there in the same turn.
\<close>

definition await :: "(World \<Rightarrow> 'a \<times> World) \<Rightarrow> ('a \<Rightarrow> Step) \<Rightarrow> Step" where
  "await op k w = (Await (\<lambda>w1. case op w1 of (x, w2) \<Rightarrow> k x w2), w)"

text \<open>
  \<^verbatim>\<open>const x = op; k\<close>: an operation that is not awaited (a reading of the clock, a
  read or write of a variable of the process) is done in the turn that reaches it.
\<close>

definition sync :: "(World \<Rightarrow> 'a \<times> World) \<Rightarrow> ('a \<Rightarrow> Step) \<Rightarrow> Step" where
  "sync op k w = (case op w of (x, w1) \<Rightarrow> k x w1)"

text \<open>
  The operations: a read of the state of the process; \<^verbatim>\<open>storage.getItem(key)\<close>,
  given as what it reads of the store; a write (\<^verbatim>\<open>storage.setItem\<close>,
  \<^verbatim>\<open>storage.removeItem\<close>, an assignment); \<^verbatim>\<open>uuidgen()\<close>; and a network call, which
  is logged and answered with what the environment has for the call of that number.
\<close>

definition reading :: "(World \<Rightarrow> 'a) \<Rightarrow> World \<Rightarrow> 'a \<times> World" where
  "reading f w = (f w, w)"

definition getItem :: "(Storage \<Rightarrow> 'a) \<Rightarrow> World \<Rightarrow> 'a \<times> World" where
  "getItem item w = (item (storage w), w)"

definition doing :: "(World \<Rightarrow> World) \<Rightarrow> World \<Rightarrow> unit \<times> World" where
  "doing f w = ((), f w)"

definition new_uuid :: "Env \<Rightarrow> World \<Rightarrow> string \<times> World" where
  "new_uuid env w = (uuidgen env (uuids w), w\<lparr>uuids := Suc (uuids w)\<rparr>)"

definition fetch :: "net_call \<Rightarrow> (nat \<Rightarrow> string + 'a) \<Rightarrow> World \<Rightarrow> (string + 'a) \<times> World" where
  "fetch c answer w = (answer (length (net w)), call c w)"

text \<open>
  A task run to its answer with nothing else running between its steps:
  \<open>run (Await k) w\<close> is \<open>run t w1\<close> where \<open>k w = (t, w1)\<close>.
\<close>

primrec run :: "Task \<Rightarrow> World \<Rightarrow> Response \<times> World" where
  "run (Done res) = (\<lambda>w. (res, w))"
| "run (Await k) = (\<lambda>w. case map_prod run id (k w) of (rest, w1) \<Rightarrow> rest w1)"

definition run_step :: "Step \<Rightarrow> World \<Rightarrow> Response \<times> World" where
  "run_step s w = (case s w of (t, w1) \<Rightarrow> run t w1)"

text \<open>
  A task run to its answer while other requests are served: \<open>others n\<close> is what they
  do to the world before the task is resumed for the \<open>n\<close>-th time, counting from 0.
\<close>

primrec run_among :: "Task \<Rightarrow> (nat \<Rightarrow> World \<Rightarrow> World) \<Rightarrow> World \<Rightarrow> Response \<times> World" where
  "run_among (Done res) = (\<lambda>others w. (res, w))"
| "run_among (Await k) =
     (\<lambda>others w. case map_prod run_among id (k (others 0 w)) of
        (rest, w1) \<Rightarrow> rest (\<lambda>n. others (Suc n)) w1)"

text \<open>
  The requests being served by the process, and the world. \<open>resume i\<close> lets the
  \<open>i\<close>-th of them run one turn, if it is suspended; \<open>schedule order\<close> resumes them in
  the given order, which is any order in which they may be resumed.
\<close>

fun resume :: "nat \<Rightarrow> Task list \<times> World \<Rightarrow> Task list \<times> World" where
  "resume i (ts, w) =
     (if i < length ts then
        (case ts ! i of
           Done res \<Rightarrow> (ts, w)
         | Await k \<Rightarrow> (case k w of (t, w1) \<Rightarrow> (ts[i := t], w1)))
      else (ts, w))"

definition schedule :: "nat list \<Rightarrow> Task list \<times> World \<Rightarrow> Task list \<times> World" where
  "schedule order c = fold resume order c"

subsection \<open>getToken, step by step\<close>

text \<open>
  \<^verbatim>\<open>getToken\<close> of util.ts with its \<^verbatim>\<open>await\<close>s (lines 144, 150 to 152, 161 and
  162, and 168); \<open>return\<close> is what the caller does with the result or with the error
  thrown. The caller's own \<^verbatim>\<open>await\<close> of the call adds no step: between the last step
  of \<^verbatim>\<open>getToken\<close> and the caller's next \<^verbatim>\<open>await\<close> or answer, the callers in this
  file neither read nor write the state of the process.
\<close>

definition authenticate_step ::
  "Env \<Rightarrow> string \<Rightarrow> string option \<Rightarrow> (Error + TokenResult \<Rightarrow> Step) \<Rightarrow> Step" where
  "authenticate_step env token purl return =
     await (fetch (createWithSessionToken_call purl token)
              (\<lambda>n. createWithSessionToken env n purl token))
       (\<lambda>answer. case answer of
          Inl msg \<Rightarrow> return (Inl (Thrown msg))
        | Inr (api, d) \<Rightarrow>
            sync (Date_now env)
              (\<lambda>now.
                 let existingToken = d\<lparr>expires_at := now + expiresIn (credential d) * 1000\<rparr>
                 in await (doing (setItem_NsoToken token existingToken))
                      (\<lambda>_. await (doing (setItem_NintendoAccountToken (na_id (user d)) token))
                         (\<lambda>_. return (Inr \<lparr>nso = api, data = existingToken\<rparr>)))))"

definition getToken_step ::
  "Env \<Rightarrow> string \<Rightarrow> string option \<Rightarrow> (Error + TokenResult \<Rightarrow> Step) \<Rightarrow> Step" where
  "getToken_step env token purl return =
     (if token = [] then return (Inl Invalid_token)
      else case Jwt_decode env token of
        None \<Rightarrow> return (Inl Jwt_decode_failed)
      | Some jwt \<Rightarrow>
          if iss jwt \<noteq> Some ''https://accounts.nintendo.com'' then return (Inl Invalid_issuer)
          else if jwt_typ jwt \<noteq> Some ''session_token'' then return (Inl Invalid_type)
          else if aud jwt \<noteq> Some (ZNCA_CLIENT_ID env) then return (Inl Invalid_audience)
          else
            sync (Date_now env)
              (\<lambda>now1.
                 if (case exp jwt of None \<Rightarrow> False | Some e \<Rightarrow> e * 1000 \<le> now1)
                 then return (Inl Token_expired)
                 else await (getItem (\<lambda>s. NsoToken s token))
                   (\<lambda>stored. case stored of
                      None \<Rightarrow> authenticate_step env token purl return
                    | Some existingToken \<Rightarrow>
                        sync (Date_now env)
                          (\<lambda>now2.
                             if expires_at existingToken \<le> now2
                             then authenticate_step env token purl return
                             else await (doing (setItem_NintendoAccountToken
                                           (na_id (user existingToken)) token))
                                    (\<lambda>_. return
                                       (Inr \<lparr>nso = new_api purl token existingToken,
                                             data = existingToken\<rparr>))))))"

subsection \<open>The middleware\<close>

text \<open>
  Each function of the middleware is given twice: as one function of the world, which
  is what it does when no other request runs between its steps, and with its
  \<^verbatim>\<open>await\<close>s, \<open>next\<close> being the handlers registered after it on the route.
\<close>

text \<open>\<^verbatim>\<open>localAuth\<close>, lines 86 to 95; it always calls \<^verbatim>\<open>next()\<close>.\<close>

definition localAuth :: "Env \<Rightarrow> World \<Rightarrow> Request \<Rightarrow> Request" where
  "localAuth env w req =
     (if requireToken (argv env) \<or> \<not> truthy_str (query_user req) then req
      else case NintendoAccountToken (storage w) (the (query_user req)) of
        None \<Rightarrow> req
      | Some token \<Rightarrow>
          if token = [] then req
          else req\<lparr>authorization := Some (''na '' @ token)\<rparr>)"

definition localAuth_step :: "Env \<Rightarrow> Request \<Rightarrow> (Request \<Rightarrow> Step) \<Rightarrow> Step" where
  "localAuth_step env req next =
     (if requireToken (argv env) \<or> \<not> truthy_str (query_user req) then next req
      else await (getItem (\<lambda>s. NintendoAccountToken s (the (query_user req))))
        (\<lambda>stored. case stored of
           None \<Rightarrow> next req
         | Some token \<Rightarrow>
             if token = [] then next req
             else next (req\<lparr>authorization := Some (''na '' @ token)\<rparr>)))"

text \<open>\<^verbatim>\<open>authToken\<close>, lines 97 to 117; it always calls \<^verbatim>\<open>next()\<close>.\<close>

definition set_policy :: "AuthToken \<Rightarrow> string \<Rightarrow> Request \<Rightarrow> Request" where
  "set_policy auth token req =
     req\<lparr>zncAuthPolicy := policy auth, zncAuthPolicyUser := Some (auth_user auth),
         zncAuthPolicyToken := Some token\<rparr>"

definition authToken :: "World \<Rightarrow> Request \<Rightarrow> Request" where
  "authToken w req =
     (if (case authorization req of None \<Rightarrow> False | Some h \<Rightarrow> startsWith h ''Bearer '')
      then
        (let token = drop 7 (the (authorization req)) in
         case ZncProxyAuthPolicy (storage w) token of
           None \<Rightarrow> req
         | Some auth \<Rightarrow> set_policy auth token req)
      else if truthy_str (query_token req) then
        (case ZncProxyAuthPolicy (storage w) (the (query_token req)) of
           None \<Rightarrow> req
         | Some auth \<Rightarrow> set_policy auth (the (query_token req)) req)
      else req)"

definition authToken_step :: "Request \<Rightarrow> (Request \<Rightarrow> Step) \<Rightarrow> Step" where
  "authToken_step req next =
     (if (case authorization req of None \<Rightarrow> False | Some h \<Rightarrow> startsWith h ''Bearer '')
      then
        (let token = drop 7 (the (authorization req)) in
         await (getItem (\<lambda>s. ZncProxyAuthPolicy s token))
           (\<lambda>stored. case stored of
              None \<Rightarrow> next req
            | Some auth \<Rightarrow> next (set_policy auth token req)))
      else if truthy_str (query_token req) then
        await (getItem (\<lambda>s. ZncProxyAuthPolicy s (the (query_token req))))
          (\<lambda>stored. case stored of
             None \<Rightarrow> next req
           | Some auth \<Rightarrow> next (set_policy auth (the (query_token req)) req))
      else next req)"

text \<open>
  \<^verbatim>\<open>nsoAuth\<close>, lines 126 to 157: \<open>Inl\<close> is the response of its \<^verbatim>\<open>catch\<close>, \<open>Inr\<close>
  is \<^verbatim>\<open>next()\<close> with \<^verbatim>\<open>req.znc\<close> and \<^verbatim>\<open>req.zncAuth\<close> set.
\<close>

definition nintendoAccountSessionToken :: "World \<Rightarrow> Request \<Rightarrow> Error + string" where
  "nintendoAccountSessionToken w req =
     (if truthy_str (zncAuthPolicyUser req) then
        (let na_token = NintendoAccountToken (storage w) (the (zncAuthPolicyUser req)) in
         if \<not> truthy_str na_token then Inl Must_reauthenticate
         else Inr (the na_token))
      else
        (let auth = authorization req in
         if \<not> truthy_str auth \<or> \<not> startsWith (the auth) ''na ''
         then Inl Requires_authentication
         else Inr (drop 3 (the auth))))"

definition nsoAuth :: "Env \<Rightarrow> World \<Rightarrow> Request \<Rightarrow> (Response + TokenResult) \<times> World" where
  "nsoAuth env w req =
     (case nintendoAccountSessionToken w req of
        Inl err \<Rightarrow> (Inl (caught err), w)
      | Inr token \<Rightarrow>
          (case getToken env w token (zncProxyUrl (argv env)) of
             (Inl err, w1) \<Rightarrow> (Inl (caught err), w1)
           | (Inr r, w1) \<Rightarrow>
               (let users = new_Set (or_empty (NintendoAccountIds (storage w1)));
                    users' = Set_add (na_id (user (data r))) users
                in (Inr r, setItem_NintendoAccountIds users' w1))))"

text \<open>Lines 139 to 148, with the session token found, and the whole of it.\<close>

definition nsoAuth_session_step :: "Env \<Rightarrow> string \<Rightarrow> (TokenResult \<Rightarrow> Step) \<Rightarrow> Step" where
  "nsoAuth_session_step env token next =
     getToken_step env token (zncProxyUrl (argv env))
       (\<lambda>result. case result of
          Inl err \<Rightarrow> respond (caught err)
        | Inr r \<Rightarrow>
            await (getItem NintendoAccountIds)
              (\<lambda>stored.
                 let users = new_Set (or_empty stored);
                     users' = Set_add (na_id (user (data r))) users
                 in await (doing (setItem_NintendoAccountIds users')) (\<lambda>_. next r)))"

definition nsoAuth_step :: "Env \<Rightarrow> Request \<Rightarrow> (TokenResult \<Rightarrow> Step) \<Rightarrow> Step" where
  "nsoAuth_step env req next =
     (if truthy_str (zncAuthPolicyUser req) then
        await (getItem (\<lambda>s. NintendoAccountToken s (the (zncAuthPolicyUser req))))
          (\<lambda>na_token.
             if \<not> truthy_str na_token then respond (caught Must_reauthenticate)
             else nsoAuth_session_step env (the na_token) next)
      else
        (let auth = authorization req in
         if \<not> truthy_str auth \<or> \<not> startsWith (the auth) ''na ''
         then respond (caught Requires_authentication)
         else nsoAuth_session_step env (drop 3 (the auth)) next))"

text \<open>
  \<^verbatim>\<open>getAppData\<close>, lines 272 to 299: \<open>None\<close> is \<^verbatim>\<open>next()\<close>. The clock is read in
  the test only when the user has an entry. \<^verbatim>\<open>updateInterval\<close> is
  \<^verbatim>\<open>argv.updateInterval * 1000\<close>.
\<close>

definition fetchAppData ::
  "Env \<Rightarrow> World \<Rightarrow> TokenResult \<Rightarrow> Response option \<times> World" where
  "fetchAppData env w r =
     (let w1 = call (Net_getFriendList (nso r)) w in
      case getFriendList env (length (net w)) (nso r) of
        Inl msg \<Rightarrow> (Some (caught (Thrown msg)), w1)
      | Inr friend_list \<Rightarrow>
          (let w2 = call (Net_getWebServices (nso r)) w1 in
           case getWebServices env (length (net w1)) (nso r) of
             Inl msg \<Rightarrow> (Some (caught (Thrown msg)), w2)
           | Inr webservice_list \<Rightarrow>
               (let w3 = call (Net_getActiveEvent (nso r)) w2 in
                case getActiveEvent env (length (net w2)) (nso r) of
                  Inl msg \<Rightarrow> (Some (caught (Thrown msg)), w3)
                | Inr active_event \<Rightarrow>
                    (let (now, w4) = Date_now env w3 in
                     (None, w4\<lparr>cached_appdata := (cached_appdata w4)
                        (na_id (user (data r)) \<mapsto>
                           (friend_list, webservice_list, active_event, now))\<rparr>)))))"

definition getAppData ::
  "Env \<Rightarrow> World \<Rightarrow> TokenResult \<Rightarrow> Response option \<times> World" where
  "getAppData env w r =
     (case cached_appdata w (na_id (user (data r))) of
        None \<Rightarrow> fetchAppData env w r
      | Some (friend_list, webservice_list, active_event, updated) \<Rightarrow>
          (let (now, w1) = Date_now env w in
           if updated + updateInterval (argv env) * 1000 > now then (None, w1)
           else fetchAppData env w1 r))"

definition fetchAppData_step :: "Env \<Rightarrow> TokenResult \<Rightarrow> Step \<Rightarrow> Step" where
  "fetchAppData_step env r next =
     await (fetch (Net_getFriendList (nso r)) (\<lambda>n. getFriendList env n (nso r)))
       (\<lambda>answer. case answer of
          Inl msg \<Rightarrow> respond (caught (Thrown msg))
        | Inr friend_list \<Rightarrow>
            await (fetch (Net_getWebServices (nso r)) (\<lambda>n. getWebServices env n (nso r)))
              (\<lambda>answer. case answer of
                 Inl msg \<Rightarrow> respond (caught (Thrown msg))
               | Inr webservice_list \<Rightarrow>
                   await (fetch (Net_getActiveEvent (nso r))
                            (\<lambda>n. getActiveEvent env n (nso r)))
                     (\<lambda>answer. case answer of
                        Inl msg \<Rightarrow> respond (caught (Thrown msg))
                      | Inr active_event \<Rightarrow>
                          sync (Date_now env)
                            (\<lambda>now. sync (doing (\<lambda>w. w\<lparr>cached_appdata := (cached_appdata w)
                                 (na_id (user (data r)) \<mapsto>
                                    (friend_list, webservice_list, active_event, now))\<rparr>))
                               (\<lambda>_. next)))))"

definition getAppData_step :: "Env \<Rightarrow> TokenResult \<Rightarrow> Step \<Rightarrow> Step" where
  "getAppData_step env r next =
     sync (reading (\<lambda>w. cached_appdata w (na_id (user (data r)))))
       (\<lambda>cache. case cache of
          None \<Rightarrow> fetchAppData_step env r next
        | Some (friend_list, webservice_list, active_event, updated) \<Rightarrow>
            sync (Date_now env)
              (\<lambda>now. if updated + updateInterval (argv env) * 1000 > now then next
                      else fetchAppData_step env r next))"

text \<open>\<^verbatim>\<open>getUserData\<close>, lines 431 to 453, of the same shape.\<close>

definition fetchUserData ::
  "Env \<Rightarrow> World \<Rightarrow> TokenResult \<Rightarrow> Response option \<times> World" where
  "fetchUserData env w r =
     (let w1 = call (Net_getCurrentUser (nso r)) w in
      case getCurrentUser env (length (net w)) (nso r) of
        Inl msg \<Rightarrow> (Some (caught (Thrown msg)), w1)
      | Inr current \<Rightarrow>
          (let (now, w2) = Date_now env w1 in
           (None, w2\<lparr>cached_userdata := (cached_userdata w2)
              (na_id (user (data r)) \<mapsto> (current, now))\<rparr>)))"

definition getUserData ::
  "Env \<Rightarrow> World \<Rightarrow> TokenResult \<Rightarrow> Response option \<times> World" where
  "getUserData env w r =
     (case cached_userdata w (na_id (user (data r))) of
        None \<Rightarrow> fetchUserData env w r
      | Some (current, updated) \<Rightarrow>
          (let (now, w1) = Date_now env w in
           if updated + updateInterval (argv env) * 1000 > now then (None, w1)
           else fetchUserData env w1 r))"

definition fetchUserData_step :: "Env \<Rightarrow> TokenResult \<Rightarrow> Step \<Rightarrow> Step" where
  "fetchUserData_step env r next =
     await (fetch (Net_getCurrentUser (nso r)) (\<lambda>n. getCurrentUser env n (nso r)))
       (\<lambda>answer. case answer of
          Inl msg \<Rightarrow> respond (caught (Thrown msg))
        | Inr current \<Rightarrow>
            sync (Date_now env)
              (\<lambda>now. sync (doing (\<lambda>w. w\<lparr>cached_userdata := (cached_userdata w)
                   (na_id (user (data r)) \<mapsto> (current, now))\<rparr>))
                 (\<lambda>_. next)))"

definition getUserData_step :: "Env \<Rightarrow> TokenResult \<Rightarrow> Step \<Rightarrow> Step" where
  "getUserData_step env r next =
     sync (reading (\<lambda>w. cached_userdata w (na_id (user (data r)))))
       (\<lambda>cache. case cache of
          None \<Rightarrow> fetchUserData_step env r next
        | Some (current, updated) \<Rightarrow>
            sync (Date_now env)
              (\<lambda>now. if updated + updateInterval (argv env) * 1000 > now then next
                      else fetchUserData_step env r next))"

text \<open>
  \<^verbatim>\<open>bodyParser.json()\<close> reads the body of the message and then calls \<^verbatim>\<open>next()\<close>, so
  the handler after it starts in a later turn. What it parses is the \<open>body_policy\<close>
  of the message.
\<close>

definition bodyParser_json_step :: "Step \<Rightarrow> Step" where
  "bodyParser_json_step next = await (doing (\<lambda>w. w)) (\<lambda>_. next)"

subsection \<open>Session and proxy tokens\<close>

text \<open>\<^verbatim>\<open>app.get('/api/znc/auth', nsoAuth, ...)\<close>, lines 159 to 162.\<close>

definition get_auth_step :: "Env \<Rightarrow> IncomingMessage \<Rightarrow> Step" where
  "get_auth_step env msg =
     nsoAuth_step env (new_request msg) (\<lambda>r. respond (ok (Body_auth (data r))))"

text \<open>
  \<^verbatim>\<open>'ZncProxyAuthPolicies.' + req.zncAuthPolicyUser\<close>: concatenating \<^verbatim>\<open>undefined\<close>
  gives the text \<^verbatim>\<open>undefined\<close>.
\<close>

definition concat_str :: "string option \<Rightarrow> string" where
  "concat_str v = (case v of None \<Rightarrow> ''undefined'' | Some s \<Rightarrow> s)"

text \<open>\<^verbatim>\<open>app.get('/api/znc/token', authToken, ...)\<close>, lines 164 to 174.\<close>

definition get_token_step :: "IncomingMessage \<Rightarrow> Step" where
  "get_token_step msg =
     authToken_step (new_request msg)
       (\<lambda>req. if \<not> truthy_str (zncAuthPolicyToken req) then respond no_policy
              else respond (ok (Body_policy (zncAuthPolicy req))))"

text \<open>
  \<^verbatim>\<open>app.delete('/api/znc/token', authToken, ...)\<close>, lines 175 to 191, with its
  \<^verbatim>\<open>await\<close>s on lines 183, 185 and 187.
\<close>

definition delete_token_step :: "IncomingMessage \<Rightarrow> Step" where
  "delete_token_step msg =
     authToken_step (new_request msg)
       (\<lambda>req. if \<not> truthy_str (zncAuthPolicyToken req) then respond no_policy
              else
                (let token = the (zncAuthPolicyToken req);
                     key = concat_str (zncAuthPolicyUser req)
                 in await (doing (removeItem_ZncProxyAuthPolicy token))
                      (\<lambda>_. await (getItem (\<lambda>s. ZncProxyAuthPolicies s key))
                         (\<lambda>stored.
                            let tokens = new_Set (or_empty stored);
                                tokens' = Set_delete token tokens
                            in await (doing (setItem_ZncProxyAuthPolicies key tokens'))
                                 (\<lambda>_. respond \<lparr>statusCode = 204, body = Body_none\<rparr>)))))"

text \<open>
  \<^verbatim>\<open>app.get('/api/znc/tokens', nsoAuth, ...)\<close>, lines 192 to 207. The reads of the
  entries are started together by \<^verbatim>\<open>map\<close> and awaited by \<^verbatim>\<open>Promise.all\<close>, which
  keeps the order of the ids whatever the order the reads end in; they are taken
  here as ending in the order of the ids. An entry that is not there is filtered out.
\<close>

fun getItems_ZncProxyAuthPolicy ::
  "string list \<Rightarrow> (string \<times> AuthToken) list \<Rightarrow> ((string \<times> AuthToken) list \<Rightarrow> Step) \<Rightarrow> Step"
  where
  "getItems_ZncProxyAuthPolicy [] tokens next = next tokens"
| "getItems_ZncProxyAuthPolicy (t # token_ids) tokens next =
     await (getItem (\<lambda>s. ZncProxyAuthPolicy s t))
       (\<lambda>stored. case stored of
          None \<Rightarrow> getItems_ZncProxyAuthPolicy token_ids tokens next
        | Some auth \<Rightarrow> getItems_ZncProxyAuthPolicy token_ids (tokens @ [(t, auth)]) next)"

definition get_tokens_step :: "Env \<Rightarrow> IncomingMessage \<Rightarrow> Step" where
  "get_tokens_step env msg =
     nsoAuth_step env (new_request msg)
       (\<lambda>r. await (getItem (\<lambda>s. ZncProxyAuthPolicies s (na_id (user (data r)))))
          (\<lambda>token_ids. getItems_ZncProxyAuthPolicy (or_empty token_ids) []
             (\<lambda>tokens. respond (ok (Body_tokens tokens)))))"

text \<open>
  \<^verbatim>\<open>app.post('/api/znc/tokens', nsoAuth, bodyParser.json(), ...)\<close>, lines 208 to 227,
  for a body that parses, with its \<^verbatim>\<open>await\<close>s on lines 216, 218 and 220.
  \<^verbatim>\<open>Math.floor(Date.now() / 1000)\<close> is \<open>now div 1000\<close>.
\<close>

definition post_tokens_step :: "Env \<Rightarrow> IncomingMessage \<Rightarrow> Step" where
  "post_tokens_step env msg =
     (let req = new_request msg in
      nsoAuth_step env req
        (\<lambda>zncAuth. bodyParser_json_step
           (sync (new_uuid env)
              (\<lambda>token. sync (Date_now env)
                 (\<lambda>now.
                    let uid = na_id (user (data zncAuth));
                        auth = \<lparr>auth_user = uid, policy = body_policy req,
                                created_at = now div 1000\<rparr>
                    in await (doing (setItem_ZncProxyAuthPolicy token auth))
                         (\<lambda>_. await (getItem (\<lambda>s. ZncProxyAuthPolicies s uid))
                            (\<lambda>stored.
                               let tokens = new_Set (or_empty stored);
                                   tokens' = Set_add token tokens
                               in await (doing (setItem_ZncProxyAuthPolicies uid tokens'))
                                    (\<lambda>_. respond (ok (Body_token token auth))))))))))"

subsection \<open>Announcements\<close>

text \<open>The first handler of a route with a capability flag, as on lines 235 to 239.\<close>

definition gate_announcements :: "Request \<Rightarrow> Response option" where
  "gate_announcements req =
     (case zncAuthPolicy req of
        None \<Rightarrow> None
      | Some p \<Rightarrow> if \<not> truthy_flag (announcements p) then Some tokenUnauthorised else None)"

text \<open>
  The last handler, lines 239 to 264. An array is truthy even when empty, so
  \<^verbatim>\<open>if (cached_announcements)\<close> asks whether the variable is still \<^verbatim>\<open>null\<close>. The
  test of line 240 runs in the turn in which \<^verbatim>\<open>nsoAuth\<close> calls \<^verbatim>\<open>next()\<close>; the
  assignment of line 250 in the turn in which the call of line 249 has answered.
\<close>

definition announcements_handler_step :: "Env \<Rightarrow> Nso \<Rightarrow> Step" where
  "announcements_handler_step env znc =
     sync (reading cached_announcements)
       (\<lambda>cached_now. case cached_now of
          Some cached \<Rightarrow> respond (ok (Body_announcements cached))
        | None \<Rightarrow>
            await (fetch (Net_getAnnouncements znc) (\<lambda>n. getAnnouncements env n znc))
              (\<lambda>answer. case answer of
                 Inl msg \<Rightarrow> respond (caught (Thrown msg))
               | Inr result \<Rightarrow>
                   sync (doing (\<lambda>w. w\<lparr>cached_announcements := Some result\<rparr>))
                     (\<lambda>_. respond (ok (Body_announcements result)))))"

definition get_announcements_step :: "Env \<Rightarrow> IncomingMessage \<Rightarrow> Step" where
  "get_announcements_step env msg =
     authToken_step (new_request msg)
       (\<lambda>req1. case gate_announcements req1 of
          Some res \<Rightarrow> respond res
        | None \<Rightarrow>
            localAuth_step env req1
              (\<lambda>req2. nsoAuth_step env req2
                 (\<lambda>r. announcements_handler_step env (nso r))))"

subsection \<open>Friends, web services, the active event\<close>

text \<open>
  The handlers behind \<^verbatim>\<open>getAppData\<close> read the entry of the user in the turn in which
  \<^verbatim>\<open>getAppData\<close> calls \<^verbatim>\<open>next()\<close>: \<^verbatim>\<open>cached_appdata.get(req.zncAuth!.user.id)!\<close> is
  \<open>the\<close> of the entry, which \<^verbatim>\<open>getAppData\<close> has found or written.
\<close>

definition gate_list_friends :: "Request \<Rightarrow> Response option" where
  "gate_list_friends req =
     (case zncAuthPolicy req of
        None \<Rightarrow> None
      | Some p \<Rightarrow> if \<not> truthy_flag (list_friends p) then Some tokenUnauthorised else None)"

text \<open>
  \<^verbatim>\<open>app.get('/api/znc/friends', ...)\<close>, lines 301 to 314; an array is truthy, so
  \<^verbatim>\<open>req.zncAuthPolicy?.friends ? ... : friends\<close> asks whether the list is there.
\<close>

definition friends_handler :: "World \<Rightarrow> Request \<Rightarrow> TokenResult \<Rightarrow> Response" where
  "friends_handler w req r =
     (case the (cached_appdata w (na_id (user (data r)))) of
        (friend_list, webservice_list, active_event, updated) \<Rightarrow>
          ok (Body_friends
            (case zncAuthPolicy req of
               None \<Rightarrow> friend_list
             | Some p \<Rightarrow>
                 (case friends p of
                    None \<Rightarrow> friend_list
                  | Some allowed \<Rightarrow> filter (\<lambda>f. nsaId f \<in> set allowed) friend_list))
            updated))"

definition get_friends_step :: "Env \<Rightarrow> IncomingMessage \<Rightarrow> Step" where
  "get_friends_step env msg =
     authToken_step (new_request msg)
       (\<lambda>req1. case gate_list_friends req1 of
          Some res \<Rightarrow> respond res
        | None \<Rightarrow>
            localAuth_step env req1
              (\<lambda>req2. nsoAuth_step env req2
                 (\<lambda>r. getAppData_step env r
                    (sync (reading (\<lambda>w. friends_handler w req2 r)) respond))))"

text \<open>
  The two \<^verbatim>\<open>continue\<close> tests of the loop on lines 324 to 332: whether the friend is
  skipped.
\<close>

definition skipped :: "AuthPolicy option \<Rightarrow> Friend \<Rightarrow> bool" where
  "skipped pol f =
     (case pol of
        None \<Rightarrow> False
      | Some p \<Rightarrow>
          (friends_presence p \<noteq> None \<and> nsaId f \<notin> set (or_empty (friends_presence p))) \<or>
          (friends p \<noteq> None \<and> friends_presence p = None \<and>
             nsaId f \<notin> set (or_empty (friends p))))"

text \<open>The loop: \<^verbatim>\<open>presence[friend.nsaId] = friend.presence\<close> unless skipped.\<close>

fun presence_loop ::
  "AuthPolicy option \<Rightarrow> Friend list \<Rightarrow> (string \<rightharpoonup> json) \<Rightarrow> (string \<rightharpoonup> json)" where
  "presence_loop pol [] acc = acc"
| "presence_loop pol (f # fs) acc =
     (if skipped pol f then presence_loop pol fs acc
      else presence_loop pol fs (acc(nsaId f \<mapsto> presence f)))"

definition gate_list_friends_presence :: "Request \<Rightarrow> Response option" where
  "gate_list_friends_presence req =
     (case zncAuthPolicy req of
        None \<Rightarrow> None
      | Some p \<Rightarrow>
          if \<not> truthy_flag (list_friends_presence p) then Some tokenUnauthorised else None)"

text \<open>
  \<^verbatim>\<open>app.get('/api/znc/friends/presence', ...)\<close>, lines 316 to 336, as one function
  of the world and with the \<^verbatim>\<open>await\<close>s of its middleware.
\<close>

definition friends_presence_handler :: "World \<Rightarrow> Request \<Rightarrow> TokenResult \<Rightarrow> Response" where
  "friends_presence_handler w req r =
     (case the (cached_appdata w (na_id (user (data r)))) of
        (friend_list, webservice_list, active_event, updated) \<Rightarrow>
          ok (Body_presence (presence_loop (zncAuthPolicy req) friend_list Map.empty)))"

definition get_friends_presence :: "Env \<Rightarrow> World \<Rightarrow> IncomingMessage \<Rightarrow> Response \<times> World" where
  "get_friends_presence env w msg =
     (let req1 = authToken w (new_request msg) in
      case gate_list_friends_presence req1 of
        Some res \<Rightarrow> (res, w)
      | None \<Rightarrow>
          (let req2 = localAuth env w req1 in
           case nsoAuth env w req2 of
             (Inl res, w1) \<Rightarrow> (res, w1)
           | (Inr r, w1) \<Rightarrow>
               (case getAppData env w1 r of
                  (Some res, w2) \<Rightarrow> (res, w2)
                | (None, w2) \<Rightarrow> (friends_presence_handler w2 req2 r, w2))))"

definition get_friends_presence_step :: "Env \<Rightarrow> IncomingMessage \<Rightarrow> Step" where
  "get_friends_presence_step env msg =
     authToken_step (new_request msg)
       (\<lambda>req1. case gate_list_friends_presence req1 of
          Some res \<Rightarrow> respond res
        | None \<Rightarrow>
            localAuth_step env req1
              (\<lambda>req2. nsoAuth_step env req2
                 (\<lambda>r. getAppData_step env r
                    (sync (reading (\<lambda>w. friends_presence_handler w req2 r)) respond))))"

text \<open>\<^verbatim>\<open>app.get('/api/znc/friend/:nsaid', ...)\<close>, lines 338 to 359.\<close>

definition gate_friend :: "Request \<Rightarrow> Response option" where
  "gate_friend req =
     (case zncAuthPolicy req of
        None \<Rightarrow> None
      | Some p \<Rightarrow>
          if \<not> truthy_flag (friend p) then Some tokenUnauthorised
          else if (case friends p of
                     None \<Rightarrow> False
                   | Some allowed \<Rightarrow> params_nsaid req \<notin> set allowed)
          then Some tokenUnauthorised
          else None)"

definition friend_handler :: "World \<Rightarrow> Request \<Rightarrow> TokenResult \<Rightarrow> Response" where
  "friend_handler w req r =
     (case the (cached_appdata w (na_id (user (data r)))) of
        (friend_list, webservice_list, active_event, updated) \<Rightarrow>
          (case find (\<lambda>f. nsaId f = params_nsaid req) friend_list of
             None \<Rightarrow> not_found
           | Some f \<Rightarrow> ok (Body_friend f updated)))"

definition get_friend_step :: "Env \<Rightarrow> IncomingMessage \<Rightarrow> Step" where
  "get_friend_step env msg =
     authToken_step (new_request msg)
       (\<lambda>req1. case gate_friend req1 of
          Some res \<Rightarrow> respond res
        | None \<Rightarrow>
            localAuth_step env req1
              (\<lambda>req2. nsoAuth_step env req2
                 (\<lambda>r. getAppData_step env r
                    (sync (reading (\<lambda>w. friend_handler w req2 r)) respond))))"

text \<open>\<^verbatim>\<open>app.get('/api/znc/friend/:nsaid/presence', ...)\<close>, lines 361 to 383.\<close>

definition gate_friend_presence :: "Request \<Rightarrow> Response option" where
  "gate_friend_presence req =
     (case zncAuthPolicy req of
        None \<Rightarrow> None
      | Some p \<Rightarrow>
          if \<not> truthy_flag (friend_presence p) then Some tokenUnauthorised
          else if (case friends_presence p of
                     None \<Rightarrow> False
                   | Some allowed \<Rightarrow> params_nsaid req \<notin> set allowed)
          then Some tokenUnauthorised
          else if (case friends p of
                     None \<Rightarrow> False
                   | Some allowed \<Rightarrow>
                       friends_presence p = None \<and> params_nsaid req \<notin> set allowed)
          then Some tokenUnauthorised
          else None)"

definition friend_presence_handler :: "World \<Rightarrow> Request \<Rightarrow> TokenResult \<Rightarrow> Response" where
  "friend_presence_handler w req r =
     (case the (cached_appdata w (na_id (user (data r)))) of
        (friend_list, webservice_list, active_event, updated) \<Rightarrow>
          (case find (\<lambda>f. nsaId f = params_nsaid req) friend_list of
             None \<Rightarrow> not_found
           | Some f \<Rightarrow> ok (Body_friend_presence (presence f))))"

definition get_friend_presence_step :: "Env \<Rightarrow> IncomingMessage \<Rightarrow> Step" where
  "get_friend_presence_step env msg =
     authToken_step (new_request msg)
       (\<lambda>req1. case gate_friend_presence req1 of
          Some res \<Rightarrow> respond res
        | None \<Rightarrow>
            localAuth_step env req1
              (\<lambda>req2. nsoAuth_step env req2
                 (\<lambda>r. getAppData_step env r
                    (sync (reading (\<lambda>w. friend_presence_handler w req2 r)) respond))))"

text \<open>\<^verbatim>\<open>app.get('/api/znc/webservices', ...)\<close>, lines 385 to 394.\<close>

definition gate_webservices :: "Request \<Rightarrow> Response option" where
  "gate_webservices req =
     (case zncAuthPolicy req of
        None \<Rightarrow> None
      | Some p \<Rightarrow> if \<not> truthy_flag (webservices p) then Some tokenUnauthorised else None)"

definition webservices_handler :: "World \<Rightarrow> Request \<Rightarrow> TokenResult \<Rightarrow> Response" where
  "webservices_handler w req r =
     (case the (cached_appdata w (na_id (user (data r)))) of
        (friend_list, webservice_list, active_event, updated) \<Rightarrow>
          ok (Body_webservices webservice_list updated))"

definition get_webservices_step :: "Env \<Rightarrow> IncomingMessage \<Rightarrow> Step" where
  "get_webservices_step env msg =
     authToken_step (new_request msg)
       (\<lambda>req1. case gate_webservices req1 of
          Some res \<Rightarrow> respond res
        | None \<Rightarrow>
            localAuth_step env req1
              (\<lambda>req2. nsoAuth_step env req2
                 (\<lambda>r. getAppData_step env r
                    (sync (reading (\<lambda>w. webservices_handler w req2 r)) respond))))"

text \<open>\<^verbatim>\<open>app.get('/api/znc/webservice/:id/token', nsoAuth, ...)\<close>, lines 396 to 412.\<close>

definition get_webservice_token_step :: "Env \<Rightarrow> IncomingMessage \<Rightarrow> Step" where
  "get_webservice_token_step env msg =
     (let req = new_request msg in
      nsoAuth_step env req
        (\<lambda>r. await (fetch (Net_getWebServiceToken (nso r) (params_id req))
                      (\<lambda>n. getWebServiceToken env n (nso r) (params_id req)))
           (\<lambda>answer. case answer of
              Inl msg \<Rightarrow> respond (caught (Thrown msg))
            | Inr result \<Rightarrow> respond (ok (Body_webservice_token result)))))"

text \<open>\<^verbatim>\<open>app.get('/api/znc/activeevent', ...)\<close>, lines 414 to 423.\<close>

definition gate_activeevent :: "Request \<Rightarrow> Response option" where
  "gate_activeevent req =
     (case zncAuthPolicy req of
        None \<Rightarrow> None
      | Some p \<Rightarrow> if \<not> truthy_flag (activeevent p) then Some tokenUnauthorised else None)"

definition activeevent_handler :: "World \<Rightarrow> Request \<Rightarrow> TokenResult \<Rightarrow> Response" where
  "activeevent_handler w req r =
     (case the (cached_appdata w (na_id (user (data r)))) of
        (friend_list, webservice_list, active_event, updated) \<Rightarrow>
          ok (Body_activeevent active_event updated))"

definition get_activeevent_step :: "Env \<Rightarrow> IncomingMessage \<Rightarrow> Step" where
  "get_activeevent_step env msg =
     authToken_step (new_request msg)
       (\<lambda>req1. case gate_activeevent req1 of
          Some res \<Rightarrow> respond res
        | None \<Rightarrow>
            localAuth_step env req1
              (\<lambda>req2. nsoAuth_step env req2
                 (\<lambda>r. getAppData_step env r
                    (sync (reading (\<lambda>w. activeevent_handler w req2 r)) respond))))"

subsection \<open>The user\<close>

text \<open>\<^verbatim>\<open>app.get('/api/znc/user', ...)\<close>, lines 455 to 464.\<close>

definition gate_current_user :: "Request \<Rightarrow> Response option" where
  "gate_current_user req =
     (case zncAuthPolicy req of
        None \<Rightarrow> None
      | Some p \<Rightarrow> if \<not> truthy_flag (current_user p) then Some tokenUnauthorised else None)"

definition user_handler :: "World \<Rightarrow> Request \<Rightarrow> TokenResult \<Rightarrow> Response" where
  "user_handler w req r =
     (case the (cached_userdata w (na_id (user (data r)))) of
        (current, updated) \<Rightarrow> ok (Body_user current updated))"

definition get_user_step :: "Env \<Rightarrow> IncomingMessage \<Rightarrow> Step" where
  "get_user_step env msg =
     authToken_step (new_request msg)
       (\<lambda>req1. case gate_current_user req1 of
          Some res \<Rightarrow> respond res
        | None \<Rightarrow>
            localAuth_step env req1
              (\<lambda>req2. nsoAuth_step env req2
                 (\<lambda>r. getUserData_step env r
                    (sync (reading (\<lambda>w. user_handler w req2 r)) respond))))"

text \<open>
  \<^verbatim>\<open>app.get('/api/znc/user/presence', ...)\<close>, lines 466 to 476.
  \<^verbatim>\<open>'current_user_presence' in req.zncAuthPolicy\<close> is that the field is not \<open>None\<close>.
\<close>

definition gate_current_user_presence :: "Request \<Rightarrow> Response option" where
  "gate_current_user_presence req =
     (case zncAuthPolicy req of
        None \<Rightarrow> None
      | Some p \<Rightarrow>
          if \<not> truthy_flag (current_user_presence p) then Some tokenUnauthorised
          else if current_user_presence p = None \<and> \<not> truthy_flag (current_user p)
          then Some tokenUnauthorised
          else None)"

definition user_presence_handler :: "World \<Rightarrow> Request \<Rightarrow> TokenResult \<Rightarrow> Response" where
  "user_presence_handler w req r =
     (case the (cached_userdata w (na_id (user (data r)))) of
        (current, updated) \<Rightarrow> ok (Body_user_presence (user_presence current)))"

definition get_user_presence_step :: "Env \<Rightarrow> IncomingMessage \<Rightarrow> Step" where
  "get_user_presence_step env msg =
     authToken_step (new_request msg)
       (\<lambda>req1. case gate_current_user_presence req1 of
          Some res \<Rightarrow> respond res
        | None \<Rightarrow>
            localAuth_step env req1
              (\<lambda>req2. nsoAuth_step env req2
                 (\<lambda>r. getUserData_step env r
                    (sync (reading (\<lambda>w. user_presence_handler w req2 r)) respond))))"

subsection \<open>The presence event stream\<close>

text \<open>\<^verbatim>\<open>enum ZncPresenceEventStreamEvent\<close> and the string each member is.\<close>

datatype ZncPresenceEventStreamEvent =
    FRIEND_ONLINE
  | FRIEND_OFFLINE
  | FRIEND_TITLE_CHANGE
  | FRIEND_TITLE_STATECHANGE

fun event_value :: "ZncPresenceEventStreamEvent \<Rightarrow> string" where
  "event_value FRIEND_ONLINE = ''0''"
| "event_value FRIEND_OFFLINE = ''1''"
| "event_value FRIEND_TITLE_CHANGE = ''2''"
| "event_value FRIEND_TITLE_STATECHANGE = ''3''"

text \<open>
  The object \<^verbatim>\<open>{id: friend.nsaId, presence: friend.presence, prev: prev?.presence}\<close>
  the four handlers send; \<open>None\<close> is \<^verbatim>\<open>undefined\<close>.
\<close>

record EventData =
  data_id :: string
  data_presence :: json
  data_prev :: "json option"

text \<open>
  \<^verbatim>\<open>sendEvent(event, ...data)\<close>: the response stream is the list of chunks written
  so far, \<^verbatim>\<open>res.write\<close> adds one. \<^verbatim>\<open>JSON.stringify\<close> is a parameter.
\<close>

definition sendEvent ::
  "(EventData \<Rightarrow> string) \<Rightarrow> string option \<Rightarrow> EventData list \<Rightarrow> string list \<Rightarrow> string list" where
  "sendEvent stringify event ds res =
     (let res1 = (if truthy_str event then res @ [''event: '' @ the event @ [CHR 0x0A]]
                  else res);
          res2 = fold (\<lambda>d out. out @ [''data: '' @ stringify d @ [CHR 0x0A]]) ds res1
      in res2 @ [[CHR 0x0A]])"

definition event_data :: "Friend \<Rightarrow> Friend option \<Rightarrow> EventData" where
  "event_data f prev =
     \<lparr>data_id = nsaId f, data_presence = presence f, data_prev = map_option presence prev\<rparr>"

definition onFriendOnline ::
  "(EventData \<Rightarrow> string) \<Rightarrow> Friend \<Rightarrow> Friend option \<Rightarrow> string list \<Rightarrow> string list" where
  "onFriendOnline stringify f prev res =
     sendEvent stringify (Some (event_value FRIEND_ONLINE)) [event_data f prev] res"

definition onFriendOffline ::
  "(EventData \<Rightarrow> string) \<Rightarrow> Friend \<Rightarrow> Friend option \<Rightarrow> string list \<Rightarrow> string list" where
  "onFriendOffline stringify f prev res =
     sendEvent stringify (Some (event_value FRIEND_OFFLINE)) [event_data f prev] res"

definition onFriendPlayingChangeTitle ::
  "(EventData \<Rightarrow> string) \<Rightarrow> Friend \<Rightarrow> Friend option \<Rightarrow> string list \<Rightarrow> string list" where
  "onFriendPlayingChangeTitle stringify f prev res =
     sendEvent stringify (Some (event_value FRIEND_TITLE_CHANGE)) [event_data f prev] res"

definition onFriendTitleStateChange ::
  "(EventData \<Rightarrow> string) \<Rightarrow> Friend \<Rightarrow> Friend option \<Rightarrow> string list \<Rightarrow> string list" where
  "onFriendTitleStateChange stringify f prev res =
     sendEvent stringify (Some (event_value FRIEND_TITLE_STATECHANGE)) [event_data f prev] res"

subsection \<open>The application\<close>

text \<open>
  The routes that answer with JSON, as \<^verbatim>\<open>app.get\<close>, \<^verbatim>\<open>app.post\<close> and \<^verbatim>\<open>app.delete\<close>
  register them: the chain of handlers a message to the route runs through.
  (The route \<^verbatim>\<open>/api/znc/presence/events\<close>, which answers with the event stream, starts
  the notification loop of \<^verbatim>\<open>notify.ts\<close>.)
\<close>

datatype Route =
    GET_auth
  | GET_token
  | DELETE_token
  | GET_tokens
  | POST_tokens
  | GET_announcements
  | GET_friends
  | GET_friends_presence
  | GET_friend
  | GET_friend_presence
  | GET_webservices
  | GET_webservice_token
  | GET_activeevent
  | GET_user
  | GET_user_presence

fun app :: "Env \<Rightarrow> Route \<times> IncomingMessage \<Rightarrow> Step" where
  "app env (GET_auth, msg) = get_auth_step env msg"
| "app env (GET_token, msg) = get_token_step msg"
| "app env (DELETE_token, msg) = delete_token_step msg"
| "app env (GET_tokens, msg) = get_tokens_step env msg"
| "app env (POST_tokens, msg) = post_tokens_step env msg"
| "app env (GET_announcements, msg) = get_announcements_step env msg"
| "app env (GET_friends, msg) = get_friends_step env msg"
| "app env (GET_friends_presence, msg) = get_friends_presence_step env msg"
| "app env (GET_friend, msg) = get_friend_step env msg"
| "app env (GET_friend_presence, msg) = get_friend_presence_step env msg"
| "app env (GET_webservices, msg) = get_webservices_step env msg"
| "app env (GET_webservice_token, msg) = get_webservice_token_step env msg"
| "app env (GET_activeevent, msg) = get_activeevent_step env msg"
| "app env (GET_user, msg) = get_user_step env msg"
| "app env (GET_user_presence, msg) = get_user_presence_step env msg"

text \<open>
  A request that has arrived and not yet run; a request served with no other
  request's step between its own; and a list of requests served so, one after the
  other.
\<close>

definition request :: "Env \<Rightarrow> Route \<times> IncomingMessage \<Rightarrow> Task" where
  "request env rq = Await (app env rq)"

definition serve :: "Env \<Rightarrow> World \<Rightarrow> Route \<times> IncomingMessage \<Rightarrow> Response \<times> World" where
  "serve env w rq = run (request env rq) w"

fun serve_all ::
  "Env \<Rightarrow> World \<Rightarrow> (Route \<times> IncomingMessage) list \<Rightarrow> Response list \<times> World" where
  "serve_all env w [] = ([], w)"
| "serve_all env w (rq # rqs) =
     (case serve env w rq of
        (res, w1) \<Rightarrow> (case serve_all env w1 rqs of (ress, w2) \<Rightarrow> (res # ress, w2)))"

section \<open>Predicates of the statements\<close>

text \<open>
  A token that \<^verbatim>\<open>getToken\<close> lets through to the cache lookup: it is not empty, it
  decodes, its issuer, type and audience are the expected strings, and its \<^verbatim>\<open>exp\<close>,
  if it is a number, is strictly after the clock reading of the check.
\<close>

definition accepted :: "Env \<Rightarrow> World \<Rightarrow> string \<Rightarrow> bool" where
  "accepted env w token =
     (token \<noteq> [] \<and>
      (case Jwt_decode env token of
         None \<Rightarrow> False
       | Some jwt \<Rightarrow>
           iss jwt = Some ''https://accounts.nintendo.com'' \<and>
           jwt_typ jwt = Some ''session_token'' \<and>
           aud jwt = Some (ZNCA_CLIENT_ID env) \<and>
           (case exp jwt of None \<Rightarrow> True | Some e \<Rightarrow> clock env (ticks w) < e * 1000)))"

text \<open>The errors \<^verbatim>\<open>getToken\<close> throws for a token it does not accept.\<close>

fun InvalidToken :: "Error \<Rightarrow> bool" where
  "InvalidToken Invalid_token = True"
| "InvalidToken Jwt_decode_failed = True"
| "InvalidToken Invalid_issuer = True"
| "InvalidToken Invalid_type = True"
| "InvalidToken Invalid_audience = True"
| "InvalidToken Token_expired = True"
| "InvalidToken _ = False"

text \<open>
  The friend-id allowlist of a policy for presence: \<^verbatim>\<open>friends_presence\<close> when present,
  otherwise \<^verbatim>\<open>friends\<close>.
\<close>

definition presence_allowlist :: "AuthPolicy \<Rightarrow> string list option" where
  "presence_allowlist p =
     (case friends_presence p of Some allowed \<Rightarrow> Some allowed | None \<Rightarrow> friends p)"

text \<open>
  The two structures of the proxy tokens agree: a token is in the set stored for a
  user exactly when its own entry exists and names that user.
\<close>

definition tokens_consistent :: "Storage \<Rightarrow> bool" where
  "tokens_consistent s =
     (\<forall>token uid. token \<in> set (or_empty (ZncProxyAuthPolicies s uid)) \<longleftrightarrow>
        (\<exists>auth. ZncProxyAuthPolicy s token = Some auth \<and> auth_user auth = uid))"

text \<open>
  What a request may do to the announcements cache holding \<open>cached\<close>: keep it, and make
  no \<^verbatim>\<open>getAnnouncements\<close> call.
\<close>

definition keeps_announcements :: "json list \<Rightarrow> World \<Rightarrow> World \<Rightarrow> bool" where
  "keeps_announcements cached w w' =
     (cached_announcements w' = Some cached \<and>
      (\<exists>calls. net w' = net w @ calls \<and> (\<forall>api. Net_getAnnouncements api \<notin> set calls)))"

text \<open>
  The answers an announcements request can get while the cache holds \<open>cached\<close>: the
  list, the refusal of the policy test, or the error \<^verbatim>\<open>nsoAuth\<close> caught.
\<close>

definition announced :: "json list \<Rightarrow> Response \<Rightarrow> bool" where
  "announced cached res =
     (res = ok (Body_announcements cached) \<or> res = tokenUnauthorised \<or>
      (\<exists>err. res = caught err))"

text \<open>
  What the first handler of each route that has a policy test tests of the policy: the
  capability flag of the route is not truthy, or, on the routes of one friend, the
  allowlist is there and does not include the requested id (\<^verbatim>\<open>friends\<close> for the
  friend, \<^verbatim>\<open>friends_presence\<close> or else \<^verbatim>\<open>friends\<close> for the presence). And that the
  policy resolved for a message to the route is denied so.
\<close>

fun policy_denies :: "Route \<Rightarrow> AuthPolicy \<Rightarrow> IncomingMessage \<Rightarrow> bool" where
  "policy_denies GET_announcements p msg = (\<not> truthy_flag (announcements p))"
| "policy_denies GET_friends p msg = (\<not> truthy_flag (list_friends p))"
| "policy_denies GET_friends_presence p msg = (\<not> truthy_flag (list_friends_presence p))"
| "policy_denies GET_friend p msg =
     (\<not> truthy_flag (friend p) \<or>
      (case friends p of None \<Rightarrow> False | Some allowed \<Rightarrow> params_nsaid msg \<notin> set allowed))"
| "policy_denies GET_friend_presence p msg =
     (\<not> truthy_flag (friend_presence p) \<or>
      (case presence_allowlist p of
         None \<Rightarrow> False
       | Some allowed \<Rightarrow> params_nsaid msg \<notin> set allowed))"
| "policy_denies GET_webservices p msg = (\<not> truthy_flag (webservices p))"
| "policy_denies GET_activeevent p msg = (\<not> truthy_flag (activeevent p))"
| "policy_denies GET_user p msg = (\<not> truthy_flag (current_user p))"
| "policy_denies GET_user_presence p msg = (\<not> truthy_flag (current_user_presence p))"
| "policy_denies GET_auth p msg = False"
| "policy_denies GET_token p msg = False"
| "policy_denies DELETE_token p msg = False"
| "policy_denies GET_tokens p msg = False"
| "policy_denies POST_tokens p msg = False"
| "policy_denies GET_webservice_token p msg = False"

definition denied :: "World \<Rightarrow> Route \<Rightarrow> IncomingMessage \<Rightarrow> bool" where
  "denied w rt msg =
     (case zncAuthPolicy (authToken w (new_request msg)) of
        None \<Rightarrow> False
      | Some p \<Rightarrow> policy_denies rt p msg)"

text \<open>
  That a message to one of the two routes of a proxy token itself presents no proxy
  token, or none that resolves.
\<close>

definition no_proxy_token :: "World \<Rightarrow> Route \<Rightarrow> IncomingMessage \<Rightarrow> bool" where
  "no_proxy_token w rt msg =
     ((rt = GET_token \<or> rt = DELETE_token) \<and>
      \<not> truthy_str (zncAuthPolicyToken (authToken w (new_request msg))))"

text \<open>
  The request as \<^verbatim>\<open>nsoAuth\<close> receives it on a route, when nothing has changed the
  world since the message arrived: \<open>None\<close> on the two routes that do not have it.
\<close>

fun session_request :: "Env \<Rightarrow> World \<Rightarrow> Route \<Rightarrow> IncomingMessage \<Rightarrow> Request option" where
  "session_request env w GET_token msg = None"
| "session_request env w DELETE_token msg = None"
| "session_request env w GET_auth msg = Some (new_request msg)"
| "session_request env w GET_tokens msg = Some (new_request msg)"
| "session_request env w POST_tokens msg = Some (new_request msg)"
| "session_request env w GET_webservice_token msg = Some (new_request msg)"
| "session_request env w GET_announcements msg =
     Some (localAuth env w (authToken w (new_request msg)))"
| "session_request env w GET_friends msg =
     Some (localAuth env w (authToken w (new_request msg)))"
| "session_request env w GET_friends_presence msg =
     Some (localAuth env w (authToken w (new_request msg)))"
| "session_request env w GET_friend msg =
     Some (localAuth env w (authToken w (new_request msg)))"
| "session_request env w GET_friend_presence msg =
     Some (localAuth env w (authToken w (new_request msg)))"
| "session_request env w GET_webservices msg =
     Some (localAuth env w (authToken w (new_request msg)))"
| "session_request env w GET_activeevent msg =
     Some (localAuth env w (authToken w (new_request msg)))"
| "session_request env w GET_user msg =
     Some (localAuth env w (authToken w (new_request msg)))"
| "session_request env w GET_user_presence msg =
     Some (localAuth env w (authToken w (new_request msg)))"

text \<open>
  The error, if any, that the call number \<open>n\<close> of the process throws when it is the
  call \<open>c\<close>; the errors thrown by the calls \<open>cs\<close> made from call number \<open>n\<close> on; and
  the errors thrown by the calls made between two worlds.
\<close>

definition thrown :: "string + 'a \<Rightarrow> string option" where
  "thrown answer = (case answer of Inl msg \<Rightarrow> Some msg | Inr result \<Rightarrow> None)"

fun answer_error :: "Env \<Rightarrow> nat \<Rightarrow> net_call \<Rightarrow> string option" where
  "answer_error env n (Net_ZncApi_createWithSessionToken token) =
     thrown (ZncApi_createWithSessionToken env n token)"
| "answer_error env n (Net_ZncProxyApi_createWithSessionToken url token) =
     thrown (ZncProxyApi_createWithSessionToken env n url token)"
| "answer_error env n (Net_getAnnouncements api) = thrown (getAnnouncements env n api)"
| "answer_error env n (Net_getFriendList api) = thrown (getFriendList env n api)"
| "answer_error env n (Net_getWebServices api) = thrown (getWebServices env n api)"
| "answer_error env n (Net_getActiveEvent api) = thrown (getActiveEvent env n api)"
| "answer_error env n (Net_getWebServiceToken api i) = thrown (getWebServiceToken env n api i)"
| "answer_error env n (Net_getCurrentUser api) = thrown (getCurrentUser env n api)"

fun failures :: "Env \<Rightarrow> nat \<Rightarrow> net_call list \<Rightarrow> string list" where
  "failures env n [] = []"
| "failures env n (c # cs) =
     (case answer_error env n c of
        None \<Rightarrow> failures env (Suc n) cs
      | Some msg \<Rightarrow> msg # failures env (Suc n) cs)"

definition calls_since :: "World \<Rightarrow> World \<Rightarrow> net_call list" where
  "calls_since w w' = drop (length (net w)) (net w')"

definition upstream_failures :: "Env \<Rightarrow> World \<Rightarrow> World \<Rightarrow> string list" where
  "upstream_failures env w w' = failures env (length (net w)) (calls_since w w')"

text \<open>
  That what other requests do never writes an entry of a proxy token or a set of
  proxy tokens.
\<close>

definition leave_proxy_tokens :: "(nat \<Rightarrow> World \<Rightarrow> World) \<Rightarrow> bool" where
  "leave_proxy_tokens others =
     (\<forall>n w. ZncProxyAuthPolicy (storage (others n w)) = ZncProxyAuthPolicy (storage w) \<and>
            ZncProxyAuthPolicies (storage (others n w)) = ZncProxyAuthPolicies (storage w))"

subsection \<open>In the proofs\<close>

text \<open>
  The chains of handlers of the routes, run with nothing between their steps: behind
  \<^verbatim>\<open>nsoAuth\<close> alone; behind \<^verbatim>\<open>authToken\<close>, a policy test, \<^verbatim>\<open>localAuth\<close> and
  \<^verbatim>\<open>nsoAuth\<close>; and a last handler behind \<^verbatim>\<open>getAppData\<close> or \<^verbatim>\<open>getUserData\<close>.
\<close>

definition authenticated ::
  "Env \<Rightarrow> (Request \<Rightarrow> TokenResult \<Rightarrow> World \<Rightarrow> Response \<times> World) \<Rightarrow> World \<Rightarrow>
   IncomingMessage \<Rightarrow> Response \<times> World" where
  "authenticated env h w msg =
     (case nsoAuth env w (new_request msg) of
        (Inl res, w1) \<Rightarrow> (res, w1)
      | (Inr r, w1) \<Rightarrow> h (new_request msg) r w1)"

definition guarded ::
  "Env \<Rightarrow> (Request \<Rightarrow> Response option) \<Rightarrow>
   (Request \<Rightarrow> TokenResult \<Rightarrow> World \<Rightarrow> Response \<times> World) \<Rightarrow> World \<Rightarrow>
   IncomingMessage \<Rightarrow> Response \<times> World" where
  "guarded env gate h w msg =
     (let req1 = authToken w (new_request msg) in
      case gate req1 of
        Some res \<Rightarrow> (res, w)
      | None \<Rightarrow>
          (let req2 = localAuth env w req1 in
           case nsoAuth env w req2 of
             (Inl res, w1) \<Rightarrow> (res, w1)
           | (Inr r, w1) \<Rightarrow> h req2 r w1))"

definition with_appdata ::
  "Env \<Rightarrow> (World \<Rightarrow> Request \<Rightarrow> TokenResult \<Rightarrow> Response) \<Rightarrow> Request \<Rightarrow> TokenResult \<Rightarrow>
   World \<Rightarrow> Response \<times> World" where
  "with_appdata env handler req r w =
     (case getAppData env w r of
        (Some res, w1) \<Rightarrow> (res, w1)
      | (None, w1) \<Rightarrow> (handler w1 req r, w1))"

definition with_userdata ::
  "Env \<Rightarrow> (World \<Rightarrow> Request \<Rightarrow> TokenResult \<Rightarrow> Response) \<Rightarrow> Request \<Rightarrow> TokenResult \<Rightarrow>
   World \<Rightarrow> Response \<times> World" where
  "with_userdata env handler req r w =
     (case getUserData env w r of
        (Some res, w1) \<Rightarrow> (res, w1)
      | (None, w1) \<Rightarrow> (handler w1 req r, w1))"

text \<open>
  The policy test of a route that has one, and what runs behind \<^verbatim>\<open>nsoAuth\<close> on a
  route that has it, as one function of the world.
\<close>

fun policy_test :: "Route \<Rightarrow> (Request \<Rightarrow> Response option) option" where
  "policy_test GET_announcements = Some gate_announcements"
| "policy_test GET_friends = Some gate_list_friends"
| "policy_test GET_friends_presence = Some gate_list_friends_presence"
| "policy_test GET_friend = Some gate_friend"
| "policy_test GET_friend_presence = Some gate_friend_presence"
| "policy_test GET_webservices = Some gate_webservices"
| "policy_test GET_activeevent = Some gate_activeevent"
| "policy_test GET_user = Some gate_current_user"
| "policy_test GET_user_presence = Some gate_current_user_presence"
| "policy_test GET_auth = None"
| "policy_test GET_token = None"
| "policy_test DELETE_token = None"
| "policy_test GET_tokens = None"
| "policy_test POST_tokens = None"
| "policy_test GET_webservice_token = None"

fun after_nsoAuth ::
  "Env \<Rightarrow> Route \<Rightarrow> Request \<Rightarrow> TokenResult \<Rightarrow> World \<Rightarrow> Response \<times> World" where
  "after_nsoAuth env GET_auth req r w = (ok (Body_auth (data r)), w)"
| "after_nsoAuth env GET_tokens req r w =
     (ok (Body_tokens
        (List.map_filter (\<lambda>t. map_option (Pair t) (ZncProxyAuthPolicy (storage w) t))
           (or_empty (ZncProxyAuthPolicies (storage w) (na_id (user (data r))))))), w)"
| "after_nsoAuth env POST_tokens req r w =
     (let token = uuidgen env (uuids w);
          w1 = w\<lparr>uuids := Suc (uuids w)\<rparr>;
          (now, w2) = Date_now env w1;
          uid = na_id (user (data r));
          auth = \<lparr>auth_user = uid, policy = body_policy req, created_at = now div 1000\<rparr>;
          w3 = setItem_ZncProxyAuthPolicy token auth w2;
          tokens = new_Set (or_empty (ZncProxyAuthPolicies (storage w3) uid));
          tokens' = Set_add token tokens;
          w4 = setItem_ZncProxyAuthPolicies uid tokens' w3
      in (ok (Body_token token auth), w4))"
| "after_nsoAuth env GET_webservice_token req r w =
     (let w1 = call (Net_getWebServiceToken (nso r) (params_id req)) w in
      case getWebServiceToken env (length (net w)) (nso r) (params_id req) of
        Inl msg \<Rightarrow> (caught (Thrown msg), w1)
      | Inr result \<Rightarrow> (ok (Body_webservice_token result), w1))"
| "after_nsoAuth env GET_announcements req r w =
     (case cached_announcements w of
        Some cached \<Rightarrow> (ok (Body_announcements cached), w)
      | None \<Rightarrow>
          (let w1 = call (Net_getAnnouncements (nso r)) w in
           case getAnnouncements env (length (net w)) (nso r) of
             Inl msg \<Rightarrow> (caught (Thrown msg), w1)
           | Inr result \<Rightarrow>
               (ok (Body_announcements result), w1\<lparr>cached_announcements := Some result\<rparr>)))"
| "after_nsoAuth env GET_friends req r w = with_appdata env friends_handler req r w"
| "after_nsoAuth env GET_friends_presence req r w =
     with_appdata env friends_presence_handler req r w"
| "after_nsoAuth env GET_friend req r w = with_appdata env friend_handler req r w"
| "after_nsoAuth env GET_friend_presence req r w =
     with_appdata env friend_presence_handler req r w"
| "after_nsoAuth env GET_webservices req r w = with_appdata env webservices_handler req r w"
| "after_nsoAuth env GET_activeevent req r w = with_appdata env activeevent_handler req r w"
| "after_nsoAuth env GET_user req r w = with_userdata env user_handler req r w"
| "after_nsoAuth env GET_user_presence req r w =
     with_userdata env user_presence_handler req r w"

text \<open>
  That no call made between two worlds has thrown; and that every call made from a
  world to an answer that has thrown is what the answer carries, with status 500.
\<close>

definition clean :: "Env \<Rightarrow> World \<Rightarrow> World \<Rightarrow> bool" where
  "clean env w w' =
     (\<exists>calls. net w' = net w @ calls \<and> failures env (length (net w)) calls = [])"

definition sound :: "Env \<Rightarrow> World \<Rightarrow> Response \<times> World \<Rightarrow> bool" where
  "sound env w S =
     (\<exists>calls. net (snd S) = net w @ calls \<and>
        (\<forall>msg\<in>set (failures env (length (net w)) calls). fst S = caught (Thrown msg)))"

text \<open>
  The entries and the sets of the proxy tokens in a world; a step run among other
  requests; and that a step, run from any world with the given entries and sets among
  other requests that leave them, ends in an answer and a world that satisfy \<open>Q\<close>.
\<close>

definition tokens_of ::
  "World \<Rightarrow> (string \<rightharpoonup> AuthToken) \<times> (string \<rightharpoonup> string list)" where
  "tokens_of w = (ZncProxyAuthPolicy (storage w), ZncProxyAuthPolicies (storage w))"

definition run_among_step ::
  "Step \<Rightarrow> (nat \<Rightarrow> World \<Rightarrow> World) \<Rightarrow> World \<Rightarrow> Response \<times> World" where
  "run_among_step s others w = (case s w of (t, w1) \<Rightarrow> run_among t others w1)"

definition steady ::
  "(string \<rightharpoonup> AuthToken) \<times> (string \<rightharpoonup> string list) \<Rightarrow>
   (Response \<times> World \<Rightarrow> bool) \<Rightarrow> Step \<Rightarrow> bool" where
  "steady M Q s =
     (\<forall>others w. leave_proxy_tokens others \<and> tokens_of w = M \<longrightarrow>
        Q (run_among_step s others w))"

text \<open>
  A task all of whose steps, taken from a world whose announcements cache holds
  \<open>cached\<close>, keep the cache and make no \<^verbatim>\<open>getAnnouncements\<close> call, and whose answer
  satisfies \<open>P\<close>.
\<close>

inductive safe :: "json list \<Rightarrow> (Response \<Rightarrow> bool) \<Rightarrow> Task \<Rightarrow> bool"
  for cached :: "json list" and P :: "Response \<Rightarrow> bool" where
  safe_Done: "P res \<Longrightarrow> safe cached P (Done res)"
| safe_Await:
    "(\<And>w. cached_announcements w = Some cached \<Longrightarrow>
        keeps_announcements cached w (snd (k w)) \<and> safe cached P (fst (k w))) \<Longrightarrow>
     safe cached P (Await k)"

definition safe_step :: "json list \<Rightarrow> (Response \<Rightarrow> bool) \<Rightarrow> Step \<Rightarrow> bool" where
  "safe_step cached P s =
     (\<forall>w. cached_announcements w = Some cached \<longrightarrow>
        keeps_announcements cached w (snd (s w)) \<and> safe cached P (fst (s w)))"

text \<open>What is asked of the answer of a request while the cache holds \<open>cached\<close>.\<close>

definition route_answer :: "json list \<Rightarrow> Route \<times> IncomingMessage \<Rightarrow> Response \<Rightarrow> bool" where
  "route_answer cached rq res = (fst rq = GET_announcements \<longrightarrow> announced cached res)"

section \<open>Example values\<close>

definition demo_jwt :: JwtPayload where
  "demo_jwt = \<lparr>iss = Some ''https://accounts.nintendo.com'',
     jwt_typ = Some ''session_token'', aud = Some ''71b963c1b7b6d119'',
     exp = Some 2000000\<rparr>"

definition demo_data :: SavedToken where
  "demo_data = \<lparr>uuid = ''uuid-1'', timestamp = ''1000000'',
     nintendoAccountToken = JSON ''{}'', user = \<lparr>na_id = ''user1''\<rparr>, flapg = JSON ''{}'',
     nsoAccount = JSON ''{}'', credential = \<lparr>accessToken = ''access'', expiresIn = 3600\<rparr>,
     expires_at = 0, proxy_url = None\<rparr>"

definition demo_friends :: "Friend list" where
  "demo_friends = [\<lparr>nsaId = ''aaaa'', presence = JSON ''online''\<rparr>,
                   \<lparr>nsaId = ''bbbb'', presence = JSON ''offline''\<rparr>]"

text \<open>
  A clock at 1000000000 ms that advances 1 ms per reading; the token \<open>session\<close> decodes to
  a payload that passes, \<open>other\<close> to one for another client; the direct exchange answers
  with \<open>demo_data\<close>.
\<close>

definition demo_env :: Env where
  "demo_env = \<lparr>
     argv = \<lparr>requireToken = True, zncProxyUrl = None, updateInterval = 30\<rparr>,
     ZNCA_CLIENT_ID = ''71b963c1b7b6d119'',
     Jwt_decode = (\<lambda>t. if t = ''session'' then Some demo_jwt
                        else if t = ''other''
                        then Some (demo_jwt\<lparr>aud := Some ''5c38e31cd085304b''\<rparr>)
                        else None),
     clock = (\<lambda>n. 1000000000 + int n),
     uuidgen = (\<lambda>n. replicate (Suc n) CHR ''u''),
     ZncApi_createWithSessionToken = (\<lambda>n t. Inr (ZncApi ''access'', demo_data)),
     ZncProxyApi_createWithSessionToken = (\<lambda>n url t. Inl ''proxy unreachable''),
     getAnnouncements = (\<lambda>n api. Inr [JSON (replicate (Suc n) CHR ''a'')]),
     getFriendList = (\<lambda>n api. Inr demo_friends),
     getWebServices = (\<lambda>n api. Inr []),
     getActiveEvent = (\<lambda>n api. Inr (JSON ''{}'')),
     getWebServiceToken = (\<lambda>n api i. Inr (JSON ''{}'')),
     getCurrentUser =
       (\<lambda>n api. Inr \<lparr>user_nsaId = ''0123'', user_presence = JSON ''online''\<rparr>)\<rparr>"

definition demo_storage :: Storage where
  "demo_storage = \<lparr>NsoToken = Map.empty, NintendoAccountToken = Map.empty,
     NintendoAccountIds = None, ZncProxyAuthPolicy = Map.empty,
     ZncProxyAuthPolicies = Map.empty\<rparr>"

definition demo_world :: World where
  "demo_world = \<lparr>storage = demo_storage, cached_announcements = None,
     cached_appdata = Map.empty, cached_userdata = Map.empty, net = [], ticks = 0,
     uuids = 0\<rparr>"

text \<open>
  An older credential of the same user, and the empty world with it stored for
  \<open>session\<close>, to expire at the given time.
\<close>

definition demo_old :: SavedToken where
  "demo_old = demo_data\<lparr>uuid := ''uuid-0'', timestamp := ''900000'',
     credential := \<lparr>accessToken = ''previous'', expiresIn = 7200\<rparr>\<rparr>"

definition demo_cached :: "int \<Rightarrow> World" where
  "demo_cached t = setItem_NsoToken ''session'' (demo_old\<lparr>expires_at := t\<rparr>) demo_world"

text \<open>
  A request with nothing set, one that presents the session token \<open>session\<close>, one
  that presents a proxy token the server never issued, and one that presents the
  session token of another client.
\<close>

definition demo_req :: IncomingMessage where
  "demo_req = \<lparr>authorization = None, query_user = None, query_token = None,
     params_nsaid = ''aaaa'', params_id = ''4953919198265344'', body_policy = None\<rparr>"

definition demo_req_na :: IncomingMessage where
  "demo_req_na = demo_req\<lparr>authorization := Some ''na session''\<rparr>"

definition demo_req_unknown :: IncomingMessage where
  "demo_req_unknown = demo_req\<lparr>authorization := Some ''Bearer 0000''\<rparr>"

definition demo_req_other :: IncomingMessage where
  "demo_req_other = demo_req\<lparr>authorization := Some ''na other''\<rparr>"

text \<open>A policy that allows the presence of the friend \<open>bbbb\<close> only.\<close>

definition demo_policy :: AuthPolicy where
  "demo_policy = \<lparr>announcements = None, list_friends = None,
     list_friends_presence = Some True, friend = Some True, friend_presence = None,
     webservices = None, activeevent = None, current_user = None,
     current_user_presence = None, friends = Some [''aaaa'', ''bbbb''],
     friends_presence = Some [''bbbb'']\<rparr>"

text \<open>
  A world where \<open>user1\<close> last used the token \<open>session\<close> and holds the proxy token
  \<open>tok\<close> with \<open>demo_policy\<close>; a message that presents \<open>tok\<close>, the same asking for
  a friend outside the policy's list, a message that posts a policy, and an
  environment whose friend list call fails.
\<close>

definition demo_proxy_world :: World where
  "demo_proxy_world = demo_world\<lparr>storage := demo_storage\<lparr>
     NintendoAccountToken := [''user1'' \<mapsto> ''session''],
     ZncProxyAuthPolicy := [''tok'' \<mapsto>
       \<lparr>auth_user = ''user1'', policy = Some demo_policy, created_at = 999000\<rparr>],
     ZncProxyAuthPolicies := [''user1'' \<mapsto> [''tok'']]\<rparr>\<rparr>"

definition demo_req_bearer :: IncomingMessage where
  "demo_req_bearer = demo_req\<lparr>authorization := Some ''Bearer tok''\<rparr>"

definition demo_req_denied :: IncomingMessage where
  "demo_req_denied = demo_req_bearer\<lparr>params_nsaid := ''cccc''\<rparr>"

definition demo_req_absent :: IncomingMessage where
  "demo_req_absent = demo_req_na\<lparr>params_nsaid := ''cccc''\<rparr>"

definition demo_req_post :: IncomingMessage where
  "demo_req_post = demo_req_na\<lparr>body_policy := Some demo_policy\<rparr>"

text \<open>
  The empty world once an announcements list has been cached, and three requests in a
  row.
\<close>

definition demo_announced :: World where
  "demo_announced = demo_world\<lparr>cached_announcements := Some [JSON ''cached'']\<rparr>"

definition demo_run :: "(Route \<times> IncomingMessage) list" where
  "demo_run = [(GET_announcements, demo_req_na), (GET_friend, demo_req_na),
               (GET_announcements, demo_req_unknown)]"

text \<open>
  Three requests for the announcements by the same user, and an order in which the
  first two overlap: the first runs until it awaits the announcements, then the second
  does, then each is resumed with its answer, and then the third is served.
\<close>

definition demo_overlap :: "(Route \<times> IncomingMessage) list" where
  "demo_overlap = [(GET_announcements, demo_req_na), (GET_announcements, demo_req_na),
                   (GET_announcements, demo_req_na)]"

definition demo_overlap_order :: "nat list" where
  "demo_overlap_order =
     [0, 0, 0, 0, 0, 0, 0, 1, 1, 1, 1, 1, 0, 1, 2, 2, 2, 2, 2]"

text \<open>An order in which three requests take turns until each has been answered.\<close>

definition demo_turns :: "nat list" where
  "demo_turns =
     [0, 1, 2, 0, 1, 2, 0, 1, 2, 0, 1, 2, 0, 1, 2, 0, 1, 2, 0, 1, 2, 0, 1, 2, 0, 1, 2,
      0, 1, 2, 0, 1, 2, 0, 1, 2]"

text \<open>
  Two requests of the same user for a new proxy token, and an order in which they
  overlap: each runs until it has generated its token, then each writes its entry,
  then each reads the set of the user, then each writes the set.
\<close>

definition demo_posts :: "(Route \<times> IncomingMessage) list" where
  "demo_posts = [(POST_tokens, demo_req_post), (POST_tokens, demo_req_post)]"

definition demo_posts_order :: "nat list" where
  "demo_posts_order = [0, 0, 0, 0, 0, 0, 0, 0, 1, 1, 1, 1, 1, 1, 0, 1, 0, 1, 0, 1]"

text \<open>Another request that reads the clock between any two steps of a request.\<close>

definition demo_others :: "nat \<Rightarrow> World \<Rightarrow> World" where
  "demo_others n w = w\<lparr>ticks := Suc (ticks w)\<rparr>"

text \<open>
  The same environment where every token decodes to a payload whose \<^verbatim>\<open>exp\<close> passed
  long ago, and where every token decodes to a payload with no \<^verbatim>\<open>exp\<close>.
\<close>

definition demo_env_expired :: Env where
  "demo_env_expired = demo_env\<lparr>Jwt_decode := (\<lambda>t. Some (demo_jwt\<lparr>exp := Some 1000\<rparr>))\<rparr>"

definition demo_env_noexp :: Env where
  "demo_env_noexp = demo_env\<lparr>Jwt_decode := (\<lambda>t. Some (demo_jwt\<lparr>exp := None\<rparr>))\<rparr>"

definition demo_env_down :: Env where
  "demo_env_down = demo_env\<lparr>getFriendList := (\<lambda>n api. Inl ''timeout'')\<rparr>"

text \<open>An environment whose web services call fails.\<close>

definition demo_env_webservices_down :: Env where
  "demo_env_webservices_down = demo_env\<lparr>getWebServices := (\<lambda>n api. Inl ''unavailable'')\<rparr>"

section \<open>getToken: the token cache\<close>

text \<open>
  The keys of the five families of the store are pairwise different, and within a
  family a key determines what follows the prefix.
\<close>

lemma store_keys_distinct:
  "''NsoToken.'' @ a \<noteq> ''NintendoAccountToken.'' @ b"
  "''NsoToken.'' @ a \<noteq> ''NintendoAccountIds''"
  "''NsoToken.'' @ a \<noteq> ''ZncProxyAuthPolicy.'' @ b"
  "''NsoToken.'' @ a \<noteq> ''ZncProxyAuthPolicies.'' @ b"
  "''NintendoAccountToken.'' @ a \<noteq> ''NintendoAccountIds''"
  "''NintendoAccountToken.'' @ a \<noteq> ''ZncProxyAuthPolicy.'' @ b"
  "''NintendoAccountToken.'' @ a \<noteq> ''ZncProxyAuthPolicies.'' @ b"
  "''NintendoAccountIds'' \<noteq> ''ZncProxyAuthPolicy.'' @ b"
  "''NintendoAccountIds'' \<noteq> ''ZncProxyAuthPolicies.'' @ b"
  "''ZncProxyAuthPolicy.'' @ a \<noteq> ''ZncProxyAuthPolicies.'' @ b"
  "''NsoToken.'' @ a = ''NsoToken.'' @ b \<longleftrightarrow> a = b"
  "''ZncProxyAuthPolicy.'' @ a = ''ZncProxyAuthPolicy.'' @ b \<longleftrightarrow> a = b"
  by simp_all

lemma getToken_not_accepted:
  assumes "\<not> accepted env w token"
  shows "\<exists>e. fst (getToken env w token purl) = Inl e \<and> InvalidToken e \<and>
             storage (snd (getToken env w token purl)) = storage w \<and>
             net (snd (getToken env w token purl)) = net w"
  using assms
  by (auto simp: getToken_def accepted_def Date_now_def Let_def split: option.splits)

lemma getToken_accepted:
  assumes "accepted env w token"
  shows "getToken env w token purl =
     (case NsoToken (storage w) token of
        None \<Rightarrow> authenticate env (w\<lparr>ticks := Suc (ticks w)\<rparr>) token purl
      | Some existingToken \<Rightarrow>
          if expires_at existingToken \<le> clock env (Suc (ticks w))
          then authenticate env (w\<lparr>ticks := Suc (Suc (ticks w))\<rparr>) token purl
          else (Inr \<lparr>nso = new_api purl token existingToken, data = existingToken\<rparr>,
                setItem_NintendoAccountToken (na_id (user existingToken)) token
                  (w\<lparr>ticks := Suc (Suc (ticks w))\<rparr>)))"
  using assms
  by (auto simp: getToken_def accepted_def Date_now_def Let_def split: option.splits)

lemma authenticate_Inl:
  assumes "createWithSessionToken env (length (net w)) purl token = Inl msg"
  shows "authenticate env w token purl =
           (Inl (Thrown msg), w\<lparr>net := net w @ [createWithSessionToken_call purl token]\<rparr>)"
  using assms by (simp add: authenticate_def call_def Let_def)

lemma authenticate_Inr:
  assumes "createWithSessionToken env (length (net w)) purl token = Inr (api, d)"
  shows "authenticate env w token purl =
           (let e = d\<lparr>expires_at := clock env (ticks w) + expiresIn (credential d) * 1000\<rparr> in
            (Inr \<lparr>nso = api, data = e\<rparr>,
             w\<lparr>net := net w @ [createWithSessionToken_call purl token],
               ticks := Suc (ticks w),
               storage := (storage w)\<lparr>
                 NsoToken := (NsoToken (storage w))(token \<mapsto> e),
                 NintendoAccountToken :=
                   (NintendoAccountToken (storage w))(na_id (user d) \<mapsto> token)\<rparr>\<rparr>))"
  using assms
  by (simp add: authenticate_def call_def Let_def Date_now_def setItem_NsoToken_def
      setItem_NintendoAccountToken_def)

lemma getToken_Inr_cases:
  assumes "fst (getToken env w token purl) = Inr r"
  shows "(\<exists>c. NsoToken (storage w) token = Some c \<and>
              clock env (Suc (ticks w)) < expires_at c \<and>
              getToken env w token purl =
                (Inr \<lparr>nso = new_api purl token c, data = c\<rparr>,
                 setItem_NintendoAccountToken (na_id (user c)) token
                   (w\<lparr>ticks := Suc (Suc (ticks w))\<rparr>))) \<or>
         (\<exists>api d w1. createWithSessionToken env (length (net w)) purl token = Inr (api, d) \<and>
              net w1 = net w \<and> storage w1 = storage w \<and>
              ticks w1 = (case NsoToken (storage w) token of None \<Rightarrow> Suc (ticks w)
                          | Some c \<Rightarrow> Suc (Suc (ticks w))) \<and>
              getToken env w token purl = authenticate env w1 token purl)"
proof (cases "accepted env w token")
  case False
  from getToken_not_accepted[OF False, of purl] assms show ?thesis by auto
next
  case True
  show ?thesis
  proof (cases "NsoToken (storage w) token")
    case None
    let ?w1 = "w\<lparr>ticks := Suc (ticks w)\<rparr>"
    have g: "getToken env w token purl = authenticate env ?w1 token purl"
      by (simp add: getToken_accepted[OF True] None)
    show ?thesis
    proof (cases "createWithSessionToken env (length (net w)) purl token")
      case (Inl msg)
      with assms g show ?thesis by (simp add: authenticate_Inl)
    next
      case (Inr p)
      obtain api d where "p = (api, d)" by (cases p)
      with Inr g None show ?thesis
        by (intro disjI2 exI[of _ api] exI[of _ d] exI[of _ ?w1]) simp
    qed
  next
    case (Some c)
    show ?thesis
    proof (cases "expires_at c \<le> clock env (Suc (ticks w))")
      case False
      with Some show ?thesis by (simp add: getToken_accepted[OF True])
    next
      case stale: True
      let ?w1 = "w\<lparr>ticks := Suc (Suc (ticks w))\<rparr>"
      have g: "getToken env w token purl = authenticate env ?w1 token purl"
        by (simp add: getToken_accepted[OF True] Some stale)
      show ?thesis
      proof (cases "createWithSessionToken env (length (net w)) purl token")
        case (Inl msg)
        with assms g show ?thesis by (simp add: authenticate_Inl)
      next
        case (Inr p)
        obtain api d where "p = (api, d)" by (cases p)
        with Inr g Some show ?thesis
          by (intro disjI2 exI[of _ api] exI[of _ d] exI[of _ ?w1]) simp
      qed
    qed
  qed
qed

lemma authenticate_Inl_storage:
  assumes "fst (authenticate env w token purl) = Inl e"
  shows "storage (snd (authenticate env w token purl)) = storage w"
proof (cases "createWithSessionToken env (length (net w)) purl token")
  case (Inl msg)
  then show ?thesis by (simp add: authenticate_Inl)
next
  case (Inr p)
  obtain api d where "p = (api, d)" by (cases p)
  with Inr assms show ?thesis by (simp add: authenticate_Inr Let_def)
qed

lemma getToken_Inl_storage:
  assumes "fst (getToken env w token purl) = Inl e"
  shows "storage (snd (getToken env w token purl)) = storage w"
proof (cases "accepted env w token")
  case False
  from getToken_not_accepted[OF False, of purl] show ?thesis by auto
next
  case True
  show ?thesis
    using assms authenticate_Inl_storage[of env _ token purl e]
    by (auto simp: getToken_accepted[OF True] split: option.splits if_splits)
qed

text \<open>Unfolding the example values and the operations on them.\<close>

lemmas demo_defs =
  demo_env_def demo_jwt_def demo_data_def demo_old_def demo_friends_def demo_storage_def
  demo_world_def demo_cached_def demo_req_def demo_req_na_def demo_req_unknown_def
  demo_req_other_def demo_policy_def demo_proxy_world_def demo_req_bearer_def
  demo_req_denied_def demo_req_absent_def demo_req_post_def demo_env_down_def
  demo_announced_def demo_run_def demo_env_expired_def demo_env_noexp_def
  demo_env_webservices_down_def demo_overlap_def demo_overlap_order_def demo_turns_def
  demo_posts_def demo_posts_order_def demo_others_def

lemmas getToken_defs =
  getToken_def authenticate_def createWithSessionToken_def createWithSessionToken_call_def
  new_api_def Date_now_def call_def setItem_NsoToken_def setItem_NintendoAccountToken_def

text \<open>
  C1, as the code has it. For a token that \<^verbatim>\<open>getToken\<close> lets through to the lookup
  (not empty, decodes, issuer, type and audience as expected, and no \<^verbatim>\<open>exp\<close> that
  is a number at or before the clock reading): when the store holds an entry for it whose
  \<open>expires_at\<close> is strictly after the clock reading of the lookup, \<open>getToken\<close> returns
  that entry, makes no network call and leaves the cached entries as they are. When
  the entry is absent, or \<open>expires_at\<close> is at or before that reading, it makes exactly
  one exchange call; if the exchange throws, the error is passed on and the store is
  unchanged, so a stale entry is still there as it was; if it answers, the result's
  credential is the answer's data with a new \<open>expires_at\<close>, and it is what the store
  now holds for the token.
\<close>

theorem getToken_hit_or_fresh:
  assumes "accepted env w token"
  shows "(\<forall>c. NsoToken (storage w) token = Some c \<and> clock env (Suc (ticks w)) < expires_at c \<longrightarrow>
            fst (getToken env w token purl) = Inr \<lparr>nso = new_api purl token c, data = c\<rparr> \<and>
            net (snd (getToken env w token purl)) = net w \<and>
            NsoToken (storage (snd (getToken env w token purl))) = NsoToken (storage w)) \<and>
         (NsoToken (storage w) token = None \<or>
          (\<exists>c. NsoToken (storage w) token = Some c \<and>
               expires_at c \<le> clock env (Suc (ticks w))) \<longrightarrow>
            net (snd (getToken env w token purl)) =
              net w @ [createWithSessionToken_call purl token] \<and>
            (case createWithSessionToken env (length (net w)) purl token of
               Inl msg \<Rightarrow>
                 fst (getToken env w token purl) = Inl (Thrown msg) \<and>
                 storage (snd (getToken env w token purl)) = storage w
             | Inr (api, d) \<Rightarrow>
                 (\<exists>r x. fst (getToken env w token purl) = Inr r \<and> nso r = api \<and>
                    data r = d\<lparr>expires_at := x\<rparr> \<and>
                    NsoToken (storage (snd (getToken env w token purl))) token =
                      Some (data r))))"
proof (intro conjI allI impI)
  fix c
  assume "NsoToken (storage w) token = Some c \<and> clock env (Suc (ticks w)) < expires_at c"
  then show "fst (getToken env w token purl) = Inr \<lparr>nso = new_api purl token c, data = c\<rparr>"
    and "net (snd (getToken env w token purl)) = net w"
    and "NsoToken (storage (snd (getToken env w token purl))) = NsoToken (storage w)"
    by (simp_all add: getToken_accepted[OF assms] setItem_NintendoAccountToken_def)
next
  assume "NsoToken (storage w) token = None \<or>
          (\<exists>c. NsoToken (storage w) token = Some c \<and>
               expires_at c \<le> clock env (Suc (ticks w)))"
  then obtain w1 where g: "getToken env w token purl = authenticate env w1 token purl"
    and w1: "net w1 = net w" "storage w1 = storage w"
    by (auto simp: getToken_accepted[OF assms])
  show "net (snd (getToken env w token purl)) =
          net w @ [createWithSessionToken_call purl token]"
    by (cases "createWithSessionToken env (length (net w1)) purl token")
       (auto simp: g authenticate_Inl authenticate_Inr w1 Let_def)
  show "case createWithSessionToken env (length (net w)) purl token of
          Inl msg \<Rightarrow>
            fst (getToken env w token purl) = Inl (Thrown msg) \<and>
            storage (snd (getToken env w token purl)) = storage w
        | Inr (api, d) \<Rightarrow>
            (\<exists>r x. fst (getToken env w token purl) = Inr r \<and> nso r = api \<and>
               data r = d\<lparr>expires_at := x\<rparr> \<and>
               NsoToken (storage (snd (getToken env w token purl))) token = Some (data r))"
    using w1
    by (cases "createWithSessionToken env (length (net w1)) purl token")
       (auto simp: g authenticate_Inl authenticate_Inr Let_def)
qed


theorem getToken_hit_or_fresh_witness:
  "accepted demo_env (demo_cached 1000000002) ''session'' \<and>
   NsoToken (storage (demo_cached 1000000002)) ''session'' =
     Some (demo_old\<lparr>expires_at := 1000000002\<rparr>) \<and>
   clock demo_env (Suc (ticks (demo_cached 1000000002))) < 1000000002 \<and>
   fst (getToken demo_env (demo_cached 1000000002) ''session'' None) =
     Inr \<lparr>nso = ZncApi ''previous'', data = demo_old\<lparr>expires_at := 1000000002\<rparr>\<rparr> \<and>
   net (snd (getToken demo_env (demo_cached 1000000002) ''session'' None)) = [] \<and>
   accepted demo_env (demo_cached 1000000001) ''session'' \<and>
   expires_at (demo_old\<lparr>expires_at := 1000000001\<rparr>) \<le>
     clock demo_env (Suc (ticks (demo_cached 1000000001))) \<and>
   net (snd (getToken demo_env (demo_cached 1000000001) ''session'' None)) =
     [Net_ZncApi_createWithSessionToken ''session''] \<and>
   fst (getToken demo_env (demo_cached 1000000001) ''session'' (Some ''http://proxy'')) =
     Inl (Thrown ''proxy unreachable'') \<and>
   NsoToken (storage (snd (getToken demo_env (demo_cached 1000000001) ''session''
     (Some ''http://proxy'')))) ''session'' = Some (demo_old\<lparr>expires_at := 1000000001\<rparr>)"
  using getToken_hit_or_fresh[of demo_env "demo_cached 1000000002" "''session''" None]
    getToken_hit_or_fresh[of demo_env "demo_cached 1000000001" "''session''" None]
    getToken_hit_or_fresh[of demo_env "demo_cached 1000000001" "''session''"
      "Some ''http://proxy''"]
  by (simp add: accepted_def demo_defs setItem_NsoToken_def new_api_def
      createWithSessionToken_def createWithSessionToken_call_def)

text \<open>
  The claim as written fails: for a token whose own \<^verbatim>\<open>exp\<close> has passed, \<^verbatim>\<open>getToken\<close>
  throws before it looks the cache up, though the cache holds a credential for the
  token that expires later than the clock reading a lookup would compare it with.
\<close>

theorem getToken_cached_but_rejected_counterexample:
  "NsoToken (storage (demo_cached 2000000000)) ''session'' =
     Some (demo_old\<lparr>expires_at := 2000000000\<rparr>) \<and>
   clock demo_env_expired (Suc (ticks (demo_cached 2000000000))) < 2000000000 \<and>
   fst (getToken demo_env_expired (demo_cached 2000000000) ''session'' None) =
     Inl Token_expired"
  by (simp add: getToken_defs Let_def demo_defs)





text \<open>
  C3. When \<open>getToken\<close> succeeds after an exchange (a network call was made), the
  credential it returns and stores for the token is the exchange's data with
  \<open>expires_at\<close> set to \<open>T + expiresIn * 1000\<close>, where \<open>T\<close> is the last clock reading
  of the call, taken once the exchange has answered.
\<close>

theorem getToken_fresh_expires_at:
  assumes "fst (getToken env w token purl) = Inr r"
    and "net (snd (getToken env w token purl)) \<noteq> net w"
  shows "\<exists>api d. createWithSessionToken env (length (net w)) purl token = Inr (api, d) \<and>
           data r = d\<lparr>expires_at :=
             clock env (ticks (snd (getToken env w token purl)) - 1) +
               expiresIn (credential d) * 1000\<rparr> \<and>
           NsoToken (storage (snd (getToken env w token purl))) token = Some (data r)"
  using getToken_Inr_cases[OF assms(1)] assms
  by (auto simp: authenticate_Inr Let_def setItem_NintendoAccountToken_def)

theorem getToken_fresh_expires_at_witness:
  "fst (getToken demo_env demo_world ''session'' None) =
     Inr \<lparr>nso = ZncApi ''access'', data = demo_data\<lparr>expires_at := 1003600001\<rparr>\<rparr> \<and>
   net (snd (getToken demo_env demo_world ''session'' None)) \<noteq> net demo_world \<and>
   expiresIn (credential demo_data) = 3600 \<and>
   clock demo_env (ticks (snd (getToken demo_env demo_world ''session'' None)) - 1) =
     1000000001 \<and>
   NsoToken (storage (snd (getToken demo_env demo_world ''session'' None))) ''session'' =
     Some (demo_data\<lparr>expires_at := 1000000001 + 3600000\<rparr>)"
proof -
  let ?g = "getToken demo_env demo_world ''session'' None"
  have r: "fst ?g = Inr \<lparr>nso = ZncApi ''access'', data = demo_data\<lparr>expires_at := 1003600001\<rparr>\<rparr>"
    by (simp add: getToken_defs Let_def demo_defs)
  have n: "net (snd ?g) \<noteq> net demo_world"
    by (simp add: getToken_defs Let_def demo_defs)
  have t: "ticks (snd ?g) = 2"
    by (simp add: getToken_defs Let_def demo_defs)
  from getToken_fresh_expires_at[OF r n]
  have s: "NsoToken (storage (snd ?g)) ''session'' =
      Some (demo_data\<lparr>expires_at := 1003600001\<rparr>)"
    by auto
  have c: "clock demo_env (ticks (snd ?g) - 1) = 1000000001"
    unfolding t by (simp add: demo_env_def)
  have e: "expiresIn (credential demo_data) = 3600"
    by (simp add: demo_data_def)
  from r n s c e show ?thesis by simp
qed

text \<open>
  C4. A call of \<open>getToken\<close> leaves the cached credentials as they were or writes one
  of them, the one under the key of its token; what it writes is the data the exchange
  answered with a new \<open>expires_at\<close>, whatever was there before. In particular a
  refresh of a stale entry puts exactly that in its place.
\<close>

theorem getToken_overwrites:
  "(NsoToken (storage (snd (getToken env w token purl))) = NsoToken (storage w) \<or>
    (\<exists>api d t. createWithSessionToken env (length (net w)) purl token = Inr (api, d) \<and>
       NsoToken (storage (snd (getToken env w token purl))) =
         (NsoToken (storage w))(token \<mapsto> d\<lparr>expires_at := t\<rparr>))) \<and>
   (\<forall>c api d. accepted env w token \<and> NsoToken (storage w) token = Some c \<and>
       expires_at c \<le> clock env (Suc (ticks w)) \<and>
       createWithSessionToken env (length (net w)) purl token = Inr (api, d) \<longrightarrow>
       NsoToken (storage (snd (getToken env w token purl))) =
         (NsoToken (storage w))(token \<mapsto>
            d\<lparr>expires_at := clock env (Suc (Suc (ticks w))) + expiresIn (credential d) * 1000\<rparr>))"
proof (intro conjI allI impI)
  show "NsoToken (storage (snd (getToken env w token purl))) = NsoToken (storage w) \<or>
    (\<exists>api d t. createWithSessionToken env (length (net w)) purl token = Inr (api, d) \<and>
       NsoToken (storage (snd (getToken env w token purl))) =
         (NsoToken (storage w))(token \<mapsto> d\<lparr>expires_at := t\<rparr>))"
  proof (cases "fst (getToken env w token purl)")
    case (Inr r)
    from getToken_Inr_cases[OF Inr] show ?thesis
      by (auto simp: authenticate_Inr Let_def setItem_NintendoAccountToken_def)
  next
    case (Inl e)
    then show ?thesis by (simp add: getToken_Inl_storage)
  qed
next
  fix c api d
  assume h: "accepted env w token \<and> NsoToken (storage w) token = Some c \<and>
       expires_at c \<le> clock env (Suc (ticks w)) \<and>
       createWithSessionToken env (length (net w)) purl token = Inr (api, d)"
  then show "NsoToken (storage (snd (getToken env w token purl))) =
         (NsoToken (storage w))(token \<mapsto>
            d\<lparr>expires_at := clock env (Suc (Suc (ticks w))) + expiresIn (credential d) * 1000\<rparr>)"
    by (simp add: getToken_accepted authenticate_Inr Let_def)
qed

theorem getToken_overwrites_witness:
  "accepted demo_env (demo_cached 1000000001) ''session'' \<and>
   NsoToken (storage (demo_cached 1000000001)) ''session'' =
     Some (demo_old\<lparr>expires_at := 1000000001\<rparr>) \<and>
   expires_at (demo_old\<lparr>expires_at := 1000000001\<rparr>) \<le>
     clock demo_env (Suc (ticks (demo_cached 1000000001))) \<and>
   createWithSessionToken demo_env (length (net (demo_cached 1000000001))) None ''session'' =
     Inr (ZncApi ''access'', demo_data) \<and>
   NsoToken (storage (snd (getToken demo_env (demo_cached 1000000001) ''session'' None))) =
     [''session'' \<mapsto> demo_data\<lparr>expires_at := 1003600002\<rparr>]"
  using getToken_overwrites[of demo_env "demo_cached 1000000001" "''session''" None]
  by (simp add: accepted_def demo_defs setItem_NsoToken_def createWithSessionToken_def)

text \<open>
  C5. Whenever \<open>getToken\<close> succeeds, on a cached entry or after an exchange, the store
  then maps the id of the returned credential's user, under the prefix
  \<^verbatim>\<open>NintendoAccountToken.\<close>, to the session token of the call.
\<close>

theorem getToken_records_user_token:
  assumes "fst (getToken env w token purl) = Inr r"
  shows "NintendoAccountToken (storage (snd (getToken env w token purl)))
           (na_id (user (data r))) = Some token"
  using getToken_Inr_cases[OF assms] assms
  by (auto simp: authenticate_Inr Let_def setItem_NintendoAccountToken_def)

theorem getToken_records_user_token_witness:
  "fst (getToken demo_env (demo_cached 1000000002) ''session'' None) =
     Inr \<lparr>nso = ZncApi ''previous'', data = demo_old\<lparr>expires_at := 1000000002\<rparr>\<rparr> \<and>
   NintendoAccountToken (storage (demo_cached 1000000002)) ''user1'' = None \<and>
   NintendoAccountToken
     (storage (snd (getToken demo_env (demo_cached 1000000002) ''session'' None))) ''user1'' =
     Some ''session'' \<and>
   fst (getToken demo_env demo_world ''session'' None) =
     Inr \<lparr>nso = ZncApi ''access'', data = demo_data\<lparr>expires_at := 1003600001\<rparr>\<rparr> \<and>
   NintendoAccountToken (storage (snd (getToken demo_env demo_world ''session'' None)))
     ''user1'' = Some ''session''"
proof -
  let ?h = "getToken demo_env (demo_cached 1000000002) ''session'' None"
  let ?g = "getToken demo_env demo_world ''session'' None"
  have h: "fst ?h =
      Inr \<lparr>nso = ZncApi ''previous'', data = demo_old\<lparr>expires_at := 1000000002\<rparr>\<rparr>"
    by (simp add: getToken_defs Let_def demo_defs)
  have g: "fst ?g = Inr \<lparr>nso = ZncApi ''access'', data = demo_data\<lparr>expires_at := 1003600001\<rparr>\<rparr>"
    by (simp add: getToken_defs Let_def demo_defs)
  have n: "NintendoAccountToken (storage (demo_cached 1000000002)) ''user1'' = None"
    by (simp add: demo_defs setItem_NsoToken_def)
  from getToken_records_user_token[OF h] getToken_records_user_token[OF g] h g n
  show ?thesis by (simp add: demo_defs)
qed

section \<open>The HTTP server: the handlers run without interruption\<close>

lemma run_Await [simp]: "run (Await k) w = (case k w of (t, w1) \<Rightarrow> run t w1)"
  by (simp split: prod.splits)

declare run.simps(2) [simp del]

lemma run_step_respond [simp]: "run_step (respond res) w = (res, w)"
  by (simp add: run_step_def respond_def)

lemma run_step_await [simp]:
  "run_step (await op k) w = (case op w of (x, w1) \<Rightarrow> run_step (k x) w1)"
  by (simp add: run_step_def await_def split: prod.splits)

lemma run_step_sync [simp]:
  "run_step (sync op k) w = (case op w of (x, w1) \<Rightarrow> run_step (k x) w1)"
  by (simp add: run_step_def sync_def split: prod.splits)

lemmas op_defs = reading_def getItem_def doing_def fetch_def new_uuid_def Date_now_def

lemma run_authenticate_step:
  "run_step (authenticate_step env token purl return) w =
     (case authenticate env w token purl of (res, w1) \<Rightarrow> run_step (return res) w1)"
  by (simp add: authenticate_step_def authenticate_def Let_def op_defs
       split: sum.splits prod.splits)

lemma run_getToken_step:
  "run_step (getToken_step env token purl return) w =
     (case getToken env w token purl of (res, w1) \<Rightarrow> run_step (return res) w1)"
  by (simp add: getToken_step_def getToken_def Let_def run_authenticate_step op_defs
       split: option.splits sum.splits prod.splits)

lemma run_localAuth_step:
  "run_step (localAuth_step env req next) w = run_step (next (localAuth env w req)) w"
  by (simp add: localAuth_step_def localAuth_def op_defs split: option.splits)

lemma run_authToken_step:
  "run_step (authToken_step req next) w = run_step (next (authToken w req)) w"
  by (simp add: authToken_step_def authToken_def Let_def op_defs split: option.splits)

lemma run_nsoAuth_step:
  "run_step (nsoAuth_step env req next) w =
     (case nsoAuth env w req of
        (Inl res, w1) \<Rightarrow> (res, w1)
      | (Inr r, w1) \<Rightarrow> run_step (next r) w1)"
  by (simp add: nsoAuth_step_def nsoAuth_session_step_def nsoAuth_def
       nintendoAccountSessionToken_def Let_def run_getToken_step op_defs
       split: option.splits sum.splits prod.splits)

lemma run_fetchAppData_step:
  "run_step (fetchAppData_step env r next) w =
     (case fetchAppData env w r of
        (Some res, w1) \<Rightarrow> (res, w1)
      | (None, w1) \<Rightarrow> run_step next w1)"
  by (simp add: fetchAppData_step_def fetchAppData_def Let_def op_defs
       split: option.splits sum.splits prod.splits)

lemma run_getAppData_step:
  "run_step (getAppData_step env r next) w =
     (case getAppData env w r of
        (Some res, w1) \<Rightarrow> (res, w1)
      | (None, w1) \<Rightarrow> run_step next w1)"
  by (simp add: getAppData_step_def getAppData_def Let_def run_fetchAppData_step op_defs
       split: option.splits sum.splits prod.splits)

lemma run_fetchUserData_step:
  "run_step (fetchUserData_step env r next) w =
     (case fetchUserData env w r of
        (Some res, w1) \<Rightarrow> (res, w1)
      | (None, w1) \<Rightarrow> run_step next w1)"
  by (simp add: fetchUserData_step_def fetchUserData_def Let_def op_defs
       split: option.splits sum.splits prod.splits)

lemma run_getUserData_step:
  "run_step (getUserData_step env r next) w =
     (case getUserData env w r of
        (Some res, w1) \<Rightarrow> (res, w1)
      | (None, w1) \<Rightarrow> run_step next w1)"
  by (simp add: getUserData_step_def getUserData_def Let_def run_fetchUserData_step op_defs
       split: option.splits sum.splits prod.splits)

lemma serve_run_step: "serve env w rq = run_step (app env rq) w"
  by (simp add: serve_def request_def run_step_def)

lemma run_getItems_ZncProxyAuthPolicy:
  "run_step (getItems_ZncProxyAuthPolicy token_ids tokens next) w =
     run_step (next (tokens @
       List.map_filter (\<lambda>t. map_option (Pair t) (ZncProxyAuthPolicy (storage w) t)) token_ids)) w"
proof (induction token_ids arbitrary: tokens)
  case Nil
  then show ?case by (simp add: List.map_filter_simps)
next
  case (Cons t token_ids)
  then show ?case by (simp add: List.map_filter_simps op_defs split: option.splits)
qed

lemmas run_middleware =
  run_authToken_step run_localAuth_step run_nsoAuth_step run_getAppData_step
  run_getUserData_step

lemma serve_GET_token:
  "serve env w (GET_token, msg) =
     (let req = authToken w (new_request msg) in
      if \<not> truthy_str (zncAuthPolicyToken req) then (no_policy, w)
      else (ok (Body_policy (zncAuthPolicy req)), w))"
  by (simp add: serve_run_step get_token_step_def run_middleware Let_def)

lemma serve_DELETE_token:
  "serve env w (DELETE_token, msg) =
     (let req = authToken w (new_request msg) in
      if \<not> truthy_str (zncAuthPolicyToken req) then (no_policy, w)
      else
        (let token = the (zncAuthPolicyToken req);
             key = concat_str (zncAuthPolicyUser req);
             w1 = removeItem_ZncProxyAuthPolicy token w;
             tokens = new_Set (or_empty (ZncProxyAuthPolicies (storage w1) key));
             tokens' = Set_delete token tokens;
             w2 = setItem_ZncProxyAuthPolicies key tokens' w1
         in (\<lparr>statusCode = 204, body = Body_none\<rparr>, w2)))"
  by (simp add: serve_run_step delete_token_step_def run_middleware Let_def op_defs)

lemma serve_authenticated:
  assumes "rt = GET_auth \<or> rt = GET_tokens \<or> rt = POST_tokens \<or> rt = GET_webservice_token"
  shows "serve env w (rt, msg) = authenticated env (after_nsoAuth env rt) w msg"
  using assms
  by (auto simp: serve_run_step authenticated_def get_auth_step_def get_tokens_step_def
      post_tokens_step_def get_webservice_token_step_def bodyParser_json_step_def
      run_middleware run_getItems_ZncProxyAuthPolicy Let_def op_defs
      split: prod.splits sum.splits)

lemma serve_guarded:
  assumes "policy_test rt = Some gate"
  shows "serve env w (rt, msg) = guarded env gate (after_nsoAuth env rt) w msg"
  using assms
  by (cases rt)
     (auto simp: serve_run_step guarded_def with_appdata_def with_userdata_def
      get_announcements_step_def announcements_handler_step_def get_friends_step_def
      get_friends_presence_step_def get_friend_step_def get_friend_presence_step_def
      get_webservices_step_def get_activeevent_step_def get_user_step_def
      get_user_presence_step_def run_middleware Let_def op_defs
      split: prod.splits sum.splits option.splits)

lemma serve_GET_friends_presence:
  "serve env w (GET_friends_presence, msg) = get_friends_presence env w msg"
  by (simp add: serve_guarded[of GET_friends_presence] guarded_def with_appdata_def
      get_friends_presence_def Let_def split: option.splits prod.splits sum.splits)

section \<open>The HTTP server: what the handlers do to the world\<close>

lemma presence_loop_entry:
  assumes "presence_loop pol fs acc k = Some v"
  shows "acc k = Some v \<or> (\<exists>f\<in>set fs. \<not> skipped pol f \<and> nsaId f = k \<and> presence f = v)"
  using assms
proof (induction fs arbitrary: acc)
  case Nil
  then show ?case by simp
next
  case (Cons f fs)
  show ?case
  proof (cases "skipped pol f")
    case True
    with Cons.prems have "presence_loop pol fs acc k = Some v" by simp
    from Cons.IH[OF this] show ?thesis by auto
  next
    case False
    with Cons.prems have "presence_loop pol fs (acc(nsaId f \<mapsto> presence f)) k = Some v"
      by simp
    from Cons.IH[OF this] False show ?thesis by (auto split: if_splits)
  qed
qed

lemma not_skipped_allowed:
  assumes "presence_allowlist p = Some allowed" and "\<not> skipped (Some p) f"
  shows "nsaId f \<in> set allowed"
  using assms
  by (auto simp: presence_allowlist_def skipped_def or_empty_def split: option.splits)

lemma localAuth_policy [simp]:
  "zncAuthPolicy (localAuth env w req) = zncAuthPolicy req"
  "zncAuthPolicyUser (localAuth env w req) = zncAuthPolicyUser req"
  "zncAuthPolicyToken (localAuth env w req) = zncAuthPolicyToken req"
  "params_nsaid (localAuth env w req) = params_nsaid req"
  "params_id (localAuth env w req) = params_id req"
  by (simp_all add: localAuth_def split: option.splits)

lemma new_request_simps [simp]:
  "authorization (new_request msg) = authorization msg"
  "query_user (new_request msg) = query_user msg"
  "query_token (new_request msg) = query_token msg"
  "params_nsaid (new_request msg) = params_nsaid msg"
  "params_id (new_request msg) = params_id msg"
  "body_policy (new_request msg) = body_policy msg"
  "zncAuthPolicy (new_request msg) = None"
  "zncAuthPolicyUser (new_request msg) = None"
  "zncAuthPolicyToken (new_request msg) = None"
  by (simp_all add: new_request_def)

lemma authToken_params [simp]:
  "params_nsaid (authToken w req) = params_nsaid req"
  "params_id (authToken w req) = params_id req"
  "authorization (authToken w req) = authorization req"
  "query_user (authToken w req) = query_user req"
  by (simp_all add: authToken_def set_policy_def Let_def split: option.splits)

lemma nsoAuth_Inl:
  assumes "fst (nsoAuth env w req) = Inl res"
  shows "\<exists>err. res = caught err"
  using assms
  by (auto simp: nsoAuth_def Let_def split: sum.splits prod.splits)

lemma fetchAppData_Some:
  assumes "fst (fetchAppData env w r) = Some res"
  shows "\<exists>emsg. res = caught (Thrown emsg)"
  using assms
  by (auto simp: fetchAppData_def Let_def Date_now_def split: sum.splits prod.splits)

lemma getAppData_Some:
  assumes "fst (getAppData env w r) = Some res"
  shows "\<exists>emsg. res = caught (Thrown emsg)"
  using assms fetchAppData_Some[of env _ r res]
  by (auto simp: getAppData_def Let_def Date_now_def split: option.splits prod.splits if_splits)

lemma fetchAppData_None:
  assumes "fst (fetchAppData env w r) = None"
  shows "cached_appdata (snd (fetchAppData env w r)) (na_id (user (data r))) \<noteq> None"
  using assms
  by (auto simp: fetchAppData_def Let_def Date_now_def split: sum.splits prod.splits)

lemma getAppData_None:
  assumes "fst (getAppData env w r) = None"
  shows "cached_appdata (snd (getAppData env w r)) (na_id (user (data r))) \<noteq> None"
  using assms fetchAppData_None[of env _ r]
  by (auto simp: getAppData_def Let_def Date_now_def split: option.splits prod.splits if_splits)

lemma gate_list_friends_presence_Some:
  assumes "gate_list_friends_presence req = Some res"
  shows "res = tokenUnauthorised"
  using assms by (auto simp: gate_list_friends_presence_def split: option.splits if_splits)

lemma get_friends_presence_cases:
  obtains (denied) "get_friends_presence env w msg = (tokenUnauthorised, w)"
  | (failed) err w1 where "get_friends_presence env w msg = (caught err, w1)"
  | (served) uid w1 fl ws ae u where
      "cached_appdata w1 uid = Some (fl, ws, ae, u)"
      "get_friends_presence env w msg =
         (ok (Body_presence (presence_loop (zncAuthPolicy (authToken w (new_request msg))) fl Map.empty)), w1)"
proof (cases "gate_list_friends_presence (authToken w (new_request msg))")
  case (Some res)
  with gate_list_friends_presence_Some[OF Some] denied show ?thesis
    by (simp add: get_friends_presence_def)
next
  case None
  let ?req2 = "localAuth env w (authToken w (new_request msg))"
  obtain a w1 where n: "nsoAuth env w ?req2 = (a, w1)" by (cases "nsoAuth env w ?req2")
  show ?thesis
  proof (cases a)
    case (Inl res)
    with n nsoAuth_Inl[of env w ?req2 res] obtain err where "res = caught err" by auto
    with None n Inl failed show ?thesis by (simp add: get_friends_presence_def)
  next
    case (Inr r)
    obtain b w2 where g: "getAppData env w1 r = (b, w2)" by (cases "getAppData env w1 r")
    show ?thesis
    proof (cases b)
      case (Some res)
      with g getAppData_Some[of env w1 r res] obtain emsg where "res = caught (Thrown emsg)"
        by auto
      with None n Inr g Some failed show ?thesis by (simp add: get_friends_presence_def)
    next
      case b: None
      with g getAppData_None[of env w1 r]
      obtain fl ws ae u where c: "cached_appdata w2 (na_id (user (data r))) = Some (fl, ws, ae, u)"
        by (cases "cached_appdata w2 (na_id (user (data r)))") auto
      with None n Inr g b have
        "get_friends_presence env w msg =
           (ok (Body_presence (presence_loop (zncAuthPolicy (authToken w (new_request msg))) fl Map.empty)), w2)"
        by (simp add: get_friends_presence_def friends_presence_handler_def)
      with c served show ?thesis by blast
    qed
  qed
qed

lemma set_fold_Set_add: "set (fold Set_add xs acc) = set acc \<union> set xs"
  by (induction xs arbitrary: acc) (auto simp: Set_add_def)

lemma set_new_Set [simp]: "set (new_Set xs) = set xs"
  by (simp add: new_Set_def set_fold_Set_add)

lemma set_Set_add [simp]: "set (Set_add x s) = insert x (set s)"
  by (auto simp: Set_add_def)

lemma set_Set_delete [simp]: "set (Set_delete x s) = set s - {x}"
  by (auto simp: Set_delete_def)

subsection \<open>Upstream failures\<close>

lemma failures_append:
  "failures env n (cs @ ds) = failures env n cs @ failures env (n + length cs) ds"
  by (induction cs arbitrary: n) (simp_all split: option.splits)

lemma clean_refl [simp]: "clean env w w"
  by (simp add: clean_def)

lemma clean_trans:
  assumes "clean env w w1" and "clean env w1 w2"
  shows "clean env w w2"
proof -
  from assms obtain c1 c2 where c: "net w1 = net w @ c1" "failures env (length (net w)) c1 = []"
    "net w2 = net w1 @ c2" "failures env (length (net w1)) c2 = []"
    by (auto simp: clean_def)
  then have "net w2 = net w @ (c1 @ c2) \<and> failures env (length (net w)) (c1 @ c2) = []"
    by (simp add: failures_append)
  then show ?thesis unfolding clean_def by blast
qed

lemma clean_sound:
  assumes "clean env w w1" and "sound env w1 S"
  shows "sound env w S"
proof -
  from assms obtain c1 c2 where c: "net w1 = net w @ c1" "failures env (length (net w)) c1 = []"
    "net (snd S) = net w1 @ c2"
    "\<forall>msg\<in>set (failures env (length (net w1)) c2). fst S = caught (Thrown msg)"
    by (auto simp: clean_def sound_def)
  then have "net (snd S) = net w @ (c1 @ c2) \<and>
      (\<forall>msg\<in>set (failures env (length (net w)) (c1 @ c2)). fst S = caught (Thrown msg))"
    by (simp add: failures_append)
  then show ?thesis unfolding sound_def by blast
qed

lemma clean_imp_sound: "clean env w w1 \<Longrightarrow> sound env w (res, w1)"
  by (auto simp: clean_def sound_def)

lemma sound_same_net: "net w1 = net w \<Longrightarrow> sound env w (res, w1)"
  by (simp add: sound_def)

lemma clean_same_net: "net w1 = net w \<Longrightarrow> clean env w w1"
  by (simp add: clean_def)

lemma authenticate_sound:
  "case authenticate env w token purl of
     (Inl err, w1) \<Rightarrow> sound env w (caught err, w1)
   | (Inr r, w1) \<Rightarrow> clean env w w1"
  by (auto simp: authenticate_def createWithSessionToken_def createWithSessionToken_call_def
      call_def Date_now_def setItem_NsoToken_def setItem_NintendoAccountToken_def Let_def
      sound_def clean_def thrown_def
      split: sum.splits prod.splits option.splits)

lemma getToken_sound:
  "case getToken env w token purl of
     (Inl err, w1) \<Rightarrow> sound env w (caught err, w1)
   | (Inr r, w1) \<Rightarrow> clean env w w1"
proof -
  have t: "sound env w S" if "sound env (w\<lparr>ticks := n\<rparr>) S" for n S
    using that by (simp add: sound_def)
  have c: "clean env w w1" if "clean env (w\<lparr>ticks := n\<rparr>) w1" for n w1
    using that by (simp add: clean_def)
  show ?thesis
    using authenticate_sound[of env "w\<lparr>ticks := Suc (ticks w)\<rparr>" token purl]
      authenticate_sound[of env "w\<lparr>ticks := Suc (Suc (ticks w))\<rparr>" token purl]
    by (auto simp: getToken_def Date_now_def Let_def sound_same_net clean_same_net
        setItem_NintendoAccountToken_def
        dest: t c split: option.splits sum.splits prod.splits if_splits)
qed

lemma nsoAuth_sound:
  "case nsoAuth env w req of
     (Inl res, w1) \<Rightarrow> sound env w (res, w1)
   | (Inr r, w1) \<Rightarrow> clean env w w1"
proof (cases "nintendoAccountSessionToken w req")
  case (Inl err)
  then show ?thesis by (simp add: nsoAuth_def sound_same_net)
next
  case (Inr token)
  have c: "clean env w (setItem_NintendoAccountIds u w1)" if "clean env w w1" for u w1
    using that by (simp add: clean_def setItem_NintendoAccountIds_def)
  show ?thesis
    using getToken_sound[of env w token "zncProxyUrl (argv env)"]
    by (auto simp: nsoAuth_def Inr Let_def intro: c split: prod.splits sum.splits)
qed


lemma fetchAppData_sound:
  "case fetchAppData env w r of
     (Some res, w1) \<Rightarrow> sound env w (res, w1)
   | (None, w1) \<Rightarrow> clean env w w1"
  by (auto simp: fetchAppData_def call_def Date_now_def Let_def sound_def clean_def thrown_def
      split: sum.splits prod.splits option.splits)

lemma ticks_sound: "sound env (w\<lparr>ticks := n\<rparr>) S \<Longrightarrow> sound env w S"
  by (simp add: sound_def)

lemma ticks_clean: "clean env (w\<lparr>ticks := n\<rparr>) w1 \<Longrightarrow> clean env w w1"
  by (simp add: clean_def)

lemma getAppData_sound:
  "case getAppData env w r of
     (Some res, w1) \<Rightarrow> sound env w (res, w1)
   | (None, w1) \<Rightarrow> clean env w w1"
  using fetchAppData_sound[of env w r] fetchAppData_sound[of env "w\<lparr>ticks := Suc (ticks w)\<rparr>" r]
  by (auto simp: getAppData_def Date_now_def Let_def clean_same_net
      dest: ticks_sound ticks_clean split: option.splits prod.splits if_splits)

lemma fetchUserData_sound:
  "case fetchUserData env w r of
     (Some res, w1) \<Rightarrow> sound env w (res, w1)
   | (None, w1) \<Rightarrow> clean env w w1"
  by (auto simp: fetchUserData_def call_def Date_now_def Let_def sound_def clean_def thrown_def
      split: sum.splits prod.splits option.splits)

lemma getUserData_sound:
  "case getUserData env w r of
     (Some res, w1) \<Rightarrow> sound env w (res, w1)
   | (None, w1) \<Rightarrow> clean env w w1"
  using fetchUserData_sound[of env w r]
    fetchUserData_sound[of env "w\<lparr>ticks := Suc (ticks w)\<rparr>" r]
  by (auto simp: getUserData_def Date_now_def Let_def clean_same_net
      dest: ticks_sound ticks_clean split: option.splits prod.splits if_splits)

lemma with_appdata_sound: "sound env w (with_appdata env handler req r w)"
  using getAppData_sound[of env w r]
  by (auto simp: with_appdata_def clean_imp_sound split: prod.splits option.splits)

lemma with_userdata_sound: "sound env w (with_userdata env handler req r w)"
  using getUserData_sound[of env w r]
  by (auto simp: with_userdata_def clean_imp_sound split: prod.splits option.splits)

lemma after_nsoAuth_sound:
  assumes "rt \<noteq> GET_token" and "rt \<noteq> DELETE_token"
  shows "sound env w (after_nsoAuth env rt req r w)"
proof (cases rt)
  case POST_tokens
  then show ?thesis
    by (simp add: Let_def Date_now_def setItem_ZncProxyAuthPolicy_def
        setItem_ZncProxyAuthPolicies_def sound_same_net)
next
  case GET_webservice_token
  then show ?thesis
    by (auto simp: Let_def call_def sound_def thrown_def split: sum.splits)
next
  case GET_announcements
  then show ?thesis
    by (auto simp: Let_def call_def sound_def thrown_def split: sum.splits option.splits)
qed (use assms in \<open>simp_all add: with_appdata_sound with_userdata_sound sound_same_net\<close>)

lemma authenticated_sound:
  assumes "\<And>req r w1. sound env w1 (h req r w1)"
  shows "sound env w (authenticated env h w msg)"
  using nsoAuth_sound[of env w "new_request msg"] assms
  by (auto simp: authenticated_def intro: clean_sound split: prod.splits sum.splits)

lemma guarded_sound:
  assumes "\<And>req r w1. sound env w1 (h req r w1)"
  shows "sound env w (guarded env gate h w msg)"
  using nsoAuth_sound[of env w "localAuth env w (authToken w (new_request msg))"] assms
  by (auto simp: guarded_def Let_def sound_same_net intro: clean_sound
      split: prod.splits sum.splits option.splits)

lemma serve_sound: "sound env w (serve env w (rt, msg))"
proof (cases "policy_test rt")
  case (Some gate)
  then have "rt \<noteq> GET_token" "rt \<noteq> DELETE_token" by auto
  with serve_guarded[OF Some] show ?thesis
    by (simp add: guarded_sound after_nsoAuth_sound)
next
  case None
  then consider "rt = GET_token" | "rt = DELETE_token"
    | "rt = GET_auth \<or> rt = GET_tokens \<or> rt = POST_tokens \<or> rt = GET_webservice_token"
    by (cases rt) auto
  then show ?thesis
  proof cases
    case 1
    then show ?thesis by (simp add: serve_GET_token Let_def sound_same_net)
  next
    case 2
    then show ?thesis
      by (simp add: serve_DELETE_token Let_def sound_same_net
          removeItem_ZncProxyAuthPolicy_def setItem_ZncProxyAuthPolicies_def)
  next
    case 3
    then have "rt \<noteq> GET_token" "rt \<noteq> DELETE_token" by auto
    with serve_authenticated[OF 3] show ?thesis
      by (simp add: authenticated_sound after_nsoAuth_sound)
  qed
qed

lemma sound_upstream_failures:
  assumes "sound env w S"
  shows "net (snd S) = net w @ calls_since w (snd S) \<and>
         (\<forall>msg\<in>set (upstream_failures env w (snd S)). fst S = caught (Thrown msg))"
  using assms by (auto simp: sound_def calls_since_def upstream_failures_def)

subsection \<open>Statuses\<close>

lemmas gate_defs =
  gate_announcements_def gate_list_friends_def gate_list_friends_presence_def
  gate_friend_def gate_friend_presence_def gate_webservices_def gate_activeevent_def
  gate_current_user_def gate_current_user_presence_def

lemma gate_denied:
  assumes "policy_test rt = Some gate"
  shows "gate (authToken w (new_request msg)) =
           (if denied w rt msg then Some tokenUnauthorised else None)"
  using assms
  by (cases rt)
     (auto simp: gate_defs denied_def presence_allowlist_def split: option.splits)

lemma denied_policy_test:
  assumes "denied w rt msg"
  shows "policy_test rt \<noteq> None"
  using assms by (cases rt) (auto simp: denied_def split: option.splits)

lemma status_simps [simp]:
  "statusCode (ok b) = 200" "statusCode tokenUnauthorised = 403" "statusCode no_policy = 403"
  "statusCode (caught err) = 500" "statusCode not_found = 404"
  by (simp_all add: ok_def tokenUnauthorised_def no_policy_def caught_def not_found_def)

lemma handler_status:
  "statusCode (friends_handler w req r) = 200"
  "statusCode (friends_presence_handler w req r) = 200"
  "statusCode (friend_handler w req r) = 200 \<or> friend_handler w req r = not_found"
  "statusCode (friend_presence_handler w req r) = 200 \<or>
     friend_presence_handler w req r = not_found"
  "statusCode (webservices_handler w req r) = 200"
  "statusCode (activeevent_handler w req r) = 200"
  "statusCode (user_handler w req r) = 200"
  "statusCode (user_presence_handler w req r) = 200"
  by (auto simp: friends_handler_def friends_presence_handler_def friend_handler_def
      friend_presence_handler_def webservices_handler_def activeevent_handler_def
      user_handler_def user_presence_handler_def split: prod.splits option.splits)

lemma getUserData_Some:
  assumes "fst (getUserData env w r) = Some res"
  shows "\<exists>emsg. res = caught (Thrown emsg)"
  using assms
  by (auto simp: getUserData_def fetchUserData_def Let_def Date_now_def
      split: option.splits prod.splits if_splits sum.splits)

text \<open>
  What the part of a route behind \<^verbatim>\<open>nsoAuth\<close> answers: 200, or 500 with a caught
  error, or, on the two routes of one friend, 404.
\<close>

lemma after_nsoAuth_status:
  assumes "rt \<noteq> GET_token" and "rt \<noteq> DELETE_token"
  shows "statusCode (fst (after_nsoAuth env rt req r w)) = 200 \<or>
         (\<exists>emsg. fst (after_nsoAuth env rt req r w) = caught (Thrown emsg)) \<or>
         (fst (after_nsoAuth env rt req r w) = not_found \<and>
          (rt = GET_friend \<or> rt = GET_friend_presence))"
proof -
  have a: "statusCode (fst (with_appdata env handler req r w)) = 200 \<or>
      (\<exists>emsg. fst (with_appdata env handler req r w) = caught (Thrown emsg)) \<or>
      fst (with_appdata env handler req r w) = not_found \<and> nf"
    if "\<And>w1. statusCode (handler w1 req r) = 200 \<or> handler w1 req r = not_found \<and> nf"
    for handler nf
    using getAppData_Some[of env w r] that
    by (auto simp: with_appdata_def split: prod.splits option.splits)
  have u: "statusCode (fst (with_userdata env handler req r w)) = 200 \<or>
      (\<exists>emsg. fst (with_userdata env handler req r w) = caught (Thrown emsg))"
    if "\<And>w1. statusCode (handler w1 req r) = 200" for handler
    using getUserData_Some[of env w r] that
    by (auto simp: with_userdata_def split: prod.splits option.splits)
  show ?thesis
  proof (cases rt)
    case GET_friend
    with a[of friend_handler True] handler_status(3) show ?thesis by auto
  next
    case GET_friend_presence
    with a[of friend_presence_handler True] handler_status(4) show ?thesis by auto
  next
    case GET_friends
    with a[of friends_handler False] handler_status(1) show ?thesis by auto
  next
    case GET_friends_presence
    with a[of friends_presence_handler False] handler_status(2) show ?thesis by auto
  next
    case GET_webservices
    with a[of webservices_handler False] handler_status(5) show ?thesis by auto
  next
    case GET_activeevent
    with a[of activeevent_handler False] handler_status(6) show ?thesis by auto
  next
    case GET_user
    with u[of user_handler] handler_status(7) show ?thesis by auto
  next
    case GET_user_presence
    with u[of user_presence_handler] handler_status(8) show ?thesis by auto
  qed (use assms in \<open>auto simp: Let_def Date_now_def split: sum.splits option.splits prod.splits\<close>)
qed


lemma serve_denied:
  assumes "denied w rt msg"
  shows "serve env w (rt, msg) = (tokenUnauthorised, w)"
proof -
  from denied_policy_test[OF assms] obtain gate where g: "policy_test rt = Some gate" by auto
  from gate_denied[OF g, of w msg] assms show ?thesis
    by (simp add: serve_guarded[OF g] guarded_def)
qed

lemma serve_no_proxy_token:
  assumes "no_proxy_token w rt msg"
  shows "serve env w (rt, msg) = (no_policy, w)"
  using assms by (auto simp: no_proxy_token_def serve_GET_token serve_DELETE_token Let_def)

lemma serve_proxy_token:
  assumes "rt = GET_token \<or> rt = DELETE_token" and "\<not> no_proxy_token w rt msg"
  shows "statusCode (fst (serve env w (rt, msg))) = 200 \<or>
         statusCode (fst (serve env w (rt, msg))) = 204"
  using assms by (auto simp: no_proxy_token_def serve_GET_token serve_DELETE_token Let_def)

lemma session_request_None:
  "session_request env w rt msg = None \<longleftrightarrow> rt = GET_token \<or> rt = DELETE_token"
  by (cases rt) simp_all

lemma serve_nsoAuth:
  assumes "\<not> denied w rt msg" and "session_request env w rt msg = Some req"
  shows "serve env w (rt, msg) =
           (case nsoAuth env w req of
              (Inl res, w1) \<Rightarrow> (res, w1)
            | (Inr r, w1) \<Rightarrow> after_nsoAuth env rt req r w1)"
proof (cases "policy_test rt")
  case (Some gate)
  with assms(2) have r: "req = localAuth env w (authToken w (new_request msg))"
    by (cases rt) auto
  from gate_denied[OF Some, of w msg] assms(1) show ?thesis
    unfolding r by (simp add: serve_guarded[OF Some] guarded_def Let_def)
next
  case None
  with assms(2) have a: "rt = GET_auth \<or> rt = GET_tokens \<or> rt = POST_tokens \<or>
      rt = GET_webservice_token" and r: "req = new_request msg"
    by (cases rt; auto)+
  show ?thesis unfolding r by (simp add: serve_authenticated[OF a] authenticated_def)
qed

lemma serve_session_error:
  assumes "\<not> denied w rt msg" and "session_request env w rt msg = Some req"
    and "nintendoAccountSessionToken w req = Inl err"
  shows "serve env w (rt, msg) = (caught err, w)"
  using assms(3) by (simp add: serve_nsoAuth[OF assms(1,2)] nsoAuth_def)

lemma serve_getToken_error:
  assumes "\<not> denied w rt msg" and "session_request env w rt msg = Some req"
    and "nintendoAccountSessionToken w req = Inr token"
    and "fst (getToken env w token (zncProxyUrl (argv env))) = Inl err"
  shows "serve env w (rt, msg) =
           (caught err, snd (getToken env w token (zncProxyUrl (argv env))))"
  using assms(3,4)
  by (cases "getToken env w token (zncProxyUrl (argv env))")
     (simp add: serve_nsoAuth[OF assms(1,2)] nsoAuth_def)

lemma serve_status:
  assumes "\<not> denied w rt msg" and "\<not> no_proxy_token w rt msg"
  shows "statusCode (fst (serve env w (rt, msg))) = 200 \<or>
         statusCode (fst (serve env w (rt, msg))) = 204 \<or>
         (\<exists>err. fst (serve env w (rt, msg)) = caught err) \<or>
         (fst (serve env w (rt, msg)) = not_found \<and> (rt = GET_friend \<or> rt = GET_friend_presence))"
proof (cases "session_request env w rt msg")
  case None
  then have "rt = GET_token \<or> rt = DELETE_token" by (simp add: session_request_None)
  from serve_proxy_token[OF this assms(2)] show ?thesis by auto
next
  case (Some req)
  then have n: "rt \<noteq> GET_token" "rt \<noteq> DELETE_token" by auto
  obtain a w1 where s: "nsoAuth env w req = (a, w1)" by (cases "nsoAuth env w req")
  show ?thesis
  proof (cases a)
    case (Inl res)
    with s nsoAuth_Inl[of env w req res] show ?thesis
      by (auto simp: serve_nsoAuth[OF assms(1) Some])
  next
    case (Inr r)
    with s after_nsoAuth_status[OF n, of env req r w1] show ?thesis
      by (auto simp: serve_nsoAuth[OF assms(1) Some])
  qed
qed

lemma serve_403:
  assumes "statusCode (fst (serve env w (rt, msg))) = 403"
  shows "denied w rt msg \<or> no_proxy_token w rt msg"
proof (rule ccontr)
  assume "\<not> (denied w rt msg \<or> no_proxy_token w rt msg)"
  then have "\<not> denied w rt msg" "\<not> no_proxy_token w rt msg" by auto
  from serve_status[OF this, of env] assms show False by auto
qed

lemma serve_not_found:
  assumes "rt = GET_friend \<or> rt = GET_friend_presence" and "\<not> denied w rt msg"
    and "nsoAuth env w (localAuth env w (authToken w (new_request msg))) = (Inr r, w1)"
    and "getAppData env w1 r = (None, w2)"
    and "cached_appdata w2 (na_id (user (data r))) = Some (fl, ws, ae, u)"
    and "params_nsaid msg \<notin> nsaId ` set fl"
  shows "serve env w (rt, msg) = (not_found, w2)"
proof -
  have nf: "find (\<lambda>f. nsaId f = params_nsaid msg) fl = None"
    using assms(6) by (auto simp: find_None_iff image_iff)
  from assms(1) have s: "session_request env w rt msg =
      Some (localAuth env w (authToken w (new_request msg)))" by auto
  from assms(1,3,4,5) nf show ?thesis
    by (auto simp: serve_nsoAuth[OF assms(2) s] with_appdata_def friend_handler_def
        friend_presence_handler_def)
qed

lemma serve_simps:
  "serve env w (GET_auth, msg) = authenticated env (after_nsoAuth env GET_auth) w msg"
  "serve env w (GET_tokens, msg) = authenticated env (after_nsoAuth env GET_tokens) w msg"
  "serve env w (POST_tokens, msg) = authenticated env (after_nsoAuth env POST_tokens) w msg"
  "serve env w (GET_webservice_token, msg) =
     authenticated env (after_nsoAuth env GET_webservice_token) w msg"
  "serve env w (GET_announcements, msg) =
     guarded env gate_announcements (after_nsoAuth env GET_announcements) w msg"
  "serve env w (GET_friends, msg) =
     guarded env gate_list_friends (after_nsoAuth env GET_friends) w msg"
  "serve env w (GET_friends_presence, msg) =
     guarded env gate_list_friends_presence (after_nsoAuth env GET_friends_presence) w msg"
  "serve env w (GET_friend, msg) = guarded env gate_friend (after_nsoAuth env GET_friend) w msg"
  "serve env w (GET_friend_presence, msg) =
     guarded env gate_friend_presence (after_nsoAuth env GET_friend_presence) w msg"
  "serve env w (GET_webservices, msg) =
     guarded env gate_webservices (after_nsoAuth env GET_webservices) w msg"
  "serve env w (GET_activeevent, msg) =
     guarded env gate_activeevent (after_nsoAuth env GET_activeevent) w msg"
  "serve env w (GET_user, msg) =
     guarded env gate_current_user (after_nsoAuth env GET_user) w msg"
  "serve env w (GET_user_presence, msg) =
     guarded env gate_current_user_presence (after_nsoAuth env GET_user_presence) w msg"
  by (simp_all add: serve_guarded serve_authenticated)

lemmas http_defs =
  serve_simps serve_GET_token serve_DELETE_token guarded_def authenticated_def
  with_appdata_def with_userdata_def get_friends_presence_def
  authToken_def set_policy_def localAuth_def nsoAuth_def
  nintendoAccountSessionToken_def startsWith_def new_request_def gate_defs
  getAppData_def fetchAppData_def getUserData_def fetchUserData_def
  friends_handler_def friends_presence_handler_def friend_handler_def
  friend_presence_handler_def webservices_handler_def activeevent_handler_def
  user_handler_def user_presence_handler_def
  setItem_NintendoAccountIds_def setItem_ZncProxyAuthPolicy_def
  setItem_ZncProxyAuthPolicies_def removeItem_ZncProxyAuthPolicy_def new_Set_def
  Set_add_def Set_delete_def or_empty_def concat_str_def skipped_def
  ok_def caught_def tokenUnauthorised_def not_found_def no_policy_def Let_def

subsection \<open>The announcements cache\<close>

lemma keeps_refl: "cached_announcements w = Some cached \<Longrightarrow> keeps_announcements cached w w"
  by (simp add: keeps_announcements_def)

lemma keeps_trans:
  assumes "keeps_announcements cached w w1" and "keeps_announcements cached w1 w2"
  shows "keeps_announcements cached w w2"
proof -
  from assms obtain c1 c2 where "net w1 = net w @ c1" "\<forall>api. Net_getAnnouncements api \<notin> set c1"
    "net w2 = net w1 @ c2" "\<forall>api. Net_getAnnouncements api \<notin> set c2"
    by (auto simp: keeps_announcements_def)
  then have "net w2 = net w @ (c1 @ c2) \<and> (\<forall>api. Net_getAnnouncements api \<notin> set (c1 @ c2))"
    by simp
  with assms show ?thesis unfolding keeps_announcements_def by blast
qed

lemma keeps_cached: "keeps_announcements cached w w1 \<Longrightarrow> cached_announcements w1 = Some cached"
  by (simp add: keeps_announcements_def)

lemma safe_respond: "P res \<Longrightarrow> safe_step cached P (respond res)"
  by (simp add: safe_step_def respond_def keeps_refl safe_Done)

lemma safe_sync:
  assumes "\<And>w. cached_announcements w = Some cached \<Longrightarrow>
      keeps_announcements cached w (snd (op w)) \<and> safe_step cached P (k (fst (op w)))"
  shows "safe_step cached P (sync op k)"
  unfolding safe_step_def
proof (intro allI impI)
  fix w :: World
  assume c: "cached_announcements w = Some cached"
  obtain x w1 where o: "op w = (x, w1)" by (cases "op w")
  from assms[OF c] o have k1: "keeps_announcements cached w w1"
    and s: "safe_step cached P (k x)" by simp_all
  from s keeps_cached[OF k1] have "keeps_announcements cached w1 (snd (k x w1))"
    and "safe cached P (fst (k x w1))" by (simp_all add: safe_step_def)
  with keeps_trans[OF k1] o
  show "keeps_announcements cached w (snd (sync op k w)) \<and> safe cached P (fst (sync op k w))"
    by (simp add: sync_def)
qed

lemma safe_await:
  assumes "\<And>w. cached_announcements w = Some cached \<Longrightarrow>
      keeps_announcements cached w (snd (op w)) \<and> safe_step cached P (k (fst (op w)))"
  shows "safe_step cached P (await op k)"
proof -
  have "safe_step cached P (sync op k)" using assms by (rule safe_sync)
  then have "safe cached P (Await (sync op k))"
    by (intro safe_Await) (simp add: safe_step_def)
  moreover have "(\<lambda>w1. case op w1 of (x, w2) \<Rightarrow> k x w2) = sync op k"
    by (rule ext) (simp add: sync_def)
  ultimately show ?thesis by (simp add: safe_step_def await_def keeps_refl)
qed

lemma keeps_ops:
  "cached_announcements w = Some cached \<Longrightarrow> keeps_announcements cached w (snd (reading f w))"
  "cached_announcements w = Some cached \<Longrightarrow> keeps_announcements cached w (snd (getItem item w))"
  "cached_announcements w = Some cached \<Longrightarrow> keeps_announcements cached w (snd (Date_now env w))"
  "cached_announcements w = Some cached \<Longrightarrow> keeps_announcements cached w (snd (new_uuid env w))"
  by (simp_all add: op_defs keeps_announcements_def)

lemma keeps_doing:
  assumes "cached_announcements w = Some cached"
    and "cached_announcements (f w) = cached_announcements w" and "net (f w) = net w"
  shows "keeps_announcements cached w (snd (doing f w))"
  using assms by (simp add: op_defs keeps_announcements_def)

lemma keeps_fetch:
  assumes "cached_announcements w = Some cached" and "\<And>api. c \<noteq> Net_getAnnouncements api"
  shows "keeps_announcements cached w (snd (fetch c answer w))"
  using assms by (auto simp: op_defs call_def keeps_announcements_def)

lemmas setItem_defs =
  setItem_NsoToken_def setItem_NintendoAccountToken_def setItem_NintendoAccountIds_def
  setItem_ZncProxyAuthPolicy_def removeItem_ZncProxyAuthPolicy_def
  setItem_ZncProxyAuthPolicies_def

lemma createWithSessionToken_call_neq [simp]:
  "createWithSessionToken_call p t \<noteq> Net_getAnnouncements api"
  by (simp add: createWithSessionToken_call_def split: option.splits)

lemma safe_authenticate_step:
  assumes "\<And>res. safe_step cached P (return res)"
  shows "safe_step cached P (authenticate_step env token purl return)"
  unfolding authenticate_step_def
  by (auto intro!: safe_await safe_sync keeps_ops keeps_doing keeps_fetch assms
      simp: setItem_defs Let_def split: sum.splits prod.splits)


lemma safe_getToken_step:
  assumes "\<And>res. safe_step cached P (return res)"
  shows "safe_step cached P (getToken_step env token purl return)"
  unfolding getToken_step_def
  by (auto intro!: safe_await safe_sync keeps_ops keeps_doing safe_authenticate_step assms
      simp: setItem_defs Let_def split: option.splits)

lemma safe_authToken_step:
  assumes "\<And>req1. safe_step cached P (next req1)"
  shows "safe_step cached P (authToken_step req next)"
  unfolding authToken_step_def
  by (auto intro!: safe_await keeps_ops assms simp: Let_def split: option.splits)

lemma safe_localAuth_step:
  assumes "\<And>req1. safe_step cached P (next req1)"
  shows "safe_step cached P (localAuth_step env req next)"
  unfolding localAuth_step_def
  by (auto intro!: safe_await keeps_ops assms simp: Let_def split: option.splits)

lemma safe_nsoAuth_step:
  assumes "\<And>r. safe_step cached P (next r)" and "\<And>err. P (caught err)"
  shows "safe_step cached P (nsoAuth_step env req next)"
  unfolding nsoAuth_step_def nsoAuth_session_step_def
  by (auto intro!: safe_await safe_sync keeps_ops keeps_doing safe_getToken_step safe_respond
      assms simp: setItem_defs Let_def split: option.splits sum.splits)

lemma safe_getAppData_step:
  assumes "safe_step cached P next" and "\<And>err. P (caught err)"
  shows "safe_step cached P (getAppData_step env r next)"
  unfolding getAppData_step_def fetchAppData_step_def
  by (auto intro!: safe_await safe_sync keeps_ops keeps_doing keeps_fetch safe_respond assms
      simp: Let_def split: option.splits sum.splits prod.splits)

lemma safe_getUserData_step:
  assumes "safe_step cached P next" and "\<And>err. P (caught err)"
  shows "safe_step cached P (getUserData_step env r next)"
  unfolding getUserData_step_def fetchUserData_step_def
  by (auto intro!: safe_await safe_sync keeps_ops keeps_doing keeps_fetch safe_respond assms
      simp: Let_def split: option.splits sum.splits prod.splits)

lemma safe_getItems_ZncProxyAuthPolicy:
  assumes "\<And>tokens. safe_step cached P (next tokens)"
  shows "safe_step cached P (getItems_ZncProxyAuthPolicy token_ids tokens next)"
  by (induction token_ids arbitrary: tokens)
     (auto intro!: safe_await keeps_ops assms split: option.splits)

lemma safe_announcements_handler_step:
  assumes "P (ok (Body_announcements cached))"
  shows "safe_step cached P (announcements_handler_step env znc)"
  unfolding announcements_handler_step_def
  by (rule safe_sync) (simp add: keeps_refl reading_def safe_respond assms)

lemma gate_tokenUnauthorised:
  assumes "policy_test rt = Some gate" and "gate req = Some res"
  shows "res = tokenUnauthorised"
  using assms by (cases rt) (auto simp: gate_defs split: option.splits if_splits)

lemma safe_app:
  "safe_step cached (route_answer cached (rt, msg)) (app env (rt, msg))"
proof (cases rt)
  case GET_announcements
  have a: "announced cached (caught err)" "announced cached tokenUnauthorised"
    "announced cached (ok (Body_announcements cached))" for err
    by (auto simp: announced_def)
  have g: "res = tokenUnauthorised" if "gate_announcements req = Some res" for req res
    using gate_tokenUnauthorised[of GET_announcements gate_announcements req res] that
    by simp
  show ?thesis
    unfolding GET_announcements
    by (auto intro!: safe_authToken_step safe_localAuth_step safe_nsoAuth_step safe_respond
        safe_announcements_handler_step a dest!: g
        simp: route_answer_def get_announcements_step_def split: option.splits)
qed (auto intro!: safe_authToken_step safe_localAuth_step safe_nsoAuth_step safe_respond
      safe_getAppData_step safe_getUserData_step safe_await safe_sync keeps_ops keeps_doing
      keeps_fetch safe_getItems_ZncProxyAuthPolicy
      simp: route_answer_def get_auth_step_def get_token_step_def delete_token_step_def
      get_tokens_step_def post_tokens_step_def bodyParser_json_step_def get_friends_step_def
      get_friends_presence_step_def get_friend_step_def get_friend_presence_step_def
      get_webservices_step_def get_webservice_token_step_def get_activeevent_step_def
      get_user_step_def get_user_presence_step_def setItem_defs Let_def
      split: option.splits sum.splits)

lemma safe_request: "safe cached (route_answer cached rq) (request env rq)"
proof -
  obtain rt msg where rq: "rq = (rt, msg)" by (cases rq)
  from safe_app[of cached rt msg env] show ?thesis
    unfolding rq request_def by (intro safe_Await) (simp add: safe_step_def)
qed


lemma safe_AwaitD:
  assumes "safe cached P (Await k)" and "cached_announcements w = Some cached"
  shows "keeps_announcements cached w (snd (k w)) \<and> safe cached P (fst (k w))"
  using assms by (auto elim: safe.cases)

lemma safe_DoneD: "safe cached P (Done res) \<Longrightarrow> P res"
  by (auto elim: safe.cases)

lemma run_safe:
  assumes "safe cached P t" and "cached_announcements w = Some cached"
  shows "keeps_announcements cached w (snd (run t w)) \<and> P (fst (run t w))"
  using assms
proof (induction arbitrary: w rule: safe.induct)
  case (safe_Done res)
  then show ?case by (simp add: keeps_refl)
next
  case (safe_Await k)
  obtain t w1 where k: "k w = (t, w1)" by (cases "k w")
  from safe_Await.IH[OF safe_Await.prems] k
  have k1: "keeps_announcements cached w w1"
    and ih: "\<And>w'. cached_announcements w' = Some cached \<Longrightarrow>
      keeps_announcements cached w' (snd (run t w')) \<and> P (fst (run t w'))"
    by simp_all
  from ih[OF keeps_cached[OF k1]] keeps_trans[OF k1] k show ?case by simp
qed

lemma serve_cached:
  assumes "cached_announcements w = Some cached"
  shows "keeps_announcements cached w (snd (serve env w rq)) \<and>
         route_answer cached rq (fst (serve env w rq))"
  unfolding serve_def using run_safe[OF safe_request assms] .

lemma serve_all_cached:
  assumes "cached_announcements w = Some cached"
  shows "keeps_announcements cached w (snd (serve_all env w rqs)) \<and>
         (\<forall>(rq, res)\<in>set (zip rqs (fst (serve_all env w rqs))). route_answer cached rq res)"
  using assms
proof (induction rqs arbitrary: w)
  case Nil
  then show ?case by (simp add: keeps_refl)
next
  case (Cons rq rqs)
  obtain res w1 where s: "serve env w rq = (res, w1)" by (cases "serve env w rq")
  obtain ress w2 where a: "serve_all env w1 rqs = (ress, w2)" by (cases "serve_all env w1 rqs")
  from serve_cached[OF Cons.prems, of env rq] s
  have k: "keeps_announcements cached w w1" and hd: "route_answer cached rq res" by simp_all
  from Cons.IH[OF keeps_cached[OF k]] a have ih: "keeps_announcements cached w1 w2"
    "\<forall>(rq, res)\<in>set (zip rqs ress). route_answer cached rq res"
    by simp_all
  from keeps_trans[OF k ih(1)] ih(2) hd show ?case by (simp add: s a)
qed

lemma resume_cached:
  assumes "cached_announcements w = Some cached" and "length ts = length rqs"
    and "\<forall>i<length rqs. safe cached (route_answer cached (rqs ! i)) (ts ! i)"
  shows "keeps_announcements cached w (snd (resume j (ts, w))) \<and>
         length (fst (resume j (ts, w))) = length rqs \<and>
         (\<forall>i<length rqs. safe cached (route_answer cached (rqs ! i)) (fst (resume j (ts, w)) ! i))"
proof (cases "j < length ts")
  case False
  with assms show ?thesis by (simp add: keeps_refl)
next
  case True
  show ?thesis
  proof (cases "ts ! j")
    case (Done res)
    with True assms show ?thesis by (simp add: keeps_refl)
  next
    case (Await k)
    obtain t w1 where k: "k w = (t, w1)" by (cases "k w")
    from assms(2,3) True Await have "safe cached (route_answer cached (rqs ! j)) (Await k)"
      by auto
    from safe_AwaitD[OF this assms(1)] k
    have k1: "keeps_announcements cached w w1"
      and s: "safe cached (route_answer cached (rqs ! j)) t" by simp_all
    have "safe cached (route_answer cached (rqs ! i)) (ts[j := t] ! i)" if "i < length rqs" for i
      using that assms(2,3) s by (cases "i = j") simp_all
    with True Await k k1 assms(2) show ?thesis by simp
  qed
qed

lemma schedule_cached:
  assumes "cached_announcements w = Some cached" and "length ts = length rqs"
    and "\<forall>i<length rqs. safe cached (route_answer cached (rqs ! i)) (ts ! i)"
  shows "keeps_announcements cached w (snd (schedule order (ts, w))) \<and>
         length (fst (schedule order (ts, w))) = length rqs \<and>
         (\<forall>i<length rqs. safe cached (route_answer cached (rqs ! i))
            (fst (schedule order (ts, w)) ! i))"
  using assms
proof (induction order arbitrary: ts w)
  case Nil
  then show ?case by (simp add: schedule_def keeps_refl)
next
  case (Cons j order)
  obtain ts1 w1 where r: "resume j (ts, w) = (ts1, w1)" by (cases "resume j (ts, w)")
  from resume_cached[OF Cons.prems, of j] r
  have k: "keeps_announcements cached w w1" and l: "length ts1 = length rqs"
    and s: "\<forall>i<length rqs. safe cached (route_answer cached (rqs ! i)) (ts1 ! i)"
    by simp_all
  from Cons.IH[OF keeps_cached[OF k] l s] keeps_trans[OF k]
  have "keeps_announcements cached w (snd (schedule order (ts1, w1))) \<and>
      length (fst (schedule order (ts1, w1))) = length rqs \<and>
      (\<forall>i<length rqs. safe cached (route_answer cached (rqs ! i))
         (fst (schedule order (ts1, w1)) ! i))"
    by blast
  moreover have "schedule (j # order) (ts, w) = schedule order (ts1, w1)"
    unfolding schedule_def by (simp only: fold_simps r)
  ultimately show ?case by simp
qed

lemma schedule_requests_cached:
  assumes "cached_announcements w = Some cached"
  shows "keeps_announcements cached w (snd (schedule order (map (request env) rqs, w))) \<and>
         (\<forall>i<length rqs. \<forall>res.
            fst (schedule order (map (request env) rqs, w)) ! i = Done res \<longrightarrow>
            route_answer cached (rqs ! i) res)"
proof -
  have "\<forall>i<length rqs. safe cached (route_answer cached (rqs ! i)) (map (request env) rqs ! i)"
    by (simp add: safe_request)
  from schedule_cached[OF assms _ this, of order]
  have k: "keeps_announcements cached w (snd (schedule order (map (request env) rqs, w)))"
    and s: "\<And>i. i < length rqs \<Longrightarrow> safe cached (route_answer cached (rqs ! i))
         (fst (schedule order (map (request env) rqs, w)) ! i)"
    by simp_all
  have "route_answer cached (rqs ! i) res"
    if "i < length rqs" "fst (schedule order (map (request env) rqs, w)) ! i = Done res"
    for i res
    using s[OF that(1)] that(2) by (simp add: safe_DoneD)
  with k show ?thesis by blast
qed

subsection \<open>Proxy tokens\<close>

lemma getToken_frame:
  "cached_announcements (snd (getToken env w t p)) = cached_announcements w \<and>
   uuids (snd (getToken env w t p)) = uuids w \<and>
   ZncProxyAuthPolicy (storage (snd (getToken env w t p))) = ZncProxyAuthPolicy (storage w) \<and>
   ZncProxyAuthPolicies (storage (snd (getToken env w t p))) = ZncProxyAuthPolicies (storage w)"
  by (auto simp: getToken_def authenticate_def Date_now_def call_def setItem_NsoToken_def
      setItem_NintendoAccountToken_def Let_def split: option.splits sum.splits prod.splits)

lemma nsoAuth_frame:
  "cached_announcements (snd (nsoAuth env w req)) = cached_announcements w \<and>
   uuids (snd (nsoAuth env w req)) = uuids w \<and>
   ZncProxyAuthPolicy (storage (snd (nsoAuth env w req))) = ZncProxyAuthPolicy (storage w) \<and>
   ZncProxyAuthPolicies (storage (snd (nsoAuth env w req))) =
     ZncProxyAuthPolicies (storage w)"
proof (cases "nintendoAccountSessionToken w req")
  case (Inl err)
  then show ?thesis by (simp add: nsoAuth_def)
next
  case (Inr token)
  let ?g = "getToken env w token (zncProxyUrl (argv env))"
  obtain a w1 where g: "?g = (a, w1)" by (cases ?g)
  from getToken_frame[of env w token "zncProxyUrl (argv env)"] g
  have f: "cached_announcements w1 = cached_announcements w" "uuids w1 = uuids w"
    "ZncProxyAuthPolicy (storage w1) = ZncProxyAuthPolicy (storage w)"
    "ZncProxyAuthPolicies (storage w1) = ZncProxyAuthPolicies (storage w)"
    by auto
  show ?thesis
    using f by (cases a) (simp_all add: nsoAuth_def Inr g setItem_NintendoAccountIds_def Let_def)
qed

lemmas step_defs =
  request_def get_auth_step_def get_token_step_def delete_token_step_def
  get_tokens_step_def post_tokens_step_def bodyParser_json_step_def
  get_announcements_step_def announcements_handler_step_def get_friends_step_def
  get_friends_presence_step_def get_friend_step_def get_friend_presence_step_def
  get_webservices_step_def get_webservice_token_step_def get_activeevent_step_def
  get_user_step_def get_user_presence_step_def authToken_step_def localAuth_step_def
  nsoAuth_step_def nsoAuth_session_step_def getToken_step_def authenticate_step_def
  getAppData_step_def fetchAppData_step_def getUserData_step_def fetchUserData_step_def
  await_def sync_def respond_def op_defs schedule_def

lemma run_among_Await [simp]:
  "run_among (Await k) others w = run_among_step k (\<lambda>n. others (Suc n)) (others 0 w)"
  by (simp add: run_among_step_def split: prod.splits)

declare run_among.simps(2) [simp del]

lemma run_among_step_respond [simp]: "run_among_step (respond res) others w = (res, w)"
  by (simp add: run_among_step_def respond_def)

lemma run_among_step_sync [simp]:
  "run_among_step (sync op k) others w =
     (case op w of (x, w1) \<Rightarrow> run_among_step (k x) others w1)"
  by (simp add: run_among_step_def sync_def split: prod.splits)

lemma run_among_step_await [simp]:
  "run_among_step (await op k) others w =
     (case op (others 0 w) of (x, w1) \<Rightarrow> run_among_step (k x) (\<lambda>n. others (Suc n)) w1)"
  by (simp add: run_among_step_def await_def split: prod.splits)

lemma run_among_alone: "run_among t (\<lambda>n w. w) w = run t w"
proof (induction t arbitrary: w)
  case (Done res)
  show ?case by simp
next
  case (Await k)
  obtain t w1 where k: "k w = (t, w1)" by (cases "k w")
  then have "(t, w1) \<in> range k" by (metis rangeI)
  moreover have "t \<in> Basic_BNFs.fsts (t, w1)" by simp
  ultimately have "run_among t (\<lambda>n w. w) w1 = run t w1" by (rule Await.IH)
  with k show ?case by (simp add: run_among_step_def)
qed

lemma leave_shift: "leave_proxy_tokens others \<Longrightarrow> leave_proxy_tokens (\<lambda>n. others (Suc n))"
  by (simp add: leave_proxy_tokens_def)

lemma leave_tokens_of: "leave_proxy_tokens others \<Longrightarrow> tokens_of (others n w) = tokens_of w"
  by (simp add: leave_proxy_tokens_def tokens_of_def)

lemma steady_respond:
  assumes "\<And>w. tokens_of w = M \<Longrightarrow> Q (res, w)"
  shows "steady M Q (respond res)"
  using assms by (simp add: steady_def)

lemma steady_sync_gen:
  assumes "\<And>w. tokens_of w = M \<Longrightarrow>
      tokens_of (snd (op w)) = M' \<and> steady M' Q (k (fst (op w)))"
  shows "steady M Q (sync op k)"
  unfolding steady_def
proof (intro allI impI)
  fix others and w :: World
  assume h: "leave_proxy_tokens others \<and> tokens_of w = M"
  obtain x w1 where o: "op w = (x, w1)" by (cases "op w")
  from assms[of w] h o have "tokens_of w1 = M'" "steady M' Q (k x)" by simp_all
  with h o show "Q (run_among_step (sync op k) others w)" by (simp add: steady_def)
qed

lemma steady_await_gen:
  assumes "\<And>w. tokens_of w = M \<Longrightarrow>
      tokens_of (snd (op w)) = M' \<and> steady M' Q (k (fst (op w)))"
  shows "steady M Q (await op k)"
  unfolding steady_def
proof (intro allI impI)
  fix others and w :: World
  assume h: "leave_proxy_tokens others \<and> tokens_of w = M"
  then have m: "tokens_of (others 0 w) = M" by (simp add: leave_tokens_of)
  obtain x w1 where o: "op (others 0 w) = (x, w1)" by (cases "op (others 0 w)")
  from assms[OF m] o have "tokens_of w1 = M'" "steady M' Q (k x)" by simp_all
  with h o leave_shift[of others] show "Q (run_among_step (await op k) others w)"
    by (simp add: steady_def)
qed

lemma steady_sync:
  assumes "\<And>w. tokens_of (snd (op w)) = tokens_of w" and "\<And>x. steady M Q (k x)"
  shows "steady M Q (sync op k)"
  using assms by (intro steady_sync_gen[where M' = M]) simp

lemma steady_await:
  assumes "\<And>w. tokens_of (snd (op w)) = tokens_of w" and "\<And>x. steady M Q (k x)"
  shows "steady M Q (await op k)"
  using assms by (intro steady_await_gen[where M' = M]) simp

lemma tokens_of_ops:
  "tokens_of (snd (reading f w)) = tokens_of w"
  "tokens_of (snd (getItem item w)) = tokens_of w"
  "tokens_of (snd (Date_now env w)) = tokens_of w"
  "tokens_of (snd (new_uuid env w)) = tokens_of w"
  "tokens_of (snd (fetch c answer w)) = tokens_of w"
  "tokens_of (snd (doing (setItem_NsoToken t v) w)) = tokens_of w"
  "tokens_of (snd (doing (setItem_NintendoAccountToken u t) w)) = tokens_of w"
  "tokens_of (snd (doing (setItem_NintendoAccountIds ids) w)) = tokens_of w"
  "tokens_of (snd (doing (\<lambda>w. w) w)) = tokens_of w"
  by (simp_all add: op_defs call_def tokens_of_def setItem_defs)

lemma steady_authenticate_step:
  assumes "\<And>res. steady M Q (return res)"
  shows "steady M Q (authenticate_step env token purl return)"
  unfolding authenticate_step_def
  by (auto intro!: steady_await steady_sync assms tokens_of_ops
      simp: Let_def split: sum.splits prod.splits)

lemma steady_getToken_step:
  assumes "\<And>res. steady M Q (return res)"
  shows "steady M Q (getToken_step env token purl return)"
  unfolding getToken_step_def
  by (auto intro!: steady_await steady_sync steady_authenticate_step assms tokens_of_ops
      simp: Let_def split: option.splits)

lemma steady_nsoAuth_step:
  assumes "\<And>r. steady M Q (next r)" and "\<And>err w. tokens_of w = M \<Longrightarrow> Q (caught err, w)"
  shows "steady M Q (nsoAuth_step env req next)"
  unfolding nsoAuth_step_def nsoAuth_session_step_def
  by (auto intro!: steady_await steady_sync steady_getToken_step steady_respond assms
      tokens_of_ops simp: Let_def split: option.splits sum.splits)


lemma steady_post_tokens_step:
  "steady M
     (\<lambda>S. (\<exists>err. fst S = caught err \<and> tokens_of (snd S) = M) \<or>
          (\<exists>token auth. fst S = ok (Body_token token auth) \<and>
             policy auth = body_policy msg \<and>
             tokens_of (snd S) =
               ((fst M)(token \<mapsto> auth),
                (snd M)(auth_user auth \<mapsto>
                   Set_add token (new_Set (or_empty (snd M (auth_user auth))))))))
     (post_tokens_step env msg)"
  unfolding post_tokens_step_def Let_def
proof (rule steady_nsoAuth_step)
  fix r
  show "steady M
     (\<lambda>S. (\<exists>err. fst S = caught err \<and> tokens_of (snd S) = M) \<or>
          (\<exists>token auth. fst S = ok (Body_token token auth) \<and>
             policy auth = body_policy msg \<and>
             tokens_of (snd S) =
               ((fst M)(token \<mapsto> auth),
                (snd M)(auth_user auth \<mapsto>
                   Set_add token (new_Set (or_empty (snd M (auth_user auth))))))))
     (bodyParser_json_step
        (sync (new_uuid env)
           (\<lambda>token. sync (Date_now env)
              (\<lambda>now. await (doing (setItem_ZncProxyAuthPolicy token
                   \<lparr>auth_user = na_id (user (data r)),
                      policy = body_policy (new_request msg), created_at = now div 1000\<rparr>))
                 (\<lambda>_. await (getItem (\<lambda>s. ZncProxyAuthPolicies s (na_id (user (data r)))))
                    (\<lambda>stored. await (doing (setItem_ZncProxyAuthPolicies
                         (na_id (user (data r)))
                         (Set_add token (new_Set (or_empty stored)))))
                       (\<lambda>_. respond (ok (Body_token token
                          \<lparr>auth_user = na_id (user (data r)),
                             policy = body_policy (new_request msg),
                             created_at = now div 1000\<rparr>)))))))))"
    unfolding steady_def
  proof (intro allI impI)
    fix others and w :: World
    assume h: "leave_proxy_tokens others \<and> tokens_of w = M"
    let ?token = "uuidgen env (uuids (others 0 w))"
    let ?auth = "\<lparr>auth_user = na_id (user (data r)), policy = body_policy (new_request msg),
        created_at = clock env (ticks (others 0 w)) div 1000\<rparr>"
    from h show "(\<exists>err. fst (run_among_step (bodyParser_json_step
        (sync (new_uuid env)
           (\<lambda>token. sync (Date_now env)
              (\<lambda>now. await (doing (setItem_ZncProxyAuthPolicy token
                   \<lparr>auth_user = na_id (user (data r)),
                      policy = body_policy (new_request msg), created_at = now div 1000\<rparr>))
                 (\<lambda>_. await (getItem (\<lambda>s. ZncProxyAuthPolicies s (na_id (user (data r)))))
                    (\<lambda>stored. await (doing (setItem_ZncProxyAuthPolicies
                         (na_id (user (data r)))
                         (Set_add token (new_Set (or_empty stored)))))
                       (\<lambda>_. respond (ok (Body_token token
                          \<lparr>auth_user = na_id (user (data r)),
                             policy = body_policy (new_request msg),
                             created_at = now div 1000\<rparr>))))))))) others w) = caught err \<and>
          tokens_of (snd (run_among_step (bodyParser_json_step
        (sync (new_uuid env)
           (\<lambda>token. sync (Date_now env)
              (\<lambda>now. await (doing (setItem_ZncProxyAuthPolicy token
                   \<lparr>auth_user = na_id (user (data r)),
                      policy = body_policy (new_request msg), created_at = now div 1000\<rparr>))
                 (\<lambda>_. await (getItem (\<lambda>s. ZncProxyAuthPolicies s (na_id (user (data r)))))
                    (\<lambda>stored. await (doing (setItem_ZncProxyAuthPolicies
                         (na_id (user (data r)))
                         (Set_add token (new_Set (or_empty stored)))))
                       (\<lambda>_. respond (ok (Body_token token
                          \<lparr>auth_user = na_id (user (data r)),
                             policy = body_policy (new_request msg),
                             created_at = now div 1000\<rparr>))))))))) others w)) = M) \<or>
       (\<exists>token auth. fst (run_among_step (bodyParser_json_step
        (sync (new_uuid env)
           (\<lambda>token. sync (Date_now env)
              (\<lambda>now. await (doing (setItem_ZncProxyAuthPolicy token
                   \<lparr>auth_user = na_id (user (data r)),
                      policy = body_policy (new_request msg), created_at = now div 1000\<rparr>))
                 (\<lambda>_. await (getItem (\<lambda>s. ZncProxyAuthPolicies s (na_id (user (data r)))))
                    (\<lambda>stored. await (doing (setItem_ZncProxyAuthPolicies
                         (na_id (user (data r)))
                         (Set_add token (new_Set (or_empty stored)))))
                       (\<lambda>_. respond (ok (Body_token token
                          \<lparr>auth_user = na_id (user (data r)),
                             policy = body_policy (new_request msg),
                             created_at = now div 1000\<rparr>))))))))) others w) =
            ok (Body_token token auth) \<and>
          policy auth = body_policy msg \<and>
          tokens_of (snd (run_among_step (bodyParser_json_step
        (sync (new_uuid env)
           (\<lambda>token. sync (Date_now env)
              (\<lambda>now. await (doing (setItem_ZncProxyAuthPolicy token
                   \<lparr>auth_user = na_id (user (data r)),
                      policy = body_policy (new_request msg), created_at = now div 1000\<rparr>))
                 (\<lambda>_. await (getItem (\<lambda>s. ZncProxyAuthPolicies s (na_id (user (data r)))))
                    (\<lambda>stored. await (doing (setItem_ZncProxyAuthPolicies
                         (na_id (user (data r)))
                         (Set_add token (new_Set (or_empty stored)))))
                       (\<lambda>_. respond (ok (Body_token token
                          \<lparr>auth_user = na_id (user (data r)),
                             policy = body_policy (new_request msg),
                             created_at = now div 1000\<rparr>))))))))) others w)) =
            ((fst M)(token \<mapsto> auth),
             (snd M)(auth_user auth \<mapsto>
                Set_add token (new_Set (or_empty (snd M (auth_user auth)))))))"
      by (intro disjI2 exI[of _ ?token] exI[of _ ?auth])
         (auto simp: bodyParser_json_step_def op_defs tokens_of_def setItem_defs
           leave_proxy_tokens_def)
  qed
qed auto

lemma delete_token_among:
  assumes "leave_proxy_tokens others"
  shows "fst (run_among (request env (DELETE_token, msg)) others w) =
           fst (serve env w (DELETE_token, msg)) \<and>
         tokens_of (snd (run_among (request env (DELETE_token, msg)) others w)) =
           tokens_of (snd (serve env w (DELETE_token, msg)))"
  using assms
  by (auto simp: serve_DELETE_token request_def delete_token_step_def authToken_step_def
      authToken_def set_policy_def concat_str_def op_defs tokens_of_def setItem_defs
      leave_proxy_tokens_def Let_def split: option.splits)

lemma authToken_resolved:
  assumes "zncAuthPolicyToken (authToken w (new_request msg)) = Some token"
  shows "\<exists>auth. ZncProxyAuthPolicy (storage w) token = Some auth \<and>
           zncAuthPolicyUser (authToken w (new_request msg)) = Some (auth_user auth) \<and>
           zncAuthPolicy (authToken w (new_request msg)) = policy auth"
  using assms
  by (auto simp: authToken_def set_policy_def Let_def split: option.splits if_splits)

lemma post_tokens_storage:
  assumes "nsoAuth env w (new_request msg) = (Inr r, w1)"
  shows "ZncProxyAuthPolicy (storage (snd (serve env w (POST_tokens, msg)))) =
           (ZncProxyAuthPolicy (storage w))(uuidgen env (uuids w) \<mapsto>
              \<lparr>auth_user = na_id (user (data r)), policy = body_policy msg,
               created_at = clock env (ticks w1) div 1000\<rparr>)"
    and "ZncProxyAuthPolicies (storage (snd (serve env w (POST_tokens, msg)))) =
           (ZncProxyAuthPolicies (storage w))(na_id (user (data r)) \<mapsto>
              Set_add (uuidgen env (uuids w))
                (new_Set (or_empty (ZncProxyAuthPolicies (storage w) (na_id (user (data r)))))))"
  using assms nsoAuth_frame[of env w "new_request msg"]
  by (simp_all add: serve_simps authenticated_def Let_def Date_now_def
      setItem_ZncProxyAuthPolicy_def setItem_ZncProxyAuthPolicies_def)

lemma post_tokens_failed:
  assumes "nsoAuth env w (new_request msg) = (Inl res, w1)"
  shows "ZncProxyAuthPolicy (storage (snd (serve env w (POST_tokens, msg)))) =
           ZncProxyAuthPolicy (storage w)"
    and "ZncProxyAuthPolicies (storage (snd (serve env w (POST_tokens, msg)))) =
           ZncProxyAuthPolicies (storage w)"
  using assms nsoAuth_frame[of env w "new_request msg"]
  by (simp_all add: serve_simps authenticated_def)

lemma delete_token_storage:
  assumes "zncAuthPolicyToken (authToken w (new_request msg)) = Some token" and "token \<noteq> []"
    and "ZncProxyAuthPolicy (storage w) token = Some auth"
  shows "ZncProxyAuthPolicy (storage (snd (serve env w (DELETE_token, msg)))) =
           (ZncProxyAuthPolicy (storage w))(token := None)"
    and "ZncProxyAuthPolicies (storage (snd (serve env w (DELETE_token, msg)))) =
           (ZncProxyAuthPolicies (storage w))(auth_user auth \<mapsto>
              Set_delete token
                (new_Set (or_empty (ZncProxyAuthPolicies (storage w) (auth_user auth)))))"
  using assms authToken_resolved[OF assms(1)]
  by (simp_all add: serve_DELETE_token Let_def removeItem_ZncProxyAuthPolicy_def
      setItem_ZncProxyAuthPolicies_def concat_str_def)

lemma delete_token_no_policy:
  assumes "\<not> truthy_str (zncAuthPolicyToken (authToken w (new_request msg)))"
  shows "serve env w (DELETE_token, msg) = (no_policy, w)"
  using assms by (simp add: serve_DELETE_token)

text \<open>
  The two structures agree again once a token that had no entry has got one and has
  been put in the set of the user the entry names.
\<close>

lemma tokens_consistent_add:
  assumes "tokens_consistent s" and "ZncProxyAuthPolicy s token = None"
    and "ZncProxyAuthPolicy s' = (ZncProxyAuthPolicy s)(token \<mapsto> auth)"
    and "ZncProxyAuthPolicies s' = (ZncProxyAuthPolicies s)(auth_user auth \<mapsto>
           Set_add token (new_Set (or_empty (ZncProxyAuthPolicies s (auth_user auth)))))"
  shows "tokens_consistent s'"
  using assms unfolding tokens_consistent_def
  by (auto simp: or_empty_def split: option.splits if_splits)

lemma tokens_consistent_same:
  assumes "tokens_consistent s" and "ZncProxyAuthPolicy s' = ZncProxyAuthPolicy s"
    and "ZncProxyAuthPolicies s' = ZncProxyAuthPolicies s"
  shows "tokens_consistent s'"
  using assms by (simp add: tokens_consistent_def)

lemma tokens_consistent_post:
  assumes "tokens_consistent (storage w)"
    and "ZncProxyAuthPolicy (storage w) (uuidgen env (uuids w)) = None"
  shows "tokens_consistent (storage (snd (serve env w (POST_tokens, msg))))"
proof -
  obtain a w1 where n: "nsoAuth env w (new_request msg) = (a, w1)"
    by (cases "nsoAuth env w (new_request msg)")
  show ?thesis
  proof (cases a)
    case (Inl res)
    with n post_tokens_failed[of env w msg res w1] assms(1) show ?thesis
      by (simp add: tokens_consistent_def)
  next
    case (Inr r)
    with n have n': "nsoAuth env w (new_request msg) = (Inr r, w1)" by simp
    let ?auth = "\<lparr>auth_user = na_id (user (data r)), policy = body_policy msg,
        created_at = clock env (ticks w1) div 1000\<rparr>"
    from tokens_consistent_add[OF assms,
        of "storage (snd (serve env w (POST_tokens, msg)))" ?auth]
      post_tokens_storage[OF n']
    show ?thesis by simp
  qed
qed

lemma tokens_consistent_delete:
  assumes "tokens_consistent (storage w)"
  shows "tokens_consistent (storage (snd (serve env w (DELETE_token, msg))))"
proof (cases "truthy_str (zncAuthPolicyToken (authToken w (new_request msg)))")
  case False
  with assms show ?thesis by (simp add: delete_token_no_policy)
next
  case True
  then obtain token where t: "zncAuthPolicyToken (authToken w (new_request msg)) = Some token"
    "token \<noteq> []"
    by (cases "zncAuthPolicyToken (authToken w (new_request msg))") auto
  from authToken_resolved[OF t(1)] obtain auth where
    a: "ZncProxyAuthPolicy (storage w) token = Some auth" by blast
  have c: "t \<in> set (or_empty (ZncProxyAuthPolicies (storage w) u)) \<longleftrightarrow>
      (\<exists>b. ZncProxyAuthPolicy (storage w) t = Some b \<and> auth_user b = u)" for t u
    using assms by (simp add: tokens_consistent_def)
  note d = delete_token_storage[OF t a]
  show ?thesis
    unfolding tokens_consistent_def
  proof (intro allI)
    fix t u
    show "t \<in> set (or_empty (ZncProxyAuthPolicies
          (storage (snd (serve env w (DELETE_token, msg)))) u)) \<longleftrightarrow>
      (\<exists>b. ZncProxyAuthPolicy (storage (snd (serve env w (DELETE_token, msg)))) t = Some b \<and>
         auth_user b = u)"
    proof (cases "u = auth_user auth")
      case True
      then show ?thesis using c[of t u] a by (auto simp: d or_empty_def)
    next
      case False
      then show ?thesis using c[of t u] c[of token u] a by (auto simp: d)
    qed
  qed
qed

lemma post_tokens_among:
  assumes "leave_proxy_tokens others"
  shows "(\<exists>err. fst (run_among (request env (POST_tokens, msg)) others w) = caught err \<and>
            tokens_of (snd (run_among (request env (POST_tokens, msg)) others w)) =
              tokens_of w) \<or>
         (\<exists>token auth.
            fst (run_among (request env (POST_tokens, msg)) others w) =
              ok (Body_token token auth) \<and>
            policy auth = body_policy msg \<and>
            tokens_of (snd (run_among (request env (POST_tokens, msg)) others w)) =
              ((ZncProxyAuthPolicy (storage w))(token \<mapsto> auth),
               (ZncProxyAuthPolicies (storage w))(auth_user auth \<mapsto>
                  Set_add token
                    (new_Set (or_empty (ZncProxyAuthPolicies (storage w) (auth_user auth)))))))"
proof -
  have l: "leave_proxy_tokens (\<lambda>n. others (Suc n))" using assms by (rule leave_shift)
  have t: "tokens_of (others 0 w) = tokens_of w" using assms by (rule leave_tokens_of)
  from steady_post_tokens_step[of "tokens_of w" msg env] l t
  show ?thesis
    by (simp add: steady_def request_def tokens_of_def)
qed

section \<open>The HTTP server: statuses, policies, caches\<close>

text \<open>
  C6, as the code has it. On every route that answers with JSON, for a request served
  with no other request's step between its own. A message whose resolved policy the
  policy test of the route denies is answered 403 with the code \<^verbatim>\<open>token_unauthorised\<close>,
  and a message to one of the two routes of a proxy token that presents no proxy token
  that resolves is answered 403 with the code \<^verbatim>\<open>no_policy\<close>; in both cases nothing
  else happens, and 403 has no other cause. Every error thrown while \<^verbatim>\<open>nsoAuth\<close>
  looks for the session token, and every error \<^verbatim>\<open>getToken\<close> throws for it, is
  answered 500 with the caught error as the body. The calls made upstream while the
  request is served are the calls added to the log, and every one of them that threw
  is what the answer carries, with status 500. When the policy test, \<^verbatim>\<open>nsoAuth\<close> and
  \<^verbatim>\<open>getAppData\<close> pass on one of the two routes of one friend and the cached friend
  list has no friend of the requested id, the answer is 404 with the code
  \<^verbatim>\<open>not_found\<close>; 404 has no other cause, and every answer with status 500 carries a
  caught error.
\<close>

theorem proxy_failure_status:
  "(denied w rt msg \<longrightarrow> serve env w (rt, msg) = (tokenUnauthorised, w)) \<and>
   (no_proxy_token w rt msg \<longrightarrow> serve env w (rt, msg) = (no_policy, w)) \<and>
   (statusCode (fst (serve env w (rt, msg))) = 403 \<longrightarrow>
      denied w rt msg \<or> no_proxy_token w rt msg) \<and>
   (\<forall>req err. \<not> denied w rt msg \<and> session_request env w rt msg = Some req \<and>
      nintendoAccountSessionToken w req = Inl err \<longrightarrow>
      serve env w (rt, msg) = (caught err, w)) \<and>
   (\<forall>req token err. \<not> denied w rt msg \<and> session_request env w rt msg = Some req \<and>
      nintendoAccountSessionToken w req = Inr token \<and>
      fst (getToken env w token (zncProxyUrl (argv env))) = Inl err \<longrightarrow>
      fst (serve env w (rt, msg)) = caught err) \<and>
   net (snd (serve env w (rt, msg))) = net w @ calls_since w (snd (serve env w (rt, msg))) \<and>
   (\<forall>emsg\<in>set (upstream_failures env w (snd (serve env w (rt, msg)))).
      fst (serve env w (rt, msg)) = caught (Thrown emsg)) \<and>
   (\<forall>r w1 w2 fl ws ae u. (rt = GET_friend \<or> rt = GET_friend_presence) \<and>
      \<not> denied w rt msg \<and>
      nsoAuth env w (localAuth env w (authToken w (new_request msg))) = (Inr r, w1) \<and>
      getAppData env w1 r = (None, w2) \<and>
      cached_appdata w2 (na_id (user (data r))) = Some (fl, ws, ae, u) \<and>
      params_nsaid msg \<notin> nsaId ` set fl \<longrightarrow>
      serve env w (rt, msg) = (not_found, w2)) \<and>
   (statusCode (fst (serve env w (rt, msg))) = 404 \<longrightarrow>
      fst (serve env w (rt, msg)) = not_found \<and> (rt = GET_friend \<or> rt = GET_friend_presence)) \<and>
   (statusCode (fst (serve env w (rt, msg))) = 500 \<longrightarrow>
      (\<exists>err. fst (serve env w (rt, msg)) = caught err))"
proof -
  have st: "statusCode (fst (serve env w (rt, msg))) = 403 \<or>
      statusCode (fst (serve env w (rt, msg))) = 200 \<or>
      statusCode (fst (serve env w (rt, msg))) = 204 \<or>
      (\<exists>err. fst (serve env w (rt, msg)) = caught err) \<or>
      (fst (serve env w (rt, msg)) = not_found \<and> (rt = GET_friend \<or> rt = GET_friend_presence))"
    using serve_status[of w rt msg env] serve_denied[of w rt msg env]
      serve_no_proxy_token[of w rt msg env]
    by (cases "denied w rt msg"; cases "no_proxy_token w rt msg") auto
  have c404: "statusCode (fst (serve env w (rt, msg))) = 404 \<longrightarrow>
      fst (serve env w (rt, msg)) = not_found \<and> (rt = GET_friend \<or> rt = GET_friend_presence)"
    using st by auto
  have c500: "statusCode (fst (serve env w (rt, msg))) = 500 \<longrightarrow>
      (\<exists>err. fst (serve env w (rt, msg)) = caught err)"
    using st by auto
  have e2: "fst (serve env w (rt, msg)) = caught err"
    if "\<not> denied w rt msg" "session_request env w rt msg = Some req"
      "nintendoAccountSessionToken w req = Inr token"
      "fst (getToken env w token (zncProxyUrl (argv env))) = Inl err" for req token err
    using serve_getToken_error[OF that] by simp
  note up = sound_upstream_failures[OF serve_sound[of env w rt msg]]
  show ?thesis
    using serve_denied[of w rt msg env] serve_no_proxy_token[of w rt msg env]
      serve_403[of env w rt msg] serve_session_error[of w rt msg env] e2 up
      serve_not_found[of rt w msg env] c404 c500
    by blast
qed

theorem proxy_failure_status_witness:
  "denied demo_proxy_world GET_friend demo_req_denied \<and>
   serve demo_env demo_proxy_world (GET_friend, demo_req_denied) =
     (\<lparr>statusCode = 403, body = Body_error ''token_unauthorised'' None\<rparr>, demo_proxy_world) \<and>
   no_proxy_token demo_world DELETE_token demo_req_unknown \<and>
   serve demo_env demo_world (DELETE_token, demo_req_unknown) =
     (\<lparr>statusCode = 403, body = Body_error ''no_policy'' None\<rparr>, demo_world) \<and>
   \<not> denied demo_world GET_friends demo_req_unknown \<and>
   serve demo_env demo_world (GET_friends, demo_req_unknown) =
     (\<lparr>statusCode = 500, body = Body_thrown Requires_authentication\<rparr>, demo_world) \<and>
   \<not> denied demo_world GET_auth demo_req_other \<and>
   fst (serve demo_env demo_world (GET_auth, demo_req_other)) =
     \<lparr>statusCode = 500, body = Body_thrown Invalid_audience\<rparr> \<and>
   upstream_failures demo_env_webservices_down demo_world
     (snd (serve demo_env_webservices_down demo_world (GET_activeevent, demo_req_na))) =
     [''unavailable''] \<and>
   fst (serve demo_env_webservices_down demo_world (GET_activeevent, demo_req_na)) =
     \<lparr>statusCode = 500, body = Body_thrown (Thrown ''unavailable'')\<rparr> \<and>
   \<not> denied demo_world GET_friend_presence demo_req_absent \<and>
   fst (serve demo_env demo_world (GET_friend_presence, demo_req_absent)) =
     \<lparr>statusCode = 404, body = Body_error ''not_found''
        (Some ''The user is not friends with the authenticated user.'')\<rparr>"
proof -
  let ?r = "\<lparr>nso = ZncApi ''access'', data = demo_data\<lparr>expires_at := 1003600001\<rparr>\<rparr>"
  have d: "denied demo_proxy_world GET_friend demo_req_denied"
    by (simp add: denied_def http_defs demo_defs)
  from proxy_failure_status[of demo_proxy_world GET_friend demo_req_denied demo_env] d
  have r1: "serve demo_env demo_proxy_world (GET_friend, demo_req_denied) =
      (tokenUnauthorised, demo_proxy_world)"
    by blast
  have n: "no_proxy_token demo_world DELETE_token demo_req_unknown"
    by (simp add: no_proxy_token_def http_defs demo_defs)
  from proxy_failure_status[of demo_world DELETE_token demo_req_unknown demo_env] n
  have r2: "serve demo_env demo_world (DELETE_token, demo_req_unknown) = (no_policy, demo_world)"
    by blast
  have n3: "\<not> denied demo_world GET_friends demo_req_unknown"
    by (simp add: denied_def http_defs demo_defs)
  let ?q3 = "localAuth demo_env demo_world (authToken demo_world (new_request demo_req_unknown))"
  have s3: "session_request demo_env demo_world GET_friends demo_req_unknown = Some ?q3"
    by simp
  have e3: "nintendoAccountSessionToken demo_world ?q3 = Inl Requires_authentication"
    by (simp add: http_defs demo_defs)
  from proxy_failure_status[of demo_world GET_friends demo_req_unknown demo_env] n3 s3 e3
  have r3: "serve demo_env demo_world (GET_friends, demo_req_unknown) =
      (caught Requires_authentication, demo_world)"
    by blast
  have n4: "\<not> denied demo_world GET_auth demo_req_other"
    by (simp add: denied_def http_defs demo_defs)
  have s4: "session_request demo_env demo_world GET_auth demo_req_other =
      Some (new_request demo_req_other)"
    by simp
  have t4: "nintendoAccountSessionToken demo_world (new_request demo_req_other) = Inr ''other''"
    by (simp add: http_defs demo_defs)
  have e4: "fst (getToken demo_env demo_world ''other'' (zncProxyUrl (argv demo_env))) =
      Inl Invalid_audience"
    by (simp add: getToken_defs demo_defs)
  from proxy_failure_status[of demo_world GET_auth demo_req_other demo_env] n4 s4 t4 e4
  have r4: "fst (serve demo_env demo_world (GET_auth, demo_req_other)) = caught Invalid_audience"
    by blast
  let ?s5 = "serve demo_env_webservices_down demo_world (GET_activeevent, demo_req_na)"
  have u5: "upstream_failures demo_env_webservices_down demo_world (snd ?s5) = [''unavailable'']"
    by (simp add: upstream_failures_def calls_since_def thrown_def http_defs getToken_defs
        demo_defs)
  from proxy_failure_status[of demo_world GET_activeevent demo_req_na demo_env_webservices_down]
  have "\<forall>emsg\<in>set (upstream_failures demo_env_webservices_down demo_world (snd ?s5)).
      fst ?s5 = caught (Thrown emsg)"
    by blast
  then have r5: "fst ?s5 = caught (Thrown ''unavailable'')"
    unfolding u5 by simp
  have n6: "\<not> denied demo_world GET_friend_presence demo_req_absent"
    by (simp add: denied_def http_defs demo_defs)
  let ?a6 = "nsoAuth demo_env demo_world
      (localAuth demo_env demo_world (authToken demo_world (new_request demo_req_absent)))"
  have a6: "?a6 = (Inr ?r, snd ?a6)"
    by (rule prod_eqI) (simp_all add: http_defs getToken_defs demo_defs)
  let ?g6 = "getAppData demo_env (snd ?a6) ?r"
  have g6: "?g6 = (None, snd ?g6)"
    by (rule prod_eqI) (simp_all add: http_defs getToken_defs demo_defs)
  have c6: "cached_appdata (snd ?g6) (na_id (user (data ?r))) =
      Some (demo_friends, [], JSON ''{}'', 1000000002)"
    by (simp add: http_defs getToken_defs demo_defs)
  have f6: "params_nsaid demo_req_absent \<notin> nsaId ` set demo_friends"
    by (simp add: demo_defs)
  from proxy_failure_status[of demo_world GET_friend_presence demo_req_absent demo_env]
    n6 a6 g6 c6 f6
  have r6: "serve demo_env demo_world (GET_friend_presence, demo_req_absent) =
      (not_found, snd ?g6)"
    by blast
  from d r1 n r2 n3 r3 n4 r4 u5 r5 n6 r6 show ?thesis
    by (simp add: tokenUnauthorised_def no_policy_def caught_def not_found_def)
qed

text \<open>
  The claim as written fails: a message that presents a proxy token the server never
  issued, and one that presents a session token issued for another client, are both
  answered 500, with the caught error as the body, not 403 with a code.
\<close>

theorem token_failure_counterexample:
  "fst (serve demo_env demo_world (GET_friend, demo_req_unknown)) =
     \<lparr>statusCode = 500, body = Body_thrown Requires_authentication\<rparr> \<and>
   fst (serve demo_env demo_world (GET_friend, demo_req_other)) =
     \<lparr>statusCode = 500, body = Body_thrown Invalid_audience\<rparr>"
  by (simp add: http_defs getToken_defs demo_defs)

text \<open>
  C7. When the policy resolved for a message has a presence allowlist
  (\<^verbatim>\<open>friends_presence\<close> if present, otherwise \<^verbatim>\<open>friends\<close>) and the presence route
  answers with a presence object, every key of the object is in the allowlist, and
  its value is the presence of a cached friend with that id.
\<close>

theorem friends_presence_allowlist:
  assumes "zncAuthPolicy (authToken w (new_request msg)) = Some p"
    and "presence_allowlist p = Some allowed"
    and "body (fst (get_friends_presence env w msg)) = Body_presence m"
  shows "dom m \<subseteq> set allowed \<and>
         (\<forall>k v. m k = Some v \<longrightarrow>
            (\<exists>uid fl ws ae u. cached_appdata (snd (get_friends_presence env w msg)) uid =
                 Some (fl, ws, ae, u) \<and>
               (\<exists>f\<in>set fl. nsaId f = k \<and> presence f = v \<and> nsaId f \<in> set allowed)))"
proof (cases rule: get_friends_presence_cases[of env w msg])
  case denied
  with assms(3) show ?thesis by (simp add: tokenUnauthorised_def)
next
  case (failed err w1)
  with assms(3) show ?thesis by (simp add: caught_def)
next
  case (served uid w1 fl ws ae u)
  with assms have m: "m = presence_loop (Some p) fl Map.empty" by (simp add: ok_def)
  have e: "\<exists>f\<in>set fl. nsaId f = k \<and> presence f = v \<and> nsaId f \<in> set allowed"
    if "m k = Some v" for k v
    using presence_loop_entry[of "Some p" fl Map.empty k v] that m
      not_skipped_allowed[OF assms(2)]
    by auto
  have "dom m \<subseteq> set allowed" using e by auto
  moreover have "\<exists>uid fl ws ae u. cached_appdata (snd (get_friends_presence env w msg)) uid =
                 Some (fl, ws, ae, u) \<and>
               (\<exists>f\<in>set fl. nsaId f = k \<and> presence f = v \<and> nsaId f \<in> set allowed)"
    if "m k = Some v" for k v
    using e[OF that] served by simp blast
  ultimately show ?thesis by blast
qed

theorem friends_presence_allowlist_witness:
  "zncAuthPolicy (authToken demo_proxy_world (new_request demo_req_bearer)) =
     Some demo_policy \<and>
   presence_allowlist demo_policy = Some [''bbbb''] \<and>
   body (fst (get_friends_presence demo_env demo_proxy_world demo_req_bearer)) =
     Body_presence [''bbbb'' \<mapsto> JSON ''offline''] \<and>
   dom [''bbbb'' \<mapsto> JSON ''offline''] \<subseteq> set [''bbbb'']"
proof -
  have p: "zncAuthPolicy (authToken demo_proxy_world (new_request demo_req_bearer)) =
      Some demo_policy"
    by (simp add: http_defs demo_defs)
  have a: "presence_allowlist demo_policy = Some [''bbbb'']"
    by (simp add: presence_allowlist_def demo_defs)
  have b: "body (fst (get_friends_presence demo_env demo_proxy_world demo_req_bearer)) =
      Body_presence [''bbbb'' \<mapsto> JSON ''offline'']"
    by (simp add: http_defs getToken_defs demo_defs)
  from friends_presence_allowlist[OF p a b] p a b show ?thesis by blast
qed

text \<open>
  C8. Each of the four handlers of the event stream writes three chunks: the line
  \<^verbatim>\<open>event: \<close> with its code, 0 for \<^verbatim>\<open>onFriendOnline\<close>, 1 for
  \<^verbatim>\<open>onFriendOffline\<close>, 2 for \<^verbatim>\<open>onFriendPlayingChangeTitle\<close>, 3 for
  \<^verbatim>\<open>onFriendTitleStateChange\<close>; the line \<^verbatim>\<open>data: \<close> with the JSON of the subject's
  id, its presence and the previous presence; and an empty line.
\<close>

theorem event_stream_frames:
  "onFriendOnline stringify f prev res =
     res @ [''event: 0'' @ [CHR 0x0A],
            ''data: '' @ stringify \<lparr>data_id = nsaId f, data_presence = presence f,
               data_prev = map_option presence prev\<rparr> @ [CHR 0x0A],
            [CHR 0x0A]] \<and>
   onFriendOffline stringify f prev res =
     res @ [''event: 1'' @ [CHR 0x0A],
            ''data: '' @ stringify \<lparr>data_id = nsaId f, data_presence = presence f,
               data_prev = map_option presence prev\<rparr> @ [CHR 0x0A],
            [CHR 0x0A]] \<and>
   onFriendPlayingChangeTitle stringify f prev res =
     res @ [''event: 2'' @ [CHR 0x0A],
            ''data: '' @ stringify \<lparr>data_id = nsaId f, data_presence = presence f,
               data_prev = map_option presence prev\<rparr> @ [CHR 0x0A],
            [CHR 0x0A]] \<and>
   onFriendTitleStateChange stringify f prev res =
     res @ [''event: 3'' @ [CHR 0x0A],
            ''data: '' @ stringify \<lparr>data_id = nsaId f, data_presence = presence f,
               data_prev = map_option presence prev\<rparr> @ [CHR 0x0A],
            [CHR 0x0A]]"
  by (simp add: onFriendOnline_def onFriendOffline_def onFriendPlayingChangeTitle_def
      onFriendTitleStateChange_def sendEvent_def event_data_def)

text \<open>
  C9, as the code has it. Creating a proxy token, with no other request's step between
  the steps of the creation, writes its entry, naming the user and the posted policy,
  and puts the token in that user's set; revoking a token that resolves removes its
  entry and takes it out of the set of the user its entry named. While other requests
  are served between the steps of the operation, as long as what they do writes no
  entry and no set of proxy tokens: a creation that answers with a token that had no
  entry leaves the two structures in agreement, the token with its entry and in the set
  of the user the entry names; a revocation leaves them in agreement, and does to them
  what it does when it runs alone. So do both when they run alone.
\<close>

theorem proxy_tokens_consistent:
  "(\<forall>r w1. nsoAuth env w (new_request msg) = (Inr r, w1) \<longrightarrow>
      (\<exists>auth. ZncProxyAuthPolicy (storage (snd (serve env w (POST_tokens, msg))))
                (uuidgen env (uuids w)) = Some auth \<and>
              auth_user auth = na_id (user (data r)) \<and> policy auth = body_policy msg) \<and>
      uuidgen env (uuids w) \<in> set (or_empty (ZncProxyAuthPolicies
         (storage (snd (serve env w (POST_tokens, msg)))) (na_id (user (data r)))))) \<and>
   (\<forall>token auth. zncAuthPolicyToken (authToken w (new_request msg)) = Some token \<and>
        token \<noteq> [] \<and> ZncProxyAuthPolicy (storage w) token = Some auth \<longrightarrow>
      ZncProxyAuthPolicy (storage (snd (serve env w (DELETE_token, msg)))) token = None \<and>
      token \<notin> set (or_empty (ZncProxyAuthPolicies
         (storage (snd (serve env w (DELETE_token, msg)))) (auth_user auth)))) \<and>
   (leave_proxy_tokens others \<and> tokens_consistent (storage w) \<and>
      (\<forall>token auth. fst (run_among (request env (POST_tokens, msg)) others w) =
           ok (Body_token token auth) \<longrightarrow>
         ZncProxyAuthPolicy (storage w) token = None) \<longrightarrow>
      tokens_consistent (storage (snd (run_among (request env (POST_tokens, msg)) others w))) \<and>
      (\<forall>token auth. fst (run_among (request env (POST_tokens, msg)) others w) =
           ok (Body_token token auth) \<longrightarrow>
         ZncProxyAuthPolicy (storage (snd (run_among (request env (POST_tokens, msg)) others w)))
           token = Some auth \<and>
         policy auth = body_policy msg \<and>
         token \<in> set (or_empty (ZncProxyAuthPolicies
           (storage (snd (run_among (request env (POST_tokens, msg)) others w)))
           (auth_user auth))))) \<and>
   (leave_proxy_tokens others \<and> tokens_consistent (storage w) \<longrightarrow>
      tokens_consistent (storage (snd (run_among (request env (DELETE_token, msg)) others w))) \<and>
      fst (run_among (request env (DELETE_token, msg)) others w) =
        fst (serve env w (DELETE_token, msg)) \<and>
      ZncProxyAuthPolicy (storage (snd (run_among (request env (DELETE_token, msg)) others w))) =
        ZncProxyAuthPolicy (storage (snd (serve env w (DELETE_token, msg)))) \<and>
      ZncProxyAuthPolicies (storage (snd (run_among (request env (DELETE_token, msg)) others w))) =
        ZncProxyAuthPolicies (storage (snd (serve env w (DELETE_token, msg))))) \<and>
   (tokens_consistent (storage w) \<and>
      ZncProxyAuthPolicy (storage w) (uuidgen env (uuids w)) = None \<longrightarrow>
      tokens_consistent (storage (snd (serve env w (POST_tokens, msg))))) \<and>
   (tokens_consistent (storage w) \<longrightarrow>
      tokens_consistent (storage (snd (serve env w (DELETE_token, msg)))))"
proof -
  let ?P = "run_among (request env (POST_tokens, msg)) others w"
  let ?D = "run_among (request env (DELETE_token, msg)) others w"
  have c1: "\<forall>r w1. nsoAuth env w (new_request msg) = (Inr r, w1) \<longrightarrow>
      (\<exists>auth. ZncProxyAuthPolicy (storage (snd (serve env w (POST_tokens, msg))))
                (uuidgen env (uuids w)) = Some auth \<and>
              auth_user auth = na_id (user (data r)) \<and> policy auth = body_policy msg) \<and>
      uuidgen env (uuids w) \<in> set (or_empty (ZncProxyAuthPolicies
         (storage (snd (serve env w (POST_tokens, msg)))) (na_id (user (data r)))))"
    by (simp add: post_tokens_storage or_empty_def)
  have c2: "\<forall>token auth. zncAuthPolicyToken (authToken w (new_request msg)) = Some token \<and>
        token \<noteq> [] \<and> ZncProxyAuthPolicy (storage w) token = Some auth \<longrightarrow>
      ZncProxyAuthPolicy (storage (snd (serve env w (DELETE_token, msg)))) token = None \<and>
      token \<notin> set (or_empty (ZncProxyAuthPolicies
         (storage (snd (serve env w (DELETE_token, msg)))) (auth_user auth)))"
    by (simp add: delete_token_storage or_empty_def)
  have c3: "tokens_consistent (storage (snd ?P)) \<and>
      (\<forall>token auth. fst ?P = ok (Body_token token auth) \<longrightarrow>
         ZncProxyAuthPolicy (storage (snd ?P)) token = Some auth \<and>
         policy auth = body_policy msg \<and>
         token \<in> set (or_empty (ZncProxyAuthPolicies (storage (snd ?P)) (auth_user auth))))"
    if l: "leave_proxy_tokens others" and c: "tokens_consistent (storage w)"
      and f: "\<forall>token auth. fst ?P = ok (Body_token token auth) \<longrightarrow>
         ZncProxyAuthPolicy (storage w) token = None"
  proof -
    from post_tokens_among[OF l, of env msg w] show ?thesis
    proof (elim disjE exE conjE)
      fix err
      assume "fst ?P = caught err" and "tokens_of (snd ?P) = tokens_of w"
      with c show ?thesis
        by (auto simp: tokens_of_def caught_def ok_def intro: tokens_consistent_same)
    next
      fix token auth
      assume r: "fst ?P = ok (Body_token token auth)" and p: "policy auth = body_policy msg"
        and t: "tokens_of (snd ?P) =
          ((ZncProxyAuthPolicy (storage w))(token \<mapsto> auth),
           (ZncProxyAuthPolicies (storage w))(auth_user auth \<mapsto>
              Set_add token
                (new_Set (or_empty (ZncProxyAuthPolicies (storage w) (auth_user auth))))))"
      from f r have n: "ZncProxyAuthPolicy (storage w) token = None" by blast
      from t have e: "ZncProxyAuthPolicy (storage (snd ?P)) =
          (ZncProxyAuthPolicy (storage w))(token \<mapsto> auth)"
        and m: "ZncProxyAuthPolicies (storage (snd ?P)) =
          (ZncProxyAuthPolicies (storage w))(auth_user auth \<mapsto>
              Set_add token
                (new_Set (or_empty (ZncProxyAuthPolicies (storage w) (auth_user auth)))))"
        by (simp_all add: tokens_of_def)
      from tokens_consistent_add[OF c n e m] r p e m show ?thesis
        by (simp add: ok_def or_empty_def)
    qed
  qed
  have c4: "tokens_consistent (storage (snd ?D)) \<and>
      fst ?D = fst (serve env w (DELETE_token, msg)) \<and>
      ZncProxyAuthPolicy (storage (snd ?D)) =
        ZncProxyAuthPolicy (storage (snd (serve env w (DELETE_token, msg)))) \<and>
      ZncProxyAuthPolicies (storage (snd ?D)) =
        ZncProxyAuthPolicies (storage (snd (serve env w (DELETE_token, msg))))"
    if l: "leave_proxy_tokens others" and c: "tokens_consistent (storage w)"
    using delete_token_among[OF l, of env msg w] tokens_consistent_delete[OF c, of env msg]
    by (auto simp: tokens_of_def intro: tokens_consistent_same)
  have c5: "tokens_consistent (storage w) \<and>
      ZncProxyAuthPolicy (storage w) (uuidgen env (uuids w)) = None \<longrightarrow>
      tokens_consistent (storage (snd (serve env w (POST_tokens, msg))))"
    by (simp add: tokens_consistent_post)
  have c6: "tokens_consistent (storage w) \<longrightarrow>
      tokens_consistent (storage (snd (serve env w (DELETE_token, msg))))"
    by (simp add: tokens_consistent_delete)
  from c1 c2 c3 c4 c5 c6 show ?thesis by blast
qed

theorem proxy_tokens_consistent_witness:
  "tokens_consistent (storage demo_world) \<and>
   ZncProxyAuthPolicy (storage demo_world) (uuidgen demo_env (uuids demo_world)) = None \<and>
   uuidgen demo_env (uuids demo_world) = ''u'' \<and>
   (\<exists>auth. ZncProxyAuthPolicy (storage (snd (serve demo_env demo_world
             (POST_tokens, demo_req_post)))) ''u'' = Some auth \<and>
           auth_user auth = ''user1'' \<and> policy auth = Some demo_policy) \<and>
   ''u'' \<in> set (or_empty (ZncProxyAuthPolicies
      (storage (snd (serve demo_env demo_world (POST_tokens, demo_req_post)))) ''user1'')) \<and>
   tokens_consistent (storage (snd (serve demo_env demo_world (POST_tokens, demo_req_post)))) \<and>
   tokens_consistent (storage demo_proxy_world) \<and>
   zncAuthPolicyToken (authToken demo_proxy_world (new_request demo_req_bearer)) =
     Some ''tok'' \<and>
   ZncProxyAuthPolicy (storage (snd (serve demo_env demo_proxy_world
     (DELETE_token, demo_req_bearer)))) ''tok'' = None \<and>
   ''tok'' \<notin> set (or_empty (ZncProxyAuthPolicies
      (storage (snd (serve demo_env demo_proxy_world (DELETE_token, demo_req_bearer))))
      ''user1'')) \<and>
   tokens_consistent (storage (snd (serve demo_env demo_proxy_world
     (DELETE_token, demo_req_bearer)))) \<and>
   leave_proxy_tokens demo_others \<and>
   statusCode (fst (run_among (request demo_env (POST_tokens, demo_req_post)) demo_others
     demo_world)) = 200 \<and>
   tokens_consistent (storage (snd (run_among (request demo_env (POST_tokens, demo_req_post))
     demo_others demo_world))) \<and>
   tokens_consistent (storage (snd (run_among (request demo_env (DELETE_token, demo_req_bearer))
     demo_others demo_proxy_world)))"
proof -
  let ?r = "\<lparr>nso = ZncApi ''access'', data = demo_data\<lparr>expires_at := 1003600001\<rparr>\<rparr>"
  let ?auth = "\<lparr>auth_user = ''user1'', policy = Some demo_policy, created_at = 999000\<rparr>"
  have c0: "tokens_consistent (storage demo_world)"
    by (simp add: tokens_consistent_def or_empty_def demo_defs)
  have f0: "ZncProxyAuthPolicy (storage demo_world) (uuidgen demo_env (uuids demo_world)) = None"
    by (simp add: demo_defs)
  have u0: "uuidgen demo_env (uuids demo_world) = ''u''"
    by (simp add: demo_defs)
  let ?n = "nsoAuth demo_env demo_world (new_request demo_req_post)"
  have n: "?n = (Inr ?r, snd ?n)"
    by (rule prod_eqI) (simp_all add: http_defs getToken_defs demo_defs)
  have b: "body_policy demo_req_post = Some demo_policy"
    by (simp add: demo_defs)
  have c1: "tokens_consistent (storage demo_proxy_world)"
    by (auto simp: tokens_consistent_def or_empty_def demo_defs)
  have t1: "zncAuthPolicyToken (authToken demo_proxy_world (new_request demo_req_bearer)) =
      Some ''tok''"
    by (simp add: http_defs demo_defs)
  have a1: "ZncProxyAuthPolicy (storage demo_proxy_world) ''tok'' = Some ?auth"
    by (simp add: demo_defs)
  note post_thm = proxy_tokens_consistent[of demo_env demo_world demo_req_post demo_others]
  have uid: "na_id (user (data ?r)) = ''user1''"
    by (simp add: demo_data_def)
  from post_thm[THEN conjunct1, rule_format, OF n]
  have p1: "(\<exists>auth. ZncProxyAuthPolicy
        (storage (snd (serve demo_env demo_world (POST_tokens, demo_req_post)))) ''u'' =
          Some auth \<and>
        auth_user auth = ''user1'' \<and> policy auth = Some demo_policy) \<and>
      ''u'' \<in> set (or_empty (ZncProxyAuthPolicies
        (storage (snd (serve demo_env demo_world (POST_tokens, demo_req_post)))) ''user1''))"
    unfolding u0 b uid .
  from post_thm c0 f0
  have p2: "tokens_consistent (storage (snd (serve demo_env demo_world
      (POST_tokens, demo_req_post))))"
    by blast
  note del_thm = proxy_tokens_consistent[of demo_env demo_proxy_world demo_req_bearer
      demo_others]
  have e1: "''tok'' \<noteq> []" by simp
  have au: "auth_user ?auth = ''user1''" by simp
  from del_thm[THEN conjunct2, THEN conjunct1, rule_format, of "''tok''" ?auth] t1 e1 a1
  have d1: "ZncProxyAuthPolicy (storage (snd (serve demo_env demo_proxy_world
        (DELETE_token, demo_req_bearer)))) ''tok'' = None \<and>
      ''tok'' \<notin> set (or_empty (ZncProxyAuthPolicies
        (storage (snd (serve demo_env demo_proxy_world (DELETE_token, demo_req_bearer))))
        ''user1''))"
    unfolding au by blast
  from del_thm c1
  have d2: "tokens_consistent (storage (snd (serve demo_env demo_proxy_world
      (DELETE_token, demo_req_bearer))))"
    by blast
  have l: "leave_proxy_tokens demo_others"
    by (simp add: leave_proxy_tokens_def demo_others_def)
  have s: "statusCode (fst (run_among (request demo_env (POST_tokens, demo_req_post))
      demo_others demo_world)) = 200"
    by (simp add: run_among_step_def step_defs http_defs getToken_defs demo_defs)
  have fr: "\<forall>token auth. fst (run_among (request demo_env (POST_tokens, demo_req_post))
        demo_others demo_world) = ok (Body_token token auth) \<longrightarrow>
      ZncProxyAuthPolicy (storage demo_world) token = None"
    by (simp add: demo_defs)
  from post_thm l c0 fr
  have p3: "tokens_consistent (storage (snd (run_among
      (request demo_env (POST_tokens, demo_req_post)) demo_others demo_world)))"
    by blast
  from del_thm l c1
  have d3: "tokens_consistent (storage (snd (run_among
      (request demo_env (DELETE_token, demo_req_bearer)) demo_others demo_proxy_world)))"
    by blast
  from c0 f0 u0 p1 p2 c1 t1 d1 d2 l s p3 d3 show ?thesis by blast
qed

text \<open>
  The claim as written fails: when two creations for the same user overlap, each
  reads the set of the user before the other has written it, and the set written last
  holds one token only, though both tokens have their entries.
\<close>

theorem proxy_tokens_overlap_counterexample:
  "tokens_consistent (storage demo_world) \<and>
   map (\<lambda>t. case t of Done res \<Rightarrow> Some (statusCode res) | Await k \<Rightarrow> None)
     (fst (schedule demo_posts_order (map (request demo_env) demo_posts, demo_world))) =
     [Some 200, Some 200] \<and>
   map_option auth_user (ZncProxyAuthPolicy (storage
     (snd (schedule demo_posts_order (map (request demo_env) demo_posts, demo_world)))) ''u'') =
     Some ''user1'' \<and>
   map_option auth_user (ZncProxyAuthPolicy (storage
     (snd (schedule demo_posts_order (map (request demo_env) demo_posts, demo_world)))) ''uu'') =
     Some ''user1'' \<and>
   ZncProxyAuthPolicies (storage
     (snd (schedule demo_posts_order (map (request demo_env) demo_posts, demo_world))))
     ''user1'' = Some [''uu''] \<and>
   \<not> tokens_consistent (storage
     (snd (schedule demo_posts_order (map (request demo_env) demo_posts, demo_world))))"
proof -
  let ?W = "snd (schedule demo_posts_order (map (request demo_env) demo_posts, demo_world))"
  have c0: "tokens_consistent (storage demo_world)"
    by (simp add: tokens_consistent_def or_empty_def demo_defs)
  have r: "map (\<lambda>t. case t of Done res \<Rightarrow> Some (statusCode res) | Await k \<Rightarrow> None)
      (fst (schedule demo_posts_order (map (request demo_env) demo_posts, demo_world))) =
      [Some 200, Some 200]"
    by (simp add: step_defs http_defs getToken_defs demo_defs)
  have e1: "map_option auth_user (ZncProxyAuthPolicy (storage ?W) ''u'') = Some ''user1''"
    by (simp add: step_defs http_defs getToken_defs demo_defs)
  have e2: "map_option auth_user (ZncProxyAuthPolicy (storage ?W) ''uu'') = Some ''user1''"
    by (simp add: step_defs http_defs getToken_defs demo_defs)
  have m: "ZncProxyAuthPolicies (storage ?W) ''user1'' = Some [''uu'']"
    by (simp add: step_defs http_defs getToken_defs demo_defs)
  have "\<not> tokens_consistent (storage ?W)"
  proof
    assume "tokens_consistent (storage ?W)"
    then have "''u'' \<in> set (or_empty (ZncProxyAuthPolicies (storage ?W) ''user1'')) \<longleftrightarrow>
        (\<exists>auth. ZncProxyAuthPolicy (storage ?W) ''u'' = Some auth \<and> auth_user auth = ''user1'')"
      unfolding tokens_consistent_def by blast
    with e1 m show False by (auto simp: or_empty_def)
  qed
  with c0 r e1 e2 m show ?thesis by blast
qed

text \<open>
  C10, as the code has it. A request for the announcements that passes the policy test
  and \<^verbatim>\<open>nsoAuth\<close>, served with no other request's step between its own, and that
  finds the variable \<^verbatim>\<open>cached_announcements\<close> empty, calls \<^verbatim>\<open>getAnnouncements\<close>:
  if the call answers, the request is answered with the list and the variable holds
  it; if it throws, the answer is 500 and the variable stays empty. One that finds a
  list there is answered with it and leaves the world as \<^verbatim>\<open>nsoAuth\<close> left it. And
  from a world where the variable holds a list, whatever requests arrive, to whatever
  routes, and in whatever order their steps are taken, overlapping or one after the
  other: the variable keeps that list, no \<^verbatim>\<open>getAnnouncements\<close> call is made, and
  every announcements request that has been answered has got that list, or the refusal
  of the policy test, or the error \<^verbatim>\<open>nsoAuth\<close> caught.
\<close>

theorem announcements_cached_forever:
  "(\<forall>r w1 result. \<not> denied w GET_announcements msg \<and>
       nsoAuth env w (localAuth env w (authToken w (new_request msg))) = (Inr r, w1) \<and>
       cached_announcements w = None \<and>
       getAnnouncements env (length (net w1)) (nso r) = Inr result \<longrightarrow>
       fst (serve env w (GET_announcements, msg)) = ok (Body_announcements result) \<and>
       cached_announcements (snd (serve env w (GET_announcements, msg))) = Some result) \<and>
   (\<forall>r w1 emsg. \<not> denied w GET_announcements msg \<and>
       nsoAuth env w (localAuth env w (authToken w (new_request msg))) = (Inr r, w1) \<and>
       cached_announcements w = None \<and>
       getAnnouncements env (length (net w1)) (nso r) = Inl emsg \<longrightarrow>
       fst (serve env w (GET_announcements, msg)) = caught (Thrown emsg) \<and>
       cached_announcements (snd (serve env w (GET_announcements, msg))) = None) \<and>
   (\<forall>r w1. cached_announcements w = Some cached \<and> \<not> denied w GET_announcements msg \<and>
       nsoAuth env w (localAuth env w (authToken w (new_request msg))) = (Inr r, w1) \<longrightarrow>
       serve env w (GET_announcements, msg) = (ok (Body_announcements cached), w1)) \<and>
   (cached_announcements w = Some cached \<longrightarrow>
       keeps_announcements cached w (snd (schedule order (map (request env) rqs, w))) \<and>
       (\<forall>i<length rqs. \<forall>res. fst (rqs ! i) = GET_announcements \<and>
          fst (schedule order (map (request env) rqs, w)) ! i = Done res \<longrightarrow>
          announced cached res)) \<and>
   (cached_announcements w = Some cached \<longrightarrow>
       keeps_announcements cached w (snd (serve_all env w rqs)) \<and>
       (\<forall>(rq, res)\<in>set (zip rqs (fst (serve_all env w rqs))).
          fst rq = GET_announcements \<longrightarrow> announced cached res))"
proof -
  let ?req = "localAuth env w (authToken w (new_request msg))"
  have s: "serve env w (GET_announcements, msg) = after_nsoAuth env GET_announcements ?req r w1"
    if "\<not> denied w GET_announcements msg" "nsoAuth env w ?req = (Inr r, w1)" for r w1
    using that by (simp add: serve_nsoAuth)
  have f: "cached_announcements w1 = cached_announcements w"
    if "nsoAuth env w ?req = (Inr r, w1)" for r w1
    using nsoAuth_frame[of env w ?req] that by simp
  have c1: "\<forall>r w1 result. \<not> denied w GET_announcements msg \<and>
       nsoAuth env w ?req = (Inr r, w1) \<and> cached_announcements w = None \<and>
       getAnnouncements env (length (net w1)) (nso r) = Inr result \<longrightarrow>
       fst (serve env w (GET_announcements, msg)) = ok (Body_announcements result) \<and>
       cached_announcements (snd (serve env w (GET_announcements, msg))) = Some result"
    using s f by (auto simp: Let_def call_def)
  have c2: "\<forall>r w1 emsg. \<not> denied w GET_announcements msg \<and>
       nsoAuth env w ?req = (Inr r, w1) \<and> cached_announcements w = None \<and>
       getAnnouncements env (length (net w1)) (nso r) = Inl emsg \<longrightarrow>
       fst (serve env w (GET_announcements, msg)) = caught (Thrown emsg) \<and>
       cached_announcements (snd (serve env w (GET_announcements, msg))) = None"
    using s f by (auto simp: Let_def call_def)
  have c3: "\<forall>r w1. cached_announcements w = Some cached \<and> \<not> denied w GET_announcements msg \<and>
       nsoAuth env w ?req = (Inr r, w1) \<longrightarrow>
       serve env w (GET_announcements, msg) = (ok (Body_announcements cached), w1)"
    using s f by auto
  have c4: "cached_announcements w = Some cached \<longrightarrow>
       keeps_announcements cached w (snd (schedule order (map (request env) rqs, w))) \<and>
       (\<forall>i<length rqs. \<forall>res. fst (rqs ! i) = GET_announcements \<and>
          fst (schedule order (map (request env) rqs, w)) ! i = Done res \<longrightarrow>
          announced cached res)"
    using schedule_requests_cached[of w cached order env rqs]
    by (simp add: route_answer_def)
  have c5: "cached_announcements w = Some cached \<longrightarrow>
       keeps_announcements cached w (snd (serve_all env w rqs)) \<and>
       (\<forall>(rq, res)\<in>set (zip rqs (fst (serve_all env w rqs))).
          fst rq = GET_announcements \<longrightarrow> announced cached res)"
    using serve_all_cached[of w cached env rqs]
    by (simp add: route_answer_def)
  from c1 c2 c3 c4 c5 show ?thesis by blast
qed

theorem announcements_cached_forever_witness:
  "\<not> denied demo_world GET_announcements demo_req_na \<and>
   cached_announcements demo_world = None \<and>
   fst (serve demo_env demo_world (GET_announcements, demo_req_na)) =
     ok (Body_announcements [JSON ''aa'']) \<and>
   cached_announcements (snd (serve demo_env demo_world (GET_announcements, demo_req_na))) =
     Some [JSON ''aa''] \<and>
   cached_announcements demo_announced = Some [JSON ''cached''] \<and>
   fst (serve demo_env demo_announced (GET_announcements, demo_req_na)) =
     ok (Body_announcements [JSON ''cached'']) \<and>
   keeps_announcements [JSON ''cached''] demo_announced
     (snd (schedule demo_turns (map (request demo_env) demo_run, demo_announced))) \<and>
   fst (schedule demo_turns (map (request demo_env) demo_run, demo_announced)) ! 0 =
     Done (ok (Body_announcements [JSON ''cached''])) \<and>
   announced [JSON ''cached''] (ok (Body_announcements [JSON ''cached''])) \<and>
   keeps_announcements [JSON ''cached''] demo_announced
     (snd (serve_all demo_env demo_announced demo_run))"
proof -
  let ?r = "\<lparr>nso = ZncApi ''access'', data = demo_data\<lparr>expires_at := 1003600001\<rparr>\<rparr>"
  let ?a = "nsoAuth demo_env demo_world
      (localAuth demo_env demo_world (authToken demo_world (new_request demo_req_na)))"
  let ?b = "nsoAuth demo_env demo_announced
      (localAuth demo_env demo_announced (authToken demo_announced (new_request demo_req_na)))"
  have g: "\<not> denied demo_world GET_announcements demo_req_na"
    by (simp add: denied_def http_defs demo_defs)
  have n: "?a = (Inr ?r, snd ?a)"
    by (rule prod_eqI) (simp_all add: http_defs getToken_defs demo_defs)
  have c: "cached_announcements demo_world = None"
    by (simp add: demo_defs)
  have u: "getAnnouncements demo_env (length (net (snd ?a))) (nso ?r) = Inr [JSON ''aa'']"
    by (simp add: http_defs getToken_defs demo_defs)
  from announcements_cached_forever[where w = demo_world and msg = demo_req_na
      and env = demo_env, THEN conjunct1, rule_format, of ?r "snd ?a" "[JSON ''aa'']"] g n c u
  have first: "fst (serve demo_env demo_world (GET_announcements, demo_req_na)) =
      ok (Body_announcements [JSON ''aa'']) \<and>
    cached_announcements (snd (serve demo_env demo_world (GET_announcements, demo_req_na))) =
      Some [JSON ''aa'']"
    by blast
  have g': "\<not> denied demo_announced GET_announcements demo_req_na"
    by (simp add: denied_def http_defs demo_defs)
  have n': "?b = (Inr ?r, snd ?b)"
    by (rule prod_eqI) (simp_all add: http_defs getToken_defs demo_defs)
  have c': "cached_announcements demo_announced = Some [JSON ''cached'']"
    by (simp add: demo_defs)
  note later = announcements_cached_forever[where w = demo_announced and msg = demo_req_na
      and env = demo_env and cached = "[JSON ''cached'']" and rqs = demo_run
      and order = demo_turns, THEN conjunct2, THEN conjunct2]
  from later[THEN conjunct1, rule_format, of ?r "snd ?b"] c' g' n'
  have hit: "fst (serve demo_env demo_announced (GET_announcements, demo_req_na)) =
      ok (Body_announcements [JSON ''cached''])"
    by simp
  have i: "0 < length demo_run" "fst (demo_run ! 0) = GET_announcements"
    by (simp_all add: demo_defs)
  have d: "fst (schedule demo_turns (map (request demo_env) demo_run, demo_announced)) ! 0 =
      Done (ok (Body_announcements [JSON ''cached'']))"
    by (simp add: step_defs http_defs getToken_defs demo_defs)
  from later[THEN conjunct2, THEN conjunct1] c'
  have among: "keeps_announcements [JSON ''cached''] demo_announced
      (snd (schedule demo_turns (map (request demo_env) demo_run, demo_announced))) \<and>
    (\<forall>i<length demo_run. \<forall>res. fst (demo_run ! i) = GET_announcements \<and>
       fst (schedule demo_turns (map (request demo_env) demo_run, demo_announced)) ! i =
         Done res \<longrightarrow> announced [JSON ''cached''] res)"
    by blast
  with i d have ans: "announced [JSON ''cached''] (ok (Body_announcements [JSON ''cached'']))"
    by blast
  from later[THEN conjunct2, THEN conjunct2] c'
  have run: "keeps_announcements [JSON ''cached''] demo_announced
      (snd (serve_all demo_env demo_announced demo_run))"
    by blast
  from g c first c' hit among d ans run show ?thesis by blast
qed

text \<open>
  The claim as written fails. With a list cached, a request of a user whose credential
  is not in the token cache is answered with the list, and \<^verbatim>\<open>nsoAuth\<close> has called
  upstream for it, to exchange the session token; and a request that presents a proxy
  token the server never issued is answered 500, not with the list. And when two
  requests that find the variable empty overlap, each calls \<^verbatim>\<open>getAnnouncements\<close>;
  the first is answered with its list, the second with another, which replaces the
  first in the variable and is what a third request is answered with.
\<close>

theorem announcements_request_counterexample:
  "cached_announcements demo_announced = Some [JSON ''cached''] \<and>
   net demo_announced = [] \<and>
   fst (serve demo_env demo_announced (GET_announcements, demo_req_na)) =
     \<lparr>statusCode = 200, body = Body_announcements [JSON ''cached'']\<rparr> \<and>
   net (snd (serve demo_env demo_announced (GET_announcements, demo_req_na))) =
     [Net_ZncApi_createWithSessionToken ''session''] \<and>
   fst (serve demo_env demo_announced (GET_announcements, demo_req_unknown)) =
     \<lparr>statusCode = 500, body = Body_thrown Requires_authentication\<rparr> \<and>
   fst (schedule demo_overlap_order (map (request demo_env) demo_overlap, demo_world)) =
     [Done \<lparr>statusCode = 200, body = Body_announcements [JSON ''aa'']\<rparr>,
      Done \<lparr>statusCode = 200, body = Body_announcements [JSON ''aaa'']\<rparr>,
      Done \<lparr>statusCode = 200, body = Body_announcements [JSON ''aaa'']\<rparr>] \<and>
   net (snd (schedule demo_overlap_order (map (request demo_env) demo_overlap, demo_world))) =
     [Net_ZncApi_createWithSessionToken ''session'', Net_getAnnouncements (ZncApi ''access''),
      Net_getAnnouncements (ZncApi ''access'')] \<and>
   cached_announcements
     (snd (schedule demo_overlap_order (map (request demo_env) demo_overlap, demo_world))) =
     Some [JSON ''aaa'']"
proof -
  have a: "cached_announcements demo_announced = Some [JSON ''cached''] \<and>
      net demo_announced = [] \<and>
      fst (serve demo_env demo_announced (GET_announcements, demo_req_na)) =
        \<lparr>statusCode = 200, body = Body_announcements [JSON ''cached'']\<rparr> \<and>
      net (snd (serve demo_env demo_announced (GET_announcements, demo_req_na))) =
        [Net_ZncApi_createWithSessionToken ''session''] \<and>
      fst (serve demo_env demo_announced (GET_announcements, demo_req_unknown)) =
        \<lparr>statusCode = 500, body = Body_thrown Requires_authentication\<rparr>"
    by (simp add: http_defs getToken_defs demo_defs)
  have b: "fst (schedule demo_overlap_order (map (request demo_env) demo_overlap, demo_world)) =
      [Done \<lparr>statusCode = 200, body = Body_announcements [JSON ''aa'']\<rparr>,
       Done \<lparr>statusCode = 200, body = Body_announcements [JSON ''aaa'']\<rparr>,
       Done \<lparr>statusCode = 200, body = Body_announcements [JSON ''aaa'']\<rparr>]"
    by (simp add: step_defs http_defs getToken_defs demo_defs)
  have c: "net (snd (schedule demo_overlap_order
        (map (request demo_env) demo_overlap, demo_world))) =
      [Net_ZncApi_createWithSessionToken ''session'', Net_getAnnouncements (ZncApi ''access''),
       Net_getAnnouncements (ZncApi ''access'')]"
    by (simp add: step_defs http_defs getToken_defs demo_defs)
  have d: "cached_announcements
      (snd (schedule demo_overlap_order (map (request demo_env) demo_overlap, demo_world))) =
      Some [JSON ''aaa'']"
    by (simp add: step_defs http_defs getToken_defs demo_defs)
  from a b c d show ?thesis by blast
qed

end
